(* ===== verification/Prelude.thy ===== *)
theory Prelude
  imports Main "HOL-Library.Word" "HOL-Library.List_Lexorder"
begin

text \<open>
  Shared vocabulary of the development: bytes and machine words, results with
  errors as values (the left summand is the error), ASCII strings as lists of
  UTF-8 code units, checked unsigned arithmetic, big-endian byte strings and
  the facts on lists that several components rely on.  The collections
  \<open>result_simps\<close>, \<open>byte_simps\<close> and \<open>checked_simps\<close> carry the component proofs, and
  \<open>eval_simps\<close> evaluates the byte encodings on concrete inputs.
\<close>

named_theorems result_simps "evaluation of fallible computations"
named_theorems byte_simps "big-endian encoding and decoding"
named_theorems checked_simps "checked unsigned arithmetic"
named_theorems eval_simps "evaluation of the model on concrete inputs"

section \<open>Types\<close>

type_synonym byte = "8 word"
type_synonym u16 = "16 word"
type_synonym u32 = "32 word"
type_synonym u64 = "64 word"
type_synonym bytes = "byte list"

section \<open>Results\<close>

abbreviation Ok :: "'a \<Rightarrow> 'e + 'a" where "Ok \<equiv> Inr"
abbreviation Err :: "'e \<Rightarrow> 'e + 'a" where "Err \<equiv> Inl"

definition and_then :: "'e + 'a \<Rightarrow> ('a \<Rightarrow> 'e + 'b) \<Rightarrow> 'e + 'b" where
  "and_then r f = (case r of Inl e \<Rightarrow> Inl e | Inr x \<Rightarrow> f x)"

definition map_err :: "('e \<Rightarrow> 'f) \<Rightarrow> 'e + 'a \<Rightarrow> 'f + 'a" where
  "map_err g r = (case r of Inl e \<Rightarrow> Inl (g e) | Inr x \<Rightarrow> Inr x)"

definition ok_or :: "'e \<Rightarrow> 'a option \<Rightarrow> 'e + 'a" where
  "ok_or e m = (case m of None \<Rightarrow> Inl e | Some x \<Rightarrow> Inr x)"

definition ensure :: "bool \<Rightarrow> 'e \<Rightarrow> 'e + unit" where
  "ensure b e = (if b then Inr () else Inl e)"

definition is_ok :: "'e + 'a \<Rightarrow> bool" where
  "is_ok r = (case r of Inl _ \<Rightarrow> False | Inr _ \<Rightarrow> True)"

lemma and_then_simps [simp, result_simps]:
  "and_then (Inl e) f = Inl e"
  "and_then (Inr x) f = f x"
  by (simp_all add: and_then_def)

lemma and_then_ok_iff [result_simps]:
  "and_then r f = Inr y \<longleftrightarrow> (\<exists>x. r = Inr x \<and> f x = Inr y)"
  by (cases r) simp_all

lemma and_then_unit_ok_iff:
  "and_then (r :: 'e + unit) f = Inr y \<longleftrightarrow> r = Inr () \<and> f () = Inr y"
  by (cases r) simp_all

lemma and_then_err_iff:
  "and_then r f = Inl e \<longleftrightarrow> r = Inl e \<or> (\<exists>x. r = Inr x \<and> f x = Inl e)"
  by (cases r) simp_all

lemma and_then_assoc:
  "and_then (and_then r f) g = and_then r (\<lambda>x. and_then (f x) g)"
  by (cases r) simp_all

lemma map_err_simps [simp, result_simps]:
  "map_err g (Inl e) = Inl (g e)"
  "map_err g (Inr x) = Inr x"
  by (simp_all add: map_err_def)

lemma map_err_ok_iff [simp, result_simps]:
  "map_err g r = Inr x \<longleftrightarrow> r = Inr x"
  by (cases r) simp_all

lemma ok_or_simps [simp, result_simps]:
  "ok_or e None = Inl e"
  "ok_or e (Some x) = Inr x"
  by (simp_all add: ok_or_def)

lemma ok_or_ok_iff [simp, result_simps]:
  "ok_or e m = Inr x \<longleftrightarrow> m = Some x"
  by (cases m) simp_all

lemma ensure_simps [simp, result_simps]:
  "ensure True e = Inr ()"
  "ensure False e = Inl e"
  by (simp_all add: ensure_def)

lemma ensure_ok_iff [simp, result_simps]:
  "ensure b e = Inr u \<longleftrightarrow> b"
  by (simp add: ensure_def)

lemma ensure_err_iff [simp, result_simps]:
  "ensure b e = Inl e' \<longleftrightarrow> \<not> b \<and> e' = e"
  by (auto simp add: ensure_def)

lemma is_ok_simps [simp, result_simps]:
  "is_ok (Inl e) = False"
  "is_ok (Inr x) = True"
  by (simp_all add: is_ok_def)

lemma is_ok_iff: "is_ok r \<longleftrightarrow> (\<exists>x. r = Inr x)"
  by (cases r) simp_all

text \<open>A loop over named checks that returns at the first one that fails.\<close>

fun check_all :: "('e \<times> bool) list \<Rightarrow> 'e + unit" where
  "check_all [] = Inr ()"
| "check_all ((e, ok) # checks) = (if ok then check_all checks else Inl e)"

lemma check_all_ok_iff [simp, result_simps]: "check_all cs = Inr u \<longleftrightarrow> list_all snd cs"
  by (induction cs rule: check_all.induct) simp_all

lemma check_all_err: "check_all cs = Inl e \<Longrightarrow> (e, False) \<in> set cs"
  by (induction cs rule: check_all.induct) (auto split: if_splits)

section \<open>Strings of UTF-8 code units\<close>

definition is_ascii :: "string \<Rightarrow> bool" where
  "is_ascii s = list_all (\<lambda>c. of_char c < (128 :: nat)) s"

definition is_ascii_digit :: "char \<Rightarrow> bool" where
  "is_ascii_digit c = (48 \<le> (of_char c :: nat) \<and> (of_char c :: nat) \<le> 57)"

definition is_ascii_lower :: "char \<Rightarrow> bool" where
  "is_ascii_lower c = (97 \<le> (of_char c :: nat) \<and> (of_char c :: nat) \<le> 122)"

lemma is_ascii_simps [simp]:
  "is_ascii []"
  "is_ascii (c # s) \<longleftrightarrow> of_char c < (128 :: nat) \<and> is_ascii s"
  by (simp_all add: is_ascii_def)

lemma is_ascii_append [simp]: "is_ascii (s @ t) \<longleftrightarrow> is_ascii s \<and> is_ascii t"
  by (simp add: is_ascii_def)

section \<open>Unicode text\<close>

text \<open>Human text is a list of Unicode scalar values; its length in the source is the
  number of its UTF-8 code units.\<close>

type_synonym utext = "nat list"

definition utf8_width :: "nat \<Rightarrow> nat" where
  "utf8_width c = (if c < 128 then 1 else if c < 2048 then 2 else if c < 65536 then 3 else 4)"

definition text_len :: "utext \<Rightarrow> nat" where
  "text_len t = sum_list (map utf8_width t)"

definition is_control :: "nat \<Rightarrow> bool" where
  "is_control c = (c \<le> 31 \<or> (127 \<le> c \<and> c \<le> 159))"

definition is_whitespace :: "nat \<Rightarrow> bool" where
  "is_whitespace c =
    ((9 \<le> c \<and> c \<le> 13) \<or> c = 32 \<or> c = 133 \<or> c = 160 \<or> c = 5760 \<or> (8192 \<le> c \<and> c \<le> 8202)
     \<or> c = 8232 \<or> c = 8233 \<or> c = 8239 \<or> c = 8287 \<or> c = 12288)"

definition trim :: "utext \<Rightarrow> utext" where
  "trim t = rev (dropWhile is_whitespace (rev (dropWhile is_whitespace t)))"

lemma text_len_ge_length: "length t \<le> text_len t"
  by (induction t) (auto simp add: text_len_def utf8_width_def)

section \<open>Checked unsigned arithmetic\<close>

definition checked_add :: "'a::len word \<Rightarrow> 'a word \<Rightarrow> 'a word option" where
  "checked_add a b = (if unat a + unat b < 2 ^ LENGTH('a) then Some (a + b) else None)"

definition checked_mul :: "'a::len word \<Rightarrow> 'a word \<Rightarrow> 'a word option" where
  "checked_mul a b = (if unat a * unat b < 2 ^ LENGTH('a) then Some (a * b) else None)"

lemma unat_bound: "unat w < 2 ^ LENGTH('a)" for w :: "'a::len word"
  by (rule unsigned_less)

lemma unat_byte_bound: "unat (b :: byte) < 256"
  using unat_bound [of b] by simp

lemma unat_word_of_nat_small:
  "n < 2 ^ LENGTH('a) \<Longrightarrow> unat (word_of_nat n :: 'a::len word) = n"
  by (simp add: unat_of_nat)

lemma checked_add_Some_iff [checked_simps]:
  "checked_add a b = Some c \<longleftrightarrow> unat c = unat a + unat b" for a b c :: "'a::len word"
proof
  assume "checked_add a b = Some c"
  then show "unat c = unat a + unat b"
    by (auto simp add: checked_add_def unat_word_ariths split: if_splits)
next
  assume c: "unat c = unat a + unat b"
  then have lt: "unat a + unat b < 2 ^ LENGTH('a)"
    using unat_bound [of c] by simp
  moreover from c lt have "c = a + b"
    by (simp add: word_unat_eq_iff unat_word_ariths)
  ultimately show "checked_add a b = Some c"
    by (simp add: checked_add_def)
qed

lemma checked_add_None_iff [checked_simps]:
  "checked_add a b = None \<longleftrightarrow> 2 ^ LENGTH('a) \<le> unat a + unat b" for a b :: "'a::len word"
  by (auto simp add: checked_add_def)

lemma checked_mul_Some_iff [checked_simps]:
  "checked_mul a b = Some c \<longleftrightarrow> unat c = unat a * unat b" for a b c :: "'a::len word"
proof
  assume "checked_mul a b = Some c"
  then show "unat c = unat a * unat b"
    by (auto simp add: checked_mul_def unat_word_ariths split: if_splits)
next
  assume c: "unat c = unat a * unat b"
  then have lt: "unat a * unat b < 2 ^ LENGTH('a)"
    using unat_bound [of c] by simp
  moreover from c lt have "c = a * b"
    by (simp add: word_unat_eq_iff unat_word_ariths)
  ultimately show "checked_mul a b = Some c"
    by (simp add: checked_mul_def)
qed

section \<open>Big-endian byte strings\<close>

fun be_encode :: "nat \<Rightarrow> nat \<Rightarrow> bytes" where
  "be_encode 0 x = []"
| "be_encode (Suc n) x = be_encode n (x div 256) @ [word_of_nat x]"

lemma be_encode_numeral [eval_simps]:
  "be_encode (numeral k) x = be_encode (pred_numeral k) (x div 256) @ [word_of_nat x]"
  by (simp only: numeral_eq_Suc [of k] be_encode.simps)

definition be_decode :: "bytes \<Rightarrow> nat" where
  "be_decode bs = foldl (\<lambda>acc b. acc * 256 + unat b) 0 bs"

lemma be_encode_length [simp, byte_simps]: "length (be_encode n x) = n"
  by (induction n arbitrary: x) simp_all

lemma be_decode_simps [simp, byte_simps]:
  "be_decode [] = 0"
  "be_decode (bs @ [b]) = be_decode bs * 256 + unat b"
  by (simp_all add: be_decode_def)

lemma unat_byte_of_nat: "unat (word_of_nat x :: byte) = x mod 256"
  by (simp add: unat_of_nat)

lemma be_decode_encode_mod [byte_simps]: "be_decode (be_encode n x) = x mod 256 ^ n"
proof (induction n arbitrary: x)
  case (Suc n)
  have "x mod 256 ^ Suc n = (x div 256 mod 256 ^ n) * 256 + x mod 256"
    by (simp add: mod_mult2_eq)
  with Suc show ?case by (simp add: unat_byte_of_nat)
qed simp

lemma be_decode_encode [byte_simps]: "x < 256 ^ n \<Longrightarrow> be_decode (be_encode n x) = x"
  by (simp add: be_decode_encode_mod)

lemma be_decode_bound: "be_decode bs < 256 ^ length bs"
proof (induction bs rule: rev_induct)
  case (snoc b bs)
  with unat_byte_bound [of b] show ?case by simp
qed simp

lemma be_encode_decode [byte_simps]: "length bs = n \<Longrightarrow> be_encode n (be_decode bs) = bs"
proof (induction bs arbitrary: n rule: rev_induct)
  case (snoc b bs)
  note b = unat_byte_bound [of b]
  from b have "word_of_nat (be_decode bs * 256 + unat b) = b"
    by (simp add: word_unat_eq_iff unat_byte_of_nat del: of_nat_add of_nat_mult)
  with snoc b show ?case by (cases n) simp_all
qed simp

definition u64_to_be_bytes :: "u64 \<Rightarrow> bytes" where
  "u64_to_be_bytes w = be_encode 8 (unat w)"

definition u64_from_be_bytes :: "bytes \<Rightarrow> u64" where
  "u64_from_be_bytes bs = word_of_nat (be_decode bs)"

definition u32_to_be_bytes :: "u32 \<Rightarrow> bytes" where
  "u32_to_be_bytes w = be_encode 4 (unat w)"

definition u32_from_be_bytes :: "bytes \<Rightarrow> u32" where
  "u32_from_be_bytes bs = word_of_nat (be_decode bs)"

definition u16_to_be_bytes :: "u16 \<Rightarrow> bytes" where
  "u16_to_be_bytes w = be_encode 2 (unat w)"

definition u16_from_be_bytes :: "bytes \<Rightarrow> u16" where
  "u16_from_be_bytes bs = word_of_nat (be_decode bs)"

lemma to_be_bytes_length [simp, byte_simps]:
  "length (u64_to_be_bytes a) = 8"
  "length (u32_to_be_bytes b) = 4"
  "length (u16_to_be_bytes c) = 2"
  by (simp_all add: u64_to_be_bytes_def u32_to_be_bytes_def u16_to_be_bytes_def)

lemma u64_from_to_be_bytes [simp, byte_simps]: "u64_from_be_bytes (u64_to_be_bytes w) = w"
  using unat_bound [of w]
  by (simp add: u64_from_be_bytes_def u64_to_be_bytes_def be_decode_encode)

lemma u32_from_to_be_bytes [simp, byte_simps]: "u32_from_be_bytes (u32_to_be_bytes w) = w"
  using unat_bound [of w]
  by (simp add: u32_from_be_bytes_def u32_to_be_bytes_def be_decode_encode)

lemma u16_from_to_be_bytes [simp, byte_simps]: "u16_from_be_bytes (u16_to_be_bytes w) = w"
  using unat_bound [of w]
  by (simp add: u16_from_be_bytes_def u16_to_be_bytes_def be_decode_encode)

lemma u64_to_from_be_bytes [byte_simps]:
  "length bs = 8 \<Longrightarrow> u64_to_be_bytes (u64_from_be_bytes bs) = bs"
  using be_decode_bound [of bs]
  by (simp add: u64_from_be_bytes_def u64_to_be_bytes_def unat_of_nat be_encode_decode)

lemma u32_to_from_be_bytes [byte_simps]:
  "length bs = 4 \<Longrightarrow> u32_to_be_bytes (u32_from_be_bytes bs) = bs"
  using be_decode_bound [of bs]
  by (simp add: u32_from_be_bytes_def u32_to_be_bytes_def unat_of_nat be_encode_decode)

lemma u16_to_from_be_bytes [byte_simps]:
  "length bs = 2 \<Longrightarrow> u16_to_be_bytes (u16_from_be_bytes bs) = bs"
  using be_decode_bound [of bs]
  by (simp add: u16_from_be_bytes_def u16_to_be_bytes_def unat_of_nat be_encode_decode)

section \<open>Lists\<close>

lemma take_length_append [simp]: "length xs = n \<Longrightarrow> take n (xs @ ys) = xs"
  by simp

lemma drop_length_append [simp]: "length xs = n \<Longrightarrow> drop n (xs @ ys) = ys"
  by simp

text \<open>Checked range access \<open>bytes.get(a..b)\<close>.\<close>

definition get_range :: "'a list \<Rightarrow> nat \<Rightarrow> nat \<Rightarrow> 'a list option" where
  "get_range xs a b = (if a \<le> b \<and> b \<le> length xs then Some (take (b - a) (drop a xs)) else None)"

lemma get_range_Some_iff:
  "get_range xs a b = Some ys \<longleftrightarrow> a \<le> b \<and> b \<le> length xs \<and> ys = take (b - a) (drop a xs)"
  by (auto simp add: get_range_def)

text \<open>The idiom \<open>ids.iter().enumerate().any(|(i, id)| ids[i + 1..].contains(id))\<close>.\<close>

fun has_repeat :: "'a list \<Rightarrow> bool" where
  "has_repeat [] = False"
| "has_repeat (x # xs) = (x \<in> set xs \<or> has_repeat xs)"

lemma has_repeat_iff [simp]: "has_repeat xs \<longleftrightarrow> \<not> distinct xs"
  by (induction xs) auto

text \<open>Collecting into an ordered set: the ascending list of the distinct elements.\<close>

fun btree_set :: "'a::linorder list \<Rightarrow> 'a list" where
  "btree_set [] = []"
| "btree_set (x # xs) = insort_insert x (btree_set xs)"

lemma btree_set_set [simp]: "set (btree_set xs) = set xs"
  by (induction xs) (simp_all add: set_insort_insert)

lemma btree_set_sorted [simp]: "sorted (btree_set xs)"
  by (induction xs) (simp_all add: sorted_insort_insert)

lemma btree_set_distinct [simp]: "distinct (btree_set xs)"
  by (induction xs) (simp_all add: distinct_insort_insert)

lemma btree_set_eq: "btree_set xs = sorted_list_of_set (set xs)"
  by (rule sorted_distinct_set_unique) simp_all

lemma btree_set_length: "length (btree_set xs) = card (set xs)"
  by (metis btree_set_distinct btree_set_set distinct_card)

lemma btree_set_length_eq_iff: "length (btree_set xs) = length xs \<longleftrightarrow> distinct xs"
  by (metis btree_set_length card_distinct distinct_card)

section \<open>Canonical codecs\<close>

text \<open>The contract of a parser and printer pair: what is printed for a valid value is read
  back, and what is read is the printed form of a valid value.\<close>

locale canonical_codec =
  fixes encode :: "'a \<Rightarrow> 'b"
    and decode :: "'b \<Rightarrow> 'e + 'a"
    and valid :: "'a \<Rightarrow> bool"
  assumes decode_encode: "valid a \<Longrightarrow> decode (encode a) = Inr a"
    and decode_valid: "decode b = Inr a \<Longrightarrow> valid a"
    and decode_canonical: "decode b = Inr a \<Longrightarrow> encode a = b"
begin

lemma decode_ok_iff: "decode b = Inr a \<longleftrightarrow> b = encode a \<and> valid a"
  using decode_encode decode_valid decode_canonical by blast

lemma encode_inj: "valid a \<Longrightarrow> valid a' \<Longrightarrow> encode a = encode a' \<Longrightarrow> a = a'"
  by (metis decode_encode sum.inject(2))

lemma decode_inj: "decode b = Inr a \<Longrightarrow> decode b' = Inr a \<Longrightarrow> b = b'"
  using decode_canonical by blast

lemma decode_rejects: "(\<exists>e. decode b = Inl e) \<longleftrightarrow> (\<forall>a. valid a \<longrightarrow> b \<noteq> encode a)"
  by (metis decode_ok_iff sum.exhaust sum.distinct(1))

end

end
