(* ===== verification/Value_Types.thy ===== *)
theory Value_Types
  imports Prelude
begin

text \<open>
  The foundation values of \<open>mengxia-types\<close>: the stable error codes and their
  wire spelling, SHA-256 digests and their lower-case hexadecimal form,
  revision counters with checked successor and canonical decimal form, and
  UUIDv7 identities.  The \<open>uuid\<close> crate is a parameter (\<open>uuid_api\<close>).
\<close>

section \<open>Error codes\<close>

datatype error_code =
    ValidationError | AuthenticationError | AuthorizationDenied | NotFound | Conflict
  | InvalidTransition | SourceModifiedDuringIngest | StorageIoError | StorageCorruption
  | StorageBusy | StorageConfigurationError | IpcTransportError | ProtocolVersionUnsupported
  | DeadlineExceeded | OperationCancelled | ProviderValidation | InvalidCredential
  | ProviderRateLimited | ProviderTimeout | ProviderUnavailable | SubmissionUnknown
  | PluginProtocolViolation | SandboxUnavailable | PluginRevoked | Backpressure
  | InternalError | CommandInProgress | AdminAuthUnavailable | UnsupportedCapability
  | IdGenerationUnavailable | RevisionExhausted

datatype value_error =
    InvalidId | InvalidDigest | InvalidTimestamp | InvalidRevision | UnknownErrorCode

fun error_code_as_str :: "error_code \<Rightarrow> string" where
  "error_code_as_str ValidationError = ''VALIDATION_ERROR''"
| "error_code_as_str AuthenticationError = ''AUTHENTICATION_ERROR''"
| "error_code_as_str AuthorizationDenied = ''AUTHORIZATION_DENIED''"
| "error_code_as_str NotFound = ''NOT_FOUND''"
| "error_code_as_str Conflict = ''CONFLICT''"
| "error_code_as_str InvalidTransition = ''INVALID_TRANSITION''"
| "error_code_as_str SourceModifiedDuringIngest = ''SOURCE_MODIFIED_DURING_INGEST''"
| "error_code_as_str StorageIoError = ''STORAGE_IO_ERROR''"
| "error_code_as_str StorageCorruption = ''STORAGE_CORRUPTION''"
| "error_code_as_str StorageBusy = ''STORAGE_BUSY''"
| "error_code_as_str StorageConfigurationError = ''STORAGE_CONFIGURATION_ERROR''"
| "error_code_as_str IpcTransportError = ''IPC_TRANSPORT_ERROR''"
| "error_code_as_str ProtocolVersionUnsupported = ''PROTOCOL_VERSION_UNSUPPORTED''"
| "error_code_as_str DeadlineExceeded = ''DEADLINE_EXCEEDED''"
| "error_code_as_str OperationCancelled = ''OPERATION_CANCELLED''"
| "error_code_as_str ProviderValidation = ''PROVIDER_VALIDATION''"
| "error_code_as_str InvalidCredential = ''INVALID_CREDENTIAL''"
| "error_code_as_str ProviderRateLimited = ''PROVIDER_RATE_LIMITED''"
| "error_code_as_str ProviderTimeout = ''PROVIDER_TIMEOUT''"
| "error_code_as_str ProviderUnavailable = ''PROVIDER_UNAVAILABLE''"
| "error_code_as_str SubmissionUnknown = ''SUBMISSION_UNKNOWN''"
| "error_code_as_str PluginProtocolViolation = ''PLUGIN_PROTOCOL_VIOLATION''"
| "error_code_as_str SandboxUnavailable = ''SANDBOX_UNAVAILABLE''"
| "error_code_as_str PluginRevoked = ''PLUGIN_REVOKED''"
| "error_code_as_str Backpressure = ''BACKPRESSURE''"
| "error_code_as_str InternalError = ''INTERNAL_ERROR''"
| "error_code_as_str CommandInProgress = ''COMMAND_IN_PROGRESS''"
| "error_code_as_str AdminAuthUnavailable = ''ADMIN_AUTH_UNAVAILABLE''"
| "error_code_as_str UnsupportedCapability = ''UNSUPPORTED_CAPABILITY''"
| "error_code_as_str IdGenerationUnavailable = ''ID_GENERATION_UNAVAILABLE''"
| "error_code_as_str RevisionExhausted = ''REVISION_EXHAUSTED''"

definition MIN_ERROR_CODE_BYTES :: nat where
  "MIN_ERROR_CODE_BYTES = length ''CONFLICT''"

definition MAX_ERROR_CODE_BYTES :: nat where
  "MAX_ERROR_CODE_BYTES = length ''SOURCE_MODIFIED_DURING_INGEST''"

definition error_code_from_str :: "string \<Rightarrow> value_error + error_code" where
  "error_code_from_str value =
    (if \<not> (MIN_ERROR_CODE_BYTES \<le> length value \<and> length value \<le> MAX_ERROR_CODE_BYTES)
        \<or> \<not> is_ascii value
     then Err UnknownErrorCode
     else if value = ''VALIDATION_ERROR'' then Ok ValidationError
     else if value = ''AUTHENTICATION_ERROR'' then Ok AuthenticationError
     else if value = ''AUTHORIZATION_DENIED'' then Ok AuthorizationDenied
     else if value = ''NOT_FOUND'' then Ok NotFound
     else if value = ''CONFLICT'' then Ok Conflict
     else if value = ''INVALID_TRANSITION'' then Ok InvalidTransition
     else if value = ''SOURCE_MODIFIED_DURING_INGEST'' then Ok SourceModifiedDuringIngest
     else if value = ''STORAGE_IO_ERROR'' then Ok StorageIoError
     else if value = ''STORAGE_CORRUPTION'' then Ok StorageCorruption
     else if value = ''STORAGE_BUSY'' then Ok StorageBusy
     else if value = ''STORAGE_CONFIGURATION_ERROR'' then Ok StorageConfigurationError
     else if value = ''IPC_TRANSPORT_ERROR'' then Ok IpcTransportError
     else if value = ''PROTOCOL_VERSION_UNSUPPORTED'' then Ok ProtocolVersionUnsupported
     else if value = ''DEADLINE_EXCEEDED'' then Ok DeadlineExceeded
     else if value = ''OPERATION_CANCELLED'' then Ok OperationCancelled
     else if value = ''PROVIDER_VALIDATION'' then Ok ProviderValidation
     else if value = ''INVALID_CREDENTIAL'' then Ok InvalidCredential
     else if value = ''PROVIDER_RATE_LIMITED'' then Ok ProviderRateLimited
     else if value = ''PROVIDER_TIMEOUT'' then Ok ProviderTimeout
     else if value = ''PROVIDER_UNAVAILABLE'' then Ok ProviderUnavailable
     else if value = ''SUBMISSION_UNKNOWN'' then Ok SubmissionUnknown
     else if value = ''PLUGIN_PROTOCOL_VIOLATION'' then Ok PluginProtocolViolation
     else if value = ''SANDBOX_UNAVAILABLE'' then Ok SandboxUnavailable
     else if value = ''PLUGIN_REVOKED'' then Ok PluginRevoked
     else if value = ''BACKPRESSURE'' then Ok Backpressure
     else if value = ''INTERNAL_ERROR'' then Ok InternalError
     else if value = ''COMMAND_IN_PROGRESS'' then Ok CommandInProgress
     else if value = ''ADMIN_AUTH_UNAVAILABLE'' then Ok AdminAuthUnavailable
     else if value = ''UNSUPPORTED_CAPABILITY'' then Ok UnsupportedCapability
     else if value = ''ID_GENERATION_UNAVAILABLE'' then Ok IdGenerationUnavailable
     else if value = ''REVISION_EXHAUSTED'' then Ok RevisionExhausted
     else Err UnknownErrorCode)"

lemma error_code_from_as_str [simp]: "error_code_from_str (error_code_as_str c) = Ok c"
  by (cases c)
    (simp_all add: error_code_from_str_def MIN_ERROR_CODE_BYTES_def MAX_ERROR_CODE_BYTES_def)

lemma error_code_as_from_str: "error_code_from_str s = Ok c \<Longrightarrow> s = error_code_as_str c"
  by (auto simp add: error_code_from_str_def split: if_splits)

lemma error_code_as_str_inject [simp]: "error_code_as_str c = error_code_as_str d \<longleftrightarrow> c = d"
  by (metis error_code_from_as_str sum.inject(2))

lemma error_code_from_str_err: "error_code_from_str s = Err e \<Longrightarrow> e = UnknownErrorCode"
  by (auto simp add: error_code_from_str_def split: if_splits)

section \<open>SHA-256 digests\<close>

type_synonym sha256_digest = bytes

definition sha256_wf :: "sha256_digest \<Rightarrow> bool" where
  "sha256_wf d = (length d = 32)"

definition lowercase_hex_value :: "byte \<Rightarrow> byte option" where
  "lowercase_hex_value b =
    (if 48 \<le> b \<and> b \<le> 57 then Some (b - 48)
     else if 97 \<le> b \<and> b \<le> 102 then Some (b - 97 + 10)
     else None)"

definition lower_hex_digit :: "byte \<Rightarrow> char" where
  "lower_hex_digit v = char_of (if unat v < 10 then 48 + unat v else 87 + unat v)"

fun sha256_display :: "sha256_digest \<Rightarrow> string" where
  "sha256_display [] = []"
| "sha256_display (b # bs) =
     lower_hex_digit (drop_bit 4 b) # lower_hex_digit (take_bit 4 b) # sha256_display bs"

definition str_bytes :: "string \<Rightarrow> bytes" where
  "str_bytes s = map (\<lambda>c. word_of_nat (of_char c)) s"

fun sha256_pairs :: "bytes \<Rightarrow> value_error + bytes" where
  "sha256_pairs (p0 # p1 # rest) =
     (case lowercase_hex_value p0 of
        None \<Rightarrow> Err InvalidDigest
      | Some high \<Rightarrow>
        (case lowercase_hex_value p1 of
           None \<Rightarrow> Err InvalidDigest
         | Some low \<Rightarrow>
           and_then (sha256_pairs rest) (\<lambda>bs. Ok (or (push_bit 4 high) low # bs))))"
| "sha256_pairs [] = Ok []"
| "sha256_pairs [p] = Err InvalidDigest"

definition sha256_from_str :: "string \<Rightarrow> value_error + sha256_digest" where
  "sha256_from_str value =
    (if length value \<noteq> 64 \<or> \<not> is_ascii value then Err InvalidDigest
     else sha256_pairs (str_bytes value))"

lemma hex_digit_code:
  assumes "unat v < 16"
  shows "of_char (lower_hex_digit v) = (if unat v < 10 then 48 + unat v else 87 + unat v)"
  using assms by (simp add: lower_hex_digit_def)

lemma hex_digit_ascii: "unat v < 16 \<Longrightarrow> of_char (lower_hex_digit v) < (128 :: nat)"
  by (simp add: hex_digit_code)

lemma hex_value_of_nat:
  assumes "n < 256"
  shows "lowercase_hex_value (word_of_nat n) =
    (if 48 \<le> n \<and> n \<le> 57 then Some (word_of_nat (n - 48))
     else if 97 \<le> n \<and> n \<le> 102 then Some (word_of_nat (n - 87)) else None)"
proof -
  have u: "unat (word_of_nat n :: byte) = n"
    using assms by (simp add: unat_byte_of_nat)
  have sub: "(word_of_nat n :: byte) - 48 = word_of_nat (n - 48)" if "48 \<le> n"
    using that by (simp add: of_nat_diff)
  have sub': "(word_of_nat n :: byte) - 97 + 10 = word_of_nat (n - 87)" if "87 \<le> n"
    using that by (simp add: of_nat_diff)
  show ?thesis
    using sub sub' by (auto simp add: lowercase_hex_value_def word_le_nat_alt u)
qed

lemma hex_value_digit [simp]:
  assumes "unat v < 16"
  shows "lowercase_hex_value (word_of_nat (of_char (lower_hex_digit v))) = Some v"
  using assms by (auto simp add: hex_digit_code hex_value_of_nat)

lemma hex_digit_value:
  assumes "lowercase_hex_value (word_of_nat (of_char c)) = Some v"
  shows "unat v < 16 \<and> lower_hex_digit v = c"
proof -
  let ?n = "of_char c :: nat"
  have n: "?n < 256" by simp
  have v: "(48 \<le> ?n \<and> ?n \<le> 57 \<and> v = word_of_nat (?n - 48)) \<or>
    (97 \<le> ?n \<and> ?n \<le> 102 \<and> v = word_of_nat (?n - 87))"
    using assms by (auto simp add: hex_value_of_nat [OF n] split: if_splits)
  then have "unat v = ?n - 48 \<and> ?n \<le> 57 \<and> 48 \<le> ?n \<or> unat v = ?n - 87 \<and> 97 \<le> ?n \<and> ?n \<le> 102"
    using unat_word_of_nat_small [of "?n - 48", where 'a = 8]
      unat_word_of_nat_small [of "?n - 87", where 'a = 8] by auto
  then show ?thesis
    by (auto simp add: lower_hex_digit_def)
qed

lemma nibble_bounds:
  "unat (drop_bit 4 b) < 16" "unat (take_bit 4 b) < 16" for b :: byte
proof -
  have "unat b div 16 < 16"
    using unat_byte_bound [of b] by simp
  then show "unat (drop_bit 4 b) < 16"
    by (simp add: drop_bit_eq_div unat_div)
  show "unat (take_bit 4 b) < 16"
    by (simp add: take_bit_eq_mod unat_mod)
qed

lemma nibbles_join [simp]: "or (push_bit 4 (drop_bit 4 b)) (take_bit 4 b) = b" for b :: byte
  by (rule bit_eqI) (auto simp add: bit_simps)

lemma high_bits_clear: "unat w < 16 \<Longrightarrow> 4 \<le> n \<Longrightarrow> \<not> bit w n" for w :: byte
proof -
  assume w: "unat w < 16" and n: "4 \<le> n"
  from w have "take_bit 4 (unat w) = unat w"
    by (simp add: take_bit_nat_eq_self_iff)
  then have "take_bit 4 w = w"
    by (simp add: word_unat_eq_iff unsigned_take_bit_eq)
  with n show ?thesis
    by (metis bit_take_bit_iff not_less)
qed

lemma nibbles_split:
  fixes h l :: byte
  assumes "unat h < 16" "unat l < 16"
  shows "drop_bit 4 (or (push_bit 4 h) l) = h" "take_bit 4 (or (push_bit 4 h) l) = l"
proof -
  note low = high_bits_clear [OF assms(1)] high_bits_clear [OF assms(2)]
  show "drop_bit 4 (or (push_bit 4 h) l) = h"
    by (rule bit_eqI) (use low in \<open>auto simp add: bit_simps not_less [symmetric]\<close>)
  show "take_bit 4 (or (push_bit 4 h) l) = l"
    by (rule bit_eqI) (use low in \<open>auto simp add: bit_simps not_less\<close>)
qed

lemma sha256_pairs_display [simp]: "sha256_pairs (str_bytes (sha256_display d)) = Ok d"
  by (induction d) (simp_all add: str_bytes_def nibble_bounds)

lemma sha256_display_length [simp]: "length (sha256_display d) = 2 * length d"
  by (induction d) simp_all

lemma sha256_display_ascii [simp]: "is_ascii (sha256_display d)"
  by (induction d) (simp_all add: hex_digit_ascii nibble_bounds)

lemma sha256_from_display: "sha256_wf d \<Longrightarrow> sha256_from_str (sha256_display d) = Ok d"
  by (simp add: sha256_from_str_def sha256_wf_def)

lemma sha256_pairs_inverse:
  "sha256_pairs (str_bytes s) = Ok d \<Longrightarrow> sha256_display d = s \<and> 2 * length d = length s"
proof (induction s arbitrary: d rule: induct_list012)
  case (3 c0 c1 s)
  from "3.prems" obtain h l d' where
    hl: "lowercase_hex_value (word_of_nat (of_char c0)) = Some h"
      "lowercase_hex_value (word_of_nat (of_char c1)) = Some l"
    and rest: "sha256_pairs (str_bytes s) = Ok d'"
    and d: "d = or (push_bit 4 h) l # d'"
    by (auto simp add: str_bytes_def and_then_ok_iff split: option.splits)
  from hl [THEN hex_digit_value] "3.IH"(1) [OF rest] d show ?case
    by (simp add: nibbles_split del: drop_bit_or take_bit_or)
qed (simp_all add: str_bytes_def)

lemma sha256_display_from:
  "sha256_from_str s = Ok d \<Longrightarrow> sha256_display d = s \<and> sha256_wf d"
  using sha256_pairs_inverse [of s d]
  by (auto simp add: sha256_from_str_def sha256_wf_def split: if_splits)

section \<open>Revision numbers\<close>

type_synonym revision_no = u64

datatype revision_overflow = RevisionOverflow

definition checked_next :: "revision_no \<Rightarrow> revision_overflow + revision_no" where
  "checked_next r = (case checked_add r 1 of Some n \<Rightarrow> Ok n | None \<Rightarrow> Err RevisionOverflow)"

fun decimal :: "nat \<Rightarrow> string" where
  "decimal n = (if n < 10 then [char_of (48 + n)]
                else decimal (n div 10) @ [char_of (48 + n mod 10)])"

declare decimal.simps [simp del]

definition revision_display :: "revision_no \<Rightarrow> string" where
  "revision_display r = decimal (unat r)"

fun parse_u64 :: "u64 \<Rightarrow> string \<Rightarrow> u64 option" where
  "parse_u64 acc [] = Some acc"
| "parse_u64 acc (c # cs) =
     (case checked_mul acc 10 of
        None \<Rightarrow> None
      | Some m \<Rightarrow>
        (case checked_add m (word_of_nat (of_char c - 48)) of
           None \<Rightarrow> None
         | Some acc' \<Rightarrow> parse_u64 acc' cs))"

definition revision_from_str :: "string \<Rightarrow> value_error + revision_no" where
  "revision_from_str value =
    (if value = [] \<or> 20 < length value \<or> \<not> is_ascii value
        \<or> \<not> list_all is_ascii_digit value
        \<or> (1 < length value \<and> hd value = CHR ''0'')
     then Err InvalidRevision
     else ok_or InvalidRevision (parse_u64 0 value))"

definition dec_value :: "nat \<Rightarrow> string \<Rightarrow> nat" where
  "dec_value acc s = foldl (\<lambda>a c. a * 10 + (of_char c - 48)) acc s"

lemma dec_value_simps [simp]:
  "dec_value acc [] = acc"
  "dec_value acc (c # s) = dec_value (acc * 10 + (of_char c - 48)) s"
  "dec_value acc (s @ [c]) = dec_value acc s * 10 + (of_char c - 48)"
  by (simp_all add: dec_value_def)

lemma dec_value_ge: "acc \<le> dec_value acc s"
proof (induction s arbitrary: acc)
  case (Cons c s)
  from Cons [of "acc * 10 + (of_char c - 48)"] show ?case by simp
qed simp

lemma parse_u64_dec_value:
  "list_all is_ascii_digit s \<Longrightarrow>
    parse_u64 acc s = (if dec_value (unat acc) s < 2 ^ 64
                       then Some (word_of_nat (dec_value (unat acc) s)) else None)"
proof (induction s arbitrary: acc)
  case Nil
  then show ?case using unat_bound [of acc] by simp
next
  case (Cons c s)
  let ?d = "of_char c - 48 :: nat"
  let ?v = "unat acc * 10 + ?d"
  have d: "?d < 10" using Cons.prems by (simp add: is_ascii_digit_def) linarith
  have ud: "unat (word_of_nat ?d :: u64) = ?d" using d by (simp add: unat_of_nat)
  show ?case
  proof (cases "?v < 2 ^ 64")
    case True
    have m: "checked_mul acc 10 = Some (word_of_nat (unat acc * 10))"
      using True unat_word_of_nat_small [of "unat acc * 10", where 'a = 64]
      by (simp add: checked_mul_Some_iff del: of_nat_mult)
    have a: "checked_add (word_of_nat (unat acc * 10)) (word_of_nat ?d) = Some (word_of_nat ?v :: u64)"
      using True unat_word_of_nat_small [of "unat acc * 10", where 'a = 64]
        unat_word_of_nat_small [of ?v, where 'a = 64]
      by (simp add: checked_add_Some_iff ud del: of_nat_add of_nat_mult)
    have "unat (word_of_nat ?v :: u64) = ?v"
      using True by (simp add: unat_of_nat del: of_nat_add of_nat_mult)
    with m a Cons show ?thesis by simp
  next
    case False
    then have "\<not> dec_value ?v s < 2 ^ 64"
      using dec_value_ge [of ?v s] by linarith
    moreover have "unat x \<noteq> ?v" for x :: u64
      using False unat_bound [of x] by auto
    then have "parse_u64 acc (c # s) = None"
      by (auto simp add: checked_mul_Some_iff checked_add_Some_iff ud split: option.splits)
    ultimately show ?thesis by simp
  qed
qed

lemma decimal_not_empty [simp]: "decimal n \<noteq> []"
  by (subst decimal.simps) simp

lemma digit_char [simp]: "d < 10 \<Longrightarrow> is_ascii_digit (char_of (48 + d))" for d :: nat
  by (simp add: is_ascii_digit_def)

lemma zero_char [simp]: "char_of (48 :: nat) = CHR ''0''"
  using char_of_char [of "CHR ''0''", where 'a = nat] by simp

lemma decimal_digits: "list_all is_ascii_digit (decimal n)"
proof (induction n rule: decimal.induct)
  case (1 n)
  then show ?case
    by (subst decimal.simps) auto
qed

lemma digits_ascii: "list_all is_ascii_digit s \<Longrightarrow> is_ascii s"
  by (induction s) (auto simp add: is_ascii_digit_def)

lemma dec_value_decimal [simp]: "dec_value 0 (decimal n) = n"
proof (induction n rule: decimal.induct)
  case (1 n)
  then show ?case by (subst decimal.simps) auto
qed

lemma decimal_length: "n < 10 ^ Suc k \<Longrightarrow> length (decimal n) \<le> Suc k"
proof (induction k arbitrary: n)
  case 0
  then show ?case by (subst decimal.simps) simp
next
  case (Suc k)
  have "n div 10 < 10 ^ Suc k" using Suc.prems by simp
  from Suc.IH [OF this] show ?case by (subst decimal.simps) simp
qed

lemma decimal_leading: "10 \<le> n \<Longrightarrow> hd (decimal n) \<noteq> CHR ''0''"
proof (induction n rule: decimal.induct)
  case (1 n)
  show ?case
  proof (cases "n < 100")
    case True
    then have d: "0 < n div 10" "n div 10 < 10" using 1 by simp_all
    have "char_of (48 + n div 10) \<noteq> CHR ''0''"
    proof
      assume "char_of (48 + n div 10) = CHR ''0''"
      then have "of_char (char_of (48 + n div 10) :: char) = (48 :: nat)" by simp
      with d show False by simp
    qed
    with d 1 show ?thesis
      by (subst decimal.simps, subst decimal.simps) (simp add: hd_append)
  next
    case False
    with 1 show ?thesis
      by (subst decimal.simps) (simp add: hd_append)
  qed
qed

lemma decimal_short: "n < 10 \<Longrightarrow> length (decimal n) = 1"
  by (subst decimal.simps) simp

lemma revision_from_display: "revision_from_str (revision_display r) = Ok r"
proof -
  have len: "length (decimal (unat r)) \<le> 20"
    using decimal_length [of "unat r" 19] unat_bound [of r] by simp
  have lead: "\<not> (1 < length (decimal (unat r)) \<and> hd (decimal (unat r)) = CHR ''0'')"
    using decimal_short [of "unat r"] decimal_leading [of "unat r"] by (cases "unat r < 10") auto
  have "parse_u64 0 (decimal (unat r)) = Some r"
    using parse_u64_dec_value [OF decimal_digits, of 0 "unat r"] unat_bound [of r] by simp
  with len lead show ?thesis
    by (simp add: revision_from_str_def revision_display_def decimal_digits digits_ascii)
qed

lemma decimal_dec_value:
  "s \<noteq> [] \<Longrightarrow> list_all is_ascii_digit s \<Longrightarrow> length s = 1 \<or> hd s \<noteq> CHR ''0'' \<Longrightarrow>
    decimal (dec_value 0 s) = s"
proof (induction s rule: rev_induct)
  case (snoc c s)
  let ?d = "of_char c - 48 :: nat"
  have d: "?d < 10" "char_of (48 + ?d) = c"
    using snoc.prems by (auto simp add: is_ascii_digit_def)
  show ?case
  proof (cases "s = []")
    case True
    with d show ?thesis by (subst decimal.simps) simp
  next
    case False
    have IH: "decimal (dec_value 0 s) = s"
      using snoc False by (simp add: hd_append)
    have "dec_value 0 s \<noteq> 0"
    proof
      assume "dec_value 0 s = 0"
      with IH have "s = ''0''" by (simp add: decimal.simps [of 0])
      with snoc.prems show False by simp
    qed
    with d IH show ?thesis by (subst decimal.simps) simp
  qed
qed simp

lemma revision_display_from: "revision_from_str s = Ok r \<Longrightarrow> revision_display r = s"
proof -
  assume ok: "revision_from_str s = Ok r"
  then have s: "s \<noteq> []" "list_all is_ascii_digit s" "length s = 1 \<or> hd s \<noteq> CHR ''0''"
    and p: "parse_u64 0 s = Some r"
    by (cases s; auto simp add: revision_from_str_def split: if_splits)+
  from p parse_u64_dec_value [OF s(2), of 0] have "unat r = dec_value 0 s"
    by (auto simp add: unat_of_nat split: if_splits)
  with decimal_dec_value [OF s] show ?thesis
    by (simp add: revision_display_def)
qed

lemma checked_next_ok_iff: "checked_next r = Ok n \<longleftrightarrow> unat n = Suc (unat r)"
proof -
  have "checked_next r = Ok n \<longleftrightarrow> checked_add r 1 = Some n"
    by (simp add: checked_next_def split: option.splits)
  then show ?thesis by (simp add: checked_add_Some_iff)
qed

lemma checked_next_err_iff: "checked_next r = Err e \<longleftrightarrow> unat r = 2 ^ 64 - 1"
  using unat_bound [of r]
  by (cases e) (auto simp add: checked_next_def checked_add_def)

section \<open>Identities\<close>

datatype uuid_variant = NCS | RFC4122 | Microsoft | Future
datatype uuid_version =
  VersionNil | Mac | Dce | Md5 | Random | Sha1 | SortMac | SortRand | Custom | VersionMax

record uuid_api =
  is_nil :: "bytes \<Rightarrow> bool"
  get_variant :: "bytes \<Rightarrow> uuid_variant"
  get_version :: "bytes \<Rightarrow> uuid_version option"
  from_unix_timestamp_millis :: "u64 \<Rightarrow> bytes \<Rightarrow> bytes"

type_synonym uuid = bytes

definition id_from_bytes :: "uuid_api \<Rightarrow> bytes \<Rightarrow> value_error + uuid" where
  "id_from_bytes U bs =
    (if is_nil U bs \<or> get_variant U bs \<noteq> RFC4122 \<or> get_version U bs \<noteq> Some SortRand
     then Err InvalidId else Ok bs)"

definition id_to_bytes :: "uuid \<Rightarrow> bytes" where
  "id_to_bytes i = i"

datatype id_generation_error =
  ClockBeforeUnixEpoch | TimestampOutOfRange | EntropyUnavailable

definition MAX_UUID_V7_MILLIS :: nat where
  "MAX_UUID_V7_MILLIS = 2 ^ 48 - 1"

definition try_new_with_sources ::
  "uuid_api \<Rightarrow> id_generation_error + nat \<Rightarrow> id_generation_error + bytes \<Rightarrow> id_generation_error + uuid"
where
  "try_new_with_sources U clock entropy =
    and_then clock (\<lambda>millis.
      if millis > MAX_UUID_V7_MILLIS then Err TimestampOutOfRange
      else and_then entropy (\<lambda>random.
        Ok (from_unix_timestamp_millis U (word_of_nat millis) random)))"

lemma id_from_bytes_ok_iff:
  "id_from_bytes U bs = Ok i \<longleftrightarrow>
    i = bs \<and> \<not> is_nil U bs \<and> get_variant U bs = RFC4122 \<and> get_version U bs = Some SortRand"
  by (auto simp add: id_from_bytes_def)

lemma id_from_bytes_inverse: "id_from_bytes U bs = Ok i \<Longrightarrow> id_to_bytes i = bs"
  by (simp add: id_from_bytes_ok_iff id_to_bytes_def)

section \<open>Timestamps\<close>

text \<open>The calendar of the \<open>time\<close> crate is the parameter \<open>year_of\<close>: the year of the UTC
  instant the crate builds from a number of nanoseconds since the Unix epoch, none when
  the crate refuses the number.  A timestamp is the pair its two accessors return.\<close>

record timestamp =
  unix_seconds :: int
  subsec_nanoseconds :: nat

definition NANOS_PER_SECOND :: int where "NANOS_PER_SECOND = 1000000000"

definition from_unix_seconds_nanos ::
  "(int \<Rightarrow> int option) \<Rightarrow> int \<Rightarrow> nat \<Rightarrow> value_error + timestamp" where
  "from_unix_seconds_nanos year_of seconds nanos =
    (if nanos > 999999999 then Err InvalidTimestamp
     else case year_of (seconds * NANOS_PER_SECOND + int nanos) of
       None \<Rightarrow> Err InvalidTimestamp
     | Some year \<Rightarrow>
       (if \<not> (1 \<le> year \<and> year \<le> 9999) then Err InvalidTimestamp
        else Ok \<lparr>unix_seconds = seconds, subsec_nanoseconds = nanos\<rparr>))"

lemma from_unix_seconds_nanos_ok:
  "from_unix_seconds_nanos Y s n = Ok t \<Longrightarrow>
    unix_seconds t = s \<and> subsec_nanoseconds t = n \<and> n \<le> 999999999"
  by (auto simp add: from_unix_seconds_nanos_def split: if_splits option.splits)

section \<open>Canonical spellings\<close>

interpretation error_code_codec: canonical_codec error_code_as_str error_code_from_str "\<lambda>_. True"
  using error_code_from_as_str error_code_as_from_str by unfold_locales blast+

interpretation sha256_codec: canonical_codec sha256_display sha256_from_str sha256_wf
  using sha256_from_display sha256_display_from by unfold_locales blast+

interpretation revision_codec: canonical_codec revision_display revision_from_str "\<lambda>_. True"
  using revision_from_display revision_display_from by unfold_locales blast+

text \<open>The wire spelling of error codes is a bijection: a string parses to a code exactly
  when it is the spelling of that code, and to nothing else.\<close>

theorem error_code_spelling:
  "error_code_from_str s = Ok c \<longleftrightarrow> s = error_code_as_str c"
  by (simp add: error_code_codec.decode_ok_iff)

text \<open>A string parses to a digest exactly when it is the 64-character lower-case
  hexadecimal form of those 32 bytes; no other spelling is accepted.\<close>

theorem sha256_spelling:
  "sha256_from_str s = Ok d \<longleftrightarrow> sha256_wf d \<and> s = sha256_display d"
  by (auto simp add: sha256_codec.decode_ok_iff)

text \<open>C36. A string parses to a revision number exactly when it is the canonical decimal form
  of that 64-bit number: no sign, no leading zero, no overflow.\<close>

theorem revision_spelling:
  "revision_from_str s = Ok r \<longleftrightarrow> s = revision_display r"
  by (simp add: revision_codec.decode_ok_iff)

end
