(* ===== verification/Framing.thy ===== *)
theory Framing
  imports Value_Types
begin

text \<open>
  The length-prefixed frames of \<open>mengxia-framing\<close>.  A reader is the bytes still
  to arrive and the way the stream ends; a writer is the bytes accepted so far,
  the room left before the transport fails and the outcome of a flush.  The
  allocator is the parameter \<open>reserve\<close> (which payload sizes it can reserve).
\<close>

definition MIN_FRAME_BYTES :: u32 where "MIN_FRAME_BYTES = 64 * 1024"
definition DEFAULT_FRAME_BYTES :: u32 where "DEFAULT_FRAME_BYTES = 4 * 1024 * 1024"
definition MAX_FRAME_BYTES :: u32 where "MAX_FRAME_BYTES = 16 * 1024 * 1024"
definition FRAME_HEADER_BYTES :: nat where "FRAME_HEADER_BYTES = 4"

datatype frame_error =
  InvalidLimit | InvalidLength | Truncated | AllocationUnavailable | Transport

type_synonym frame_limit = u32

definition frame_limit_new :: "u32 \<Rightarrow> frame_error + frame_limit" where
  "frame_limit_new n =
    (if n < MIN_FRAME_BYTES \<or> n > MAX_FRAME_BYTES then Err InvalidLimit else Ok n)"

datatype stream_end = EndOfFile | IoFailure

record frame_reader =
  arriving :: bytes
  ending :: stream_end

record frame_writer =
  sent :: bytes
  room :: nat
  flushes :: bool

definition read_exact :: "frame_reader \<Rightarrow> nat \<Rightarrow> (frame_error + bytes) \<times> frame_reader" where
  "read_exact r n =
    (if n \<le> length (arriving r)
     then (Ok (take n (arriving r)), r\<lparr>arriving := drop n (arriving r)\<rparr>)
     else (Err (case ending r of EndOfFile \<Rightarrow> Truncated | IoFailure \<Rightarrow> Transport),
           r\<lparr>arriving := []\<rparr>))"

definition read_frame ::
  "(nat \<Rightarrow> bool) \<Rightarrow> frame_reader \<Rightarrow> frame_limit \<Rightarrow> (frame_error + bytes) \<times> frame_reader"
where
  "read_frame reserve r limit =
    (case read_exact r FRAME_HEADER_BYTES of
       (Inl e, r1) \<Rightarrow> (Err e, r1)
     | (Inr header, r1) \<Rightarrow>
       (let len = u32_from_be_bytes header in
        if len = 0 \<or> len > limit then (Err InvalidLength, r1)
        else if \<not> reserve (unat len) then (Err AllocationUnavailable, r1)
        else read_exact r1 (unat len)))"

definition write_all :: "frame_writer \<Rightarrow> bytes \<Rightarrow> (frame_error + unit) \<times> frame_writer" where
  "write_all w bs =
    (if length bs \<le> room w
     then (Ok (), w\<lparr>sent := sent w @ bs, room := room w - length bs\<rparr>)
     else (Err Transport, w\<lparr>sent := sent w @ take (room w) bs, room := 0\<rparr>))"

definition flush :: "frame_writer \<Rightarrow> frame_error + unit" where
  "flush w = (if flushes w then Ok () else Err Transport)"

definition write_frame ::
  "frame_writer \<Rightarrow> bytes \<Rightarrow> frame_limit \<Rightarrow> (frame_error + unit) \<times> frame_writer" where
  "write_frame w payload limit =
    (if payload = [] \<or> length payload > unat limit then (Err InvalidLength, w)
     else if length payload \<ge> 2 ^ 32 then (Err InvalidLength, w)
     else case write_all w (u32_to_be_bytes (word_of_nat (length payload))) of
       (Inl e, w1) \<Rightarrow> (Err e, w1)
     | (Inr _, w1) \<Rightarrow>
       (case write_all w1 payload of
          (Inl e, w2) \<Rightarrow> (Err e, w2)
        | (Inr _, w2) \<Rightarrow> (flush w2, w2)))"

fun write_frames :: "frame_writer \<Rightarrow> bytes list \<Rightarrow> frame_limit \<Rightarrow> (frame_error + unit) \<times> frame_writer"
where
  "write_frames w [] limit = (Ok (), w)"
| "write_frames w (p # ps) limit =
     (case write_frame w p limit of
        (Inl e, w') \<Rightarrow> (Err e, w')
      | (Inr _, w') \<Rightarrow> write_frames w' ps limit)"

fun read_frames ::
  "(nat \<Rightarrow> bool) \<Rightarrow> nat \<Rightarrow> frame_reader \<Rightarrow> frame_limit \<Rightarrow> (frame_error + bytes list) \<times> frame_reader"
where
  "read_frames reserve 0 r limit = (Ok [], r)"
| "read_frames reserve (Suc n) r limit =
     (case read_frame reserve r limit of
        (Inl e, r') \<Rightarrow> (Err e, r')
      | (Inr p, r') \<Rightarrow>
        (case read_frames reserve n r' limit of
           (Inl e, r'') \<Rightarrow> (Err e, r'')
         | (Inr ps, r'') \<Rightarrow> (Ok (p # ps), r'')))"

section \<open>One frame\<close>

definition encode_frame :: "bytes \<Rightarrow> bytes" where
  "encode_frame p = u32_to_be_bytes (word_of_nat (length p)) @ p"

lemma encode_frame_length [simp]: "length (encode_frame p) = 4 + length p"
  by (simp add: encode_frame_def)

lemma frame_limit_unat: "unat (limit :: frame_limit) < 2 ^ 32"
  using unat_bound [of limit] by simp

lemma write_frame_ok:
  assumes "write_frame w p limit = (Ok u, w')"
  shows "p \<noteq> [] \<and> length p \<le> unat limit \<and> sent w' = sent w @ encode_frame p
    \<and> room w = room w' + length (encode_frame p) \<and> flushes w' = flushes w"
  using assms
  by (auto simp add: write_frame_def write_all_def flush_def encode_frame_def
      split: if_splits prod.splits sum.splits)

lemma write_frame_accepts:
  assumes "p \<noteq> []" "length p \<le> unat limit" "length (encode_frame p) \<le> room w" "flushes w"
  shows "\<exists>w'. write_frame w p limit = (Ok (), w')"
  using assms frame_limit_unat [of limit]
  by (auto simp add: write_frame_def write_all_def flush_def encode_frame_def)

lemma read_frame_encoded:
  assumes p: "p \<noteq> []" "length p \<le> unat limit" and res: "reserve (length p)"
    and r: "arriving r = encode_frame p @ rest"
  shows "read_frame reserve r limit = (Ok p, r\<lparr>arriving := rest\<rparr>)"
proof -
  have n: "unat (word_of_nat (length p) :: u32) = length p"
    using p(2) frame_limit_unat [of limit] by (simp add: unat_of_nat)
  then have nz: "word_of_nat (length p) \<noteq> (0 :: u32)"
    using p(1) by (metis length_0_conv unat_0)
  from n p(2) have le: "\<not> word_of_nat (length p) > limit"
    by (simp add: word_less_nat_alt)
  from n nz le res r show ?thesis
    by (simp add: read_frame_def read_exact_def FRAME_HEADER_BYTES_def encode_frame_def)
qed

lemma read_frame_ok:
  assumes "read_frame reserve r limit = (Ok p, r')"
  shows "p \<noteq> [] \<and> length p \<le> unat limit \<and> reserve (length p)
    \<and> arriving r = encode_frame p @ arriving r'"
proof -
  let ?len = "u32_from_be_bytes (take 4 (arriving r))"
  from assms have h: "4 \<le> length (arriving r)" "?len \<noteq> 0" "\<not> ?len > limit"
      "reserve (unat ?len)" "unat ?len \<le> length (drop 4 (arriving r))"
    and p: "p = take (unat ?len) (drop 4 (arriving r))"
    and r': "arriving r' = drop (unat ?len) (drop 4 (arriving r))"
    by (auto simp add: read_frame_def read_exact_def FRAME_HEADER_BYTES_def Let_def
        split: if_splits prod.splits sum.splits)
  have len: "length p = unat ?len" using h(5) p by simp
  moreover have "0 < unat ?len" using h(2) by (simp add: unat_gt_0)
  moreover have "encode_frame p = take 4 (arriving r) @ p"
    using h(1) by (simp add: encode_frame_def len u32_to_from_be_bytes)
  moreover have "unat ?len \<le> unat limit" using h(3) by (simp add: word_le_nat_alt not_less)
  moreover have "arriving r = take 4 (arriving r) @ p @ arriving r'"
    by (metis append_take_drop_id p r')
  ultimately show ?thesis using h(4) by auto
qed

lemma read_frame_no_allocation_failure:
  assumes "\<And>n. n \<le> unat limit \<Longrightarrow> reserve n"
  shows "fst (read_frame reserve r limit) \<noteq> Err AllocationUnavailable"
  using assms
  by (auto simp add: read_frame_def read_exact_def Let_def word_le_nat_alt not_less
      split: prod.splits sum.splits stream_end.splits)

section \<open>Sequences of frames\<close>

lemma write_frames_ok:
  "write_frames w ps limit = (Ok u, w') \<Longrightarrow>
    sent w' = sent w @ concat (map encode_frame ps)
    \<and> list_all (\<lambda>p. p \<noteq> [] \<and> length p \<le> unat limit) ps"
proof (induction ps arbitrary: w)
  case (Cons p ps)
  then obtain w1 where first: "write_frame w p limit = (Ok (), w1)"
    and rest: "write_frames w1 ps limit = (Ok u, w')"
    by (auto split: prod.splits sum.splits)
  from write_frame_ok [OF first] Cons.IH [OF rest] show ?case by simp
qed simp

lemma read_frames_encoded:
  "list_all (\<lambda>p. p \<noteq> [] \<and> length p \<le> unat limit \<and> reserve (length p)) ps \<Longrightarrow>
    arriving r = concat (map encode_frame ps) @ rest \<Longrightarrow>
    read_frames reserve (length ps) r limit = (Ok ps, r\<lparr>arriving := rest\<rparr>)"
proof (induction ps arbitrary: r)
  case (Cons p ps)
  then have "read_frame reserve r limit
      = (Ok p, r\<lparr>arriving := concat (map encode_frame ps) @ rest\<rparr>)"
    by (intro read_frame_encoded) simp_all
  with Cons show ?case by simp
qed simp

text \<open>C23. Whatever payloads \<open>write_frames\<close> puts on a fresh connection, reading the
  same number of frames from the received bytes, under the same limit and with
  an allocator that serves payloads up to the limit, returns exactly those payloads and
  leaves the bytes that follow untouched.\<close>

theorem frames_roundtrip:
  assumes "write_frames w ps limit = (Ok (), w')" and "sent w = []"
    and "\<And>n. n \<le> unat limit \<Longrightarrow> reserve n"
    and "arriving r = sent w' @ rest"
  shows "read_frames reserve (length ps) r limit = (Ok ps, r\<lparr>arriving := rest\<rparr>)"
proof (rule read_frames_encoded)
  from write_frames_ok [OF assms(1)] assms(3)
  show "list_all (\<lambda>p. p \<noteq> [] \<and> length p \<le> unat limit \<and> reserve (length p)) ps"
    by (auto simp add: list_all_iff)
  from write_frames_ok [OF assms(1)] assms(2,4)
  show "arriving r = concat (map encode_frame ps) @ rest" by simp
qed

theorem frames_roundtrip_witness:
  "read_frames (\<lambda>n. True) (length [[7, 8], [9 :: byte]])
      \<lparr>arriving = [0, 0, 0, 2, 7, 8, 0, 0, 0, 1, 9, 5, 5], ending = EndOfFile\<rparr> 65536
    = (Ok [[7, 8], [9]],
       \<lparr>arriving = [0, 0, 0, 2, 7, 8, 0, 0, 0, 1, 9, 5, 5], ending = EndOfFile\<rparr>\<lparr>arriving := [5, 5]\<rparr>)"
proof -
  let ?w = "\<lparr>sent = [], room = 100, flushes = True\<rparr>"
  let ?w' = "\<lparr>sent = [0, 0, 0, 2, 7, 8, 0, 0, 0, 1, 9], room = 89, flushes = True\<rparr>"
  have "write_frames ?w [[7, 8], [9]] 65536 = (Ok (), ?w')"
    by (simp add: write_frame_def write_all_def flush_def u32_to_be_bytes_def eval_simps)
  then show ?thesis by (rule frames_roundtrip) simp_all
qed

text \<open>C33. A frame that is read has between one byte and the configured limit, the
  reservation was made for exactly its length, and exactly its header and payload
  were consumed; a limit itself is always within 64 KiB and 16 MiB.\<close>

theorem read_frame_bounds:
  assumes "frame_limit_new n = Ok limit" and "read_frame reserve r limit = (Ok p, r')"
  shows "0 < length p \<and> length p \<le> unat limit \<and> length p \<le> 16777216 \<and> reserve (length p)
    \<and> arriving r = encode_frame p @ arriving r'"
proof -
  from assms(1) have "unat limit \<le> 16777216"
    by (auto simp add: frame_limit_new_def MAX_FRAME_BYTES_def word_less_nat_alt not_less
        split: if_splits)
  with read_frame_ok [OF assms(2)] show ?thesis by auto
qed

theorem read_frame_bounds_witness:
  "(0 :: nat) < length [7 :: byte, 8] \<and>
    arriving \<lparr>arriving = [0, 0, 0, 2, 7, 8, 5], ending = EndOfFile\<rparr> = encode_frame [7, 8] @ [5]"
proof -
  have lim: "frame_limit_new 65536 = Ok 65536"
    by (simp add: frame_limit_new_def MIN_FRAME_BYTES_def MAX_FRAME_BYTES_def)
  have "read_frame (\<lambda>n. n \<le> 2) \<lparr>arriving = [0, 0, 0, 2, 7, 8, 5], ending = EndOfFile\<rparr> 65536
      = (Ok [7, 8], \<lparr>arriving = [5], ending = EndOfFile\<rparr>)"
    by (simp add: read_frame_def read_exact_def FRAME_HEADER_BYTES_def u32_from_be_bytes_def
        be_decode_def)
  from read_frame_bounds [OF lim this] show ?thesis
    by (simp only: frame_reader.simps list.size simp_thms)
qed

end
