(* ===== verification/Package_Manifest.thy ===== *)
theory Package_Manifest
  imports Value_Types "HOL-Library.Char_ord" "HOL-Library.Product_Lexorder" "HOL-Library.Multiset"
begin

text \<open>
  The typed plugin manifest of \<open>mengxia-plugin-package\<close>: from a parsed JSON value to a
  validated manifest and its canonical bytes.  Strings are their UTF-8 code units and
  compare bytewise; an ordered map is its ascending association list.  The \<open>semver\<close>
  crate is the parameter \<open>semver_parse\<close>: for a version text, whether its build metadata
  is empty and the text the crate prints for it, none when the text is not a version.
\<close>

definition MANIFEST_SCHEMA_ID :: string where
  "MANIFEST_SCHEMA_ID = ''https://schemas.mengxia.local/plugin/manifest-v1.schema.json''"

definition MAX_MANIFEST_BYTES :: nat where "MAX_MANIFEST_BYTES = 65536"
definition MAX_JSON_DEPTH :: nat where "MAX_JSON_DEPTH = 16"
definition MAX_JSON_NODES :: nat where "MAX_JSON_NODES = 4096"
definition MAX_STRING_BYTES :: nat where "MAX_STRING_BYTES = 4096"
definition MAX_CAPABILITIES :: nat where "MAX_CAPABILITIES = 64"
definition MAX_DEPENDENCIES :: nat where "MAX_DEPENDENCIES = 32"
definition MAX_DEPENDENCY_BYTES :: u64 where "MAX_DEPENDENCY_BYTES = 4294967296"

datatype plugin_package_error =
    InputTooLarge | ResourceLimitExceeded | MalformedJson | DuplicateKey | ManifestInvalid
  | NoncanonicalBytes | PackageInternalInvariant

datatype json_value =
    JNull | JBool bool | JNumber u64 | JString string
  | JArray "json_value list" | JObject "(string \<times> json_value) list"

datatype runtime_dependency_role = PluginEntrypoint | Tool

fun as_manifest_str :: "runtime_dependency_role \<Rightarrow> string" where
  "as_manifest_str PluginEntrypoint = ''PLUGIN_ENTRYPOINT''"
| "as_manifest_str Tool = ''TOOL''"

record runtime_dependency_declaration =
  dependency_id :: string
  dependency_role :: runtime_dependency_role
  dependency_target :: string
  dependency_byte_length :: u64
  dependency_sha256 :: sha256_digest

record permission_request =
  permission_kind :: string
  permission_scope :: string

definition canonical_identifier :: "permission_request \<Rightarrow> string" where
  "canonical_identifier p = permission_kind p @ ''/'' @ permission_scope p"

record typed_manifest =
  publisher :: string
  plugin_id :: string
  plugin_version :: string
  capabilities :: "string list"
  requested_permissions :: "permission_request list"
  runtime_dependencies :: "runtime_dependency_declaration list"

record inspected_plugin_package = typed_manifest +
  canonical_bytes :: bytes
  package_digest :: sha256_digest

section \<open>Field access\<close>

definition remove_key :: "string \<Rightarrow> (string \<times> json_value) list \<Rightarrow> (string \<times> json_value) list" where
  "remove_key k m = filter (\<lambda>(k', _). k' \<noteq> k) m"

fun require_string :: "json_value option \<Rightarrow> plugin_package_error + string" where
  "require_string (Some (JString v)) = Ok v"
| "require_string _ = Err ManifestInvalid"

fun require_number :: "json_value option \<Rightarrow> plugin_package_error + u64" where
  "require_number (Some (JNumber v)) = Ok v"
| "require_number _ = Err ManifestInvalid"

fun require_array :: "json_value option \<Rightarrow> plugin_package_error + json_value list" where
  "require_array (Some (JArray v)) = Ok v"
| "require_array _ = Err ManifestInvalid"

fun valid_ascii_token_from :: "bool \<Rightarrow> (char \<Rightarrow> bool \<Rightarrow> bool) \<Rightarrow> string \<Rightarrow> bool" where
  "valid_ascii_token_from first allowed [] = True"
| "valid_ascii_token_from first allowed (c # cs) =
     (allowed c first \<and> valid_ascii_token_from False allowed cs)"

definition valid_ascii_token :: "string \<Rightarrow> nat \<Rightarrow> nat \<Rightarrow> (char \<Rightarrow> bool \<Rightarrow> bool) \<Rightarrow> bool" where
  "valid_ascii_token v minimum maximum allowed =
    (is_ascii v \<and> minimum \<le> length v \<and> length v \<le> maximum \<and> valid_ascii_token_from True allowed v)"

fun has_duplicates :: "'a list \<Rightarrow> bool" where
  "has_duplicates (x # y # xs) = (x = y \<or> has_duplicates (y # xs))"
| "has_duplicates _ = False"

definition is_ascii_upper :: "char \<Rightarrow> bool" where
  "is_ascii_upper c = (65 \<le> (of_char c :: nat) \<and> (of_char c :: nat) \<le> 90)"

definition is_ascii_alphanumeric :: "char \<Rightarrow> bool" where
  "is_ascii_alphanumeric c = (is_ascii_lower c \<or> is_ascii_upper c \<or> is_ascii_digit c)"

section \<open>Capabilities, permissions and dependencies\<close>

definition rsplit_once :: "char \<Rightarrow> string \<Rightarrow> (string \<times> string) option" where
  "rsplit_once c s =
    (let after = takeWhile (\<lambda>x. x \<noteq> c) (rev s) in
     if length after = length s then None
     else Some (rev (drop (Suc (length after)) (rev s)), rev after))"

fun split_on :: "char \<Rightarrow> string \<Rightarrow> string list" where
  "split_on c [] = [[]]"
| "split_on c (x # xs) =
     (if x = c then [] # split_on c xs
      else case split_on c xs of s # ss \<Rightarrow> (x # s) # ss | [] \<Rightarrow> [[x]])"

fun parse_u32_digits :: "u32 \<Rightarrow> string \<Rightarrow> u32 option" where
  "parse_u32_digits acc [] = Some acc"
| "parse_u32_digits acc (c # cs) =
     (if \<not> is_ascii_digit c then None
      else case checked_mul acc 10 of
        None \<Rightarrow> None
      | Some m \<Rightarrow>
        (case checked_add m (word_of_nat (of_char c - 48)) of
           None \<Rightarrow> None
         | Some acc' \<Rightarrow> parse_u32_digits acc' cs))"

definition parse_u32 :: "string \<Rightarrow> u32 option" where
  "parse_u32 s =
    (case s of
       [] \<Rightarrow> None
     | c # cs \<Rightarrow>
       if c = CHR ''+'' then (if cs = [] then None else parse_u32_digits 0 cs)
       else parse_u32_digits 0 s)"

definition capability_segment_char :: "char \<Rightarrow> bool \<Rightarrow> bool" where
  "capability_segment_char c first =
    (is_ascii_lower c \<or> (\<not> first \<and> (is_ascii_digit c \<or> c = CHR ''_'')))"

definition parse_capability :: "string \<Rightarrow> plugin_package_error + string" where
  "parse_capability v =
    (if length v < 5 \<or> length v > 128 \<or> \<not> is_ascii v then Err ManifestInvalid
     else case rsplit_once CHR ''@'' v of
       None \<Rightarrow> Err ManifestInvalid
     | Some (name, version) \<Rightarrow>
       (let segments = split_on CHR ''.'' name in
        if \<not> (2 \<le> length segments \<and> length segments \<le> 8)
           \<or> list_ex (\<lambda>s. \<not> valid_ascii_token s 1 32 capability_segment_char) segments
           \<or> version = [] \<or> hd version = CHR ''0'' \<or> parse_u32 version = None
        then Err ManifestInvalid else Ok v))"

definition parse_permission :: "json_value \<Rightarrow> plugin_package_error + permission_request" where
  "parse_permission v =
    (case v of
       JObject obj \<Rightarrow>
         if length obj \<noteq> 2 then Err ManifestInvalid
         else and_then (require_string (map_of obj ''kind'')) (\<lambda>kind.
              and_then (require_string (map_of obj ''scope'')) (\<lambda>scope.
                if remove_key ''scope'' (remove_key ''kind'' obj) \<noteq> []
                   \<or> kind \<noteq> ''broker.asset.read@1'' \<or> scope \<noteq> ''run-inputs''
                then Err ManifestInvalid
                else Ok \<lparr>permission_kind = kind, permission_scope = scope\<rparr>))
     | _ \<Rightarrow> Err ManifestInvalid)"

definition dependency_id_char :: "char \<Rightarrow> bool \<Rightarrow> bool" where
  "dependency_id_char c first =
    (is_ascii_lower c \<or> (\<not> first \<and> (is_ascii_digit c \<or> c = CHR ''_'' \<or> c = CHR ''-'')))"

definition parse_role :: "string \<Rightarrow> plugin_package_error + runtime_dependency_role" where
  "parse_role s =
    (if s = ''PLUGIN_ENTRYPOINT'' then Ok PluginEntrypoint
     else if s = ''TOOL'' then Ok Tool else Err ManifestInvalid)"

definition parse_dependency :: "json_value \<Rightarrow> plugin_package_error + runtime_dependency_declaration" where
  "parse_dependency v =
    (case v of
       JObject obj \<Rightarrow>
         if length obj \<noteq> 5 then Err ManifestInvalid
         else and_then (require_string (map_of obj ''dependency_id'')) (\<lambda>did.
           if \<not> valid_ascii_token did 1 64 dependency_id_char then Err ManifestInvalid
           else and_then (and_then (require_string (map_of obj ''role'')) parse_role) (\<lambda>role.
             and_then (require_string (map_of obj ''target'')) (\<lambda>target.
               if target \<noteq> ''aarch64-apple-darwin'' then Err ManifestInvalid
               else and_then (require_number (map_of obj ''byte_length'')) (\<lambda>len.
                 if \<not> (1 \<le> len \<and> len \<le> 1073741824) then Err ManifestInvalid
                 else and_then (require_string (map_of obj ''sha256'')) (\<lambda>text.
                   and_then (map_err (\<lambda>_. ManifestInvalid) (sha256_from_str text)) (\<lambda>sha.
                     if sha = replicate 32 0
                        \<or> fold remove_key
                            [''dependency_id'', ''role'', ''target'', ''byte_length'', ''sha256''] obj \<noteq> []
                     then Err ManifestInvalid
                     else Ok \<lparr>dependency_id = did, dependency_role = role,
                       dependency_target = target, dependency_byte_length = len,
                       dependency_sha256 = sha\<rparr>))))))
     | _ \<Rightarrow> Err ManifestInvalid)"

section \<open>The typed manifest\<close>

fun parse_capabilities :: "json_value list \<Rightarrow> plugin_package_error + string list" where
  "parse_capabilities [] = Ok []"
| "parse_capabilities (v # vs) =
     and_then (and_then (require_string (Some v)) parse_capability) (\<lambda>c.
     and_then (parse_capabilities vs) (\<lambda>cs. Ok (c # cs)))"

fun parse_permissions :: "json_value list \<Rightarrow> plugin_package_error + permission_request list" where
  "parse_permissions [] = Ok []"
| "parse_permissions (v # vs) =
     and_then (parse_permission v) (\<lambda>p. and_then (parse_permissions vs) (\<lambda>ps. Ok (p # ps)))"

fun parse_dependencies ::
  "u64 \<Rightarrow> json_value list \<Rightarrow> plugin_package_error + runtime_dependency_declaration list" where
  "parse_dependencies aggregate [] = Ok []"
| "parse_dependencies aggregate (v # vs) =
     and_then (parse_dependency v) (\<lambda>d.
     and_then (ok_or ResourceLimitExceeded (checked_add aggregate (dependency_byte_length d)))
       (\<lambda>aggregate'.
         if aggregate' > MAX_DEPENDENCY_BYTES then Err ResourceLimitExceeded
         else and_then (parse_dependencies aggregate' vs) (\<lambda>ds. Ok (d # ds))))"

definition publisher_char :: "char \<Rightarrow> bool \<Rightarrow> bool" where
  "publisher_char c first =
    (is_ascii_alphanumeric c \<or> c = CHR ''.'' \<or> c = CHR ''_'' \<or> c = CHR ''-'')"

definition plugin_id_char :: "char \<Rightarrow> bool \<Rightarrow> bool" where
  "plugin_id_char c first =
    (is_ascii_lower c \<or> (\<not> first \<and>
      (is_ascii_digit c \<or> c = CHR ''.'' \<or> c = CHR ''_'' \<or> c = CHR ''-'')))"

definition root_keys :: "string list" where
  "root_keys = [''$schema'', ''manifest_version'', ''publisher'', ''plugin_id'', ''version'',
    ''capabilities'', ''requested_permissions'', ''runtime_dependencies'']"

definition parse_header ::
  "(string \<Rightarrow> (bool \<times> string) option) \<Rightarrow> (string \<times> json_value) list
    \<Rightarrow> plugin_package_error + string \<times> string \<times> string" where
  "parse_header semver_parse root =
    and_then (require_string (map_of root ''$schema'')) (\<lambda>schema.
      if schema \<noteq> MANIFEST_SCHEMA_ID then Err ManifestInvalid
      else and_then (require_number (map_of root ''manifest_version'')) (\<lambda>n.
        if n \<noteq> 1 then Err ManifestInvalid
        else and_then (require_string (map_of root ''publisher'')) (\<lambda>pub.
          if \<not> valid_ascii_token pub 1 128 publisher_char then Err ManifestInvalid
          else and_then (require_string (map_of root ''plugin_id'')) (\<lambda>pid.
            if \<not> valid_ascii_token pid 1 128 plugin_id_char then Err ManifestInvalid
            else and_then (require_string (map_of root ''version'')) (\<lambda>ver.
              if ver = [] \<or> length ver > 64 \<or> \<not> is_ascii ver then Err ManifestInvalid
              else case semver_parse ver of
                None \<Rightarrow> Err ManifestInvalid
              | Some (build_empty, printed) \<Rightarrow>
                if \<not> build_empty \<or> printed \<noteq> ver then Err ManifestInvalid
                else Ok (pub, pid, ver))))))"

definition manifest_from_json ::
  "(string \<Rightarrow> (bool \<times> string) option) \<Rightarrow> json_value \<Rightarrow> plugin_package_error + typed_manifest" where
  "manifest_from_json semver_parse v =
    (case v of
       JObject root \<Rightarrow>
         if length root \<noteq> 8 then Err ManifestInvalid
         else and_then (parse_header semver_parse root) (\<lambda>(pub, pid, ver).
           and_then (require_array (map_of root ''capabilities'')) (\<lambda>caps_json.
           and_then (parse_capabilities caps_json) (\<lambda>caps0.
             if length caps0 > MAX_CAPABILITIES then Err ResourceLimitExceeded
             else let caps = sort caps0 in
               if has_duplicates caps then Err ManifestInvalid
               else and_then (require_array (map_of root ''requested_permissions'')) (\<lambda>perms_json.
                 if length perms_json > 1 then Err ResourceLimitExceeded
                 else and_then (parse_permissions perms_json) (\<lambda>perms0.
                   let perms = sort_key (\<lambda>p. (permission_kind p, permission_scope p)) perms0 in
                   if has_duplicates perms then Err ManifestInvalid
                   else and_then (require_array (map_of root ''runtime_dependencies'')) (\<lambda>deps_json.
                     if length deps_json > MAX_DEPENDENCIES then Err ResourceLimitExceeded
                     else and_then (parse_dependencies 0 deps_json) (\<lambda>deps0.
                       let deps = sort_key dependency_id deps0 in
                       if deps = [] \<or> has_duplicates (map dependency_id deps)
                          \<or> length (filter (\<lambda>d. dependency_role d = PluginEntrypoint) deps) \<noteq> 1
                          \<or> fold remove_key root_keys root \<noteq> []
                       then Err ManifestInvalid
                       else Ok \<lparr>publisher = pub, plugin_id = pid, plugin_version = ver,
                         capabilities = caps, requested_permissions = perms,
                         runtime_dependencies = deps\<rparr>)))))))
     | _ \<Rightarrow> Err ManifestInvalid)"

section \<open>Canonical bytes\<close>

definition hex4 :: "nat \<Rightarrow> string" where
  "hex4 n = map (\<lambda>i. lower_hex_digit (word_of_nat (n div 16 ^ i mod 16))) [3, 2, 1, 0]"

definition json_escape :: "char \<Rightarrow> string" where
  "json_escape c =
    (let n = of_char c :: nat in
     if n = 34 then [CHR 0x5C, CHR 0x22]
     else if n = 92 then [CHR 0x5C, CHR 0x5C]
     else if n = 8 then CHR 0x5C # ''b''
     else if n = 12 then CHR 0x5C # ''f''
     else if n = 10 then CHR 0x5C # ''n''
     else if n = 13 then CHR 0x5C # ''r''
     else if n = 9 then CHR 0x5C # ''t''
     else if n \<le> 31 then CHR 0x5C # ''u'' @ hex4 n
     else [c])"

definition json_string :: "string \<Rightarrow> string" where
  "json_string v = [CHR 0x22] @ concat (map json_escape v) @ [CHR 0x22]"

definition json_key :: "string \<Rightarrow> string" where
  "json_key k = [CHR 0x22] @ k @ [CHR 0x22, CHR '':'']"

fun separated :: "string list \<Rightarrow> string" where
  "separated [] = []"
| "separated [x] = x"
| "separated (x # xs) = x @ '','' @ separated xs"

definition permission_json :: "permission_request \<Rightarrow> string" where
  "permission_json p =
    ''{'' @ json_key ''kind'' @ json_string (permission_kind p)
    @ '','' @ json_key ''scope'' @ json_string (permission_scope p) @ ''}''"

definition dependency_json :: "runtime_dependency_declaration \<Rightarrow> string" where
  "dependency_json d =
    ''{'' @ json_key ''byte_length'' @ decimal (unat (dependency_byte_length d))
    @ '','' @ json_key ''dependency_id'' @ json_string (dependency_id d)
    @ '','' @ json_key ''role'' @ json_string (as_manifest_str (dependency_role d))
    @ '','' @ json_key ''sha256'' @ json_string (sha256_display (dependency_sha256 d))
    @ '','' @ json_key ''target'' @ json_string (dependency_target d) @ ''}''"

definition manifest_canonical_bytes :: "typed_manifest \<Rightarrow> string" where
  "manifest_canonical_bytes m =
    ''{'' @ json_key ''$schema'' @ json_string MANIFEST_SCHEMA_ID
    @ '','' @ json_key ''capabilities'' @ ''['' @ separated (map json_string (capabilities m))
    @ ''],'' @ json_key ''manifest_version'' @ ''1,'' @ json_key ''plugin_id'' @ json_string (plugin_id m)
    @ '','' @ json_key ''publisher'' @ json_string (publisher m)
    @ '','' @ json_key ''requested_permissions'' @ ''['' @ separated (map permission_json (requested_permissions m))
    @ ''],'' @ json_key ''runtime_dependencies'' @ ''['' @ separated (map dependency_json (runtime_dependencies m))
    @ ''],'' @ json_key ''version'' @ json_string (plugin_version m) @ ''}''"

section \<open>Well-formed manifests\<close>

definition manifest_wf :: "'a typed_manifest_scheme \<Rightarrow> bool" where
  "manifest_wf m =
    (sorted_wrt (<) (capabilities m) \<and> length (capabilities m) \<le> 64
     \<and> length (requested_permissions m) \<le> 1
     \<and> list_all (\<lambda>p. p = \<lparr>permission_kind = ''broker.asset.read@1'', permission_scope = ''run-inputs''\<rparr>)
         (requested_permissions m)
     \<and> sorted_wrt (<) (map dependency_id (runtime_dependencies m))
     \<and> runtime_dependencies m \<noteq> [] \<and> length (runtime_dependencies m) \<le> 32
     \<and> length (filter (\<lambda>d. dependency_role d = PluginEntrypoint) (runtime_dependencies m)) = 1
     \<and> sum_list (map (\<lambda>d. unat (dependency_byte_length d)) (runtime_dependencies m)) \<le> 4294967296)"

lemma sorted_no_duplicates_strict:
  "sorted xs \<Longrightarrow> \<not> has_duplicates xs \<Longrightarrow> sorted_wrt (<) xs" for xs :: "'a::linorder list"
  by (induction xs rule: has_duplicates.induct) (auto simp add: order.strict_iff_order)

lemma parse_permission_ok:
  "parse_permission v = Ok p \<Longrightarrow>
    p = \<lparr>permission_kind = ''broker.asset.read@1'', permission_scope = ''run-inputs''\<rparr>"
  by (auto simp add: parse_permission_def and_then_ok_iff split: json_value.splits if_splits)

lemma parse_permissions_ok:
  "parse_permissions vs = Ok ps \<Longrightarrow> length ps = length vs
    \<and> list_all (\<lambda>p. p = \<lparr>permission_kind = ''broker.asset.read@1'', permission_scope = ''run-inputs''\<rparr>) ps"
  by (induction vs arbitrary: ps) (auto simp add: and_then_ok_iff dest: parse_permission_ok)

lemma parse_dependencies_ok:
  "parse_dependencies agg vs = Ok ds \<Longrightarrow> unat agg \<le> 4294967296 \<Longrightarrow> length ds = length vs
    \<and> unat agg + sum_list (map (\<lambda>d. unat (dependency_byte_length d)) ds) \<le> 4294967296"
proof (induction vs arbitrary: agg ds)
  case (Cons v vs)
  then obtain d agg' ds' where "checked_add agg (dependency_byte_length d) = Some agg'"
    and le: "agg' \<le> MAX_DEPENDENCY_BYTES" and rest: "parse_dependencies agg' vs = Ok ds'"
    and ds: "ds = d # ds'"
    by (auto simp add: and_then_ok_iff not_less split: if_splits)
  then have "unat agg' = unat agg + unat (dependency_byte_length d)"
    by (simp add: checked_add_Some_iff)
  moreover have "unat agg' \<le> 4294967296"
    using le by (simp add: word_le_nat_alt MAX_DEPENDENCY_BYTES_def)
  ultimately show ?case using Cons.IH [OF rest] ds by simp
qed simp

lemma manifest_from_json_ok:
  assumes "manifest_from_json sv v = Ok m"
  obtains caps0 perms_json perms0 deps_json deps0 where
    "length caps0 \<le> 64" "capabilities m = sort caps0" "\<not> has_duplicates (capabilities m)"
    "length perms_json \<le> 1" "parse_permissions perms_json = Ok perms0"
    "requested_permissions m = sort_key (\<lambda>p. (permission_kind p, permission_scope p)) perms0"
    "length deps_json \<le> 32" "parse_dependencies 0 deps_json = Ok deps0"
    "runtime_dependencies m = sort_key dependency_id deps0"
    "runtime_dependencies m \<noteq> []" "\<not> has_duplicates (map dependency_id (runtime_dependencies m))"
    "length (filter (\<lambda>d. dependency_role d = PluginEntrypoint) (runtime_dependencies m)) = 1"
  using assms
  by (auto simp add: manifest_from_json_def and_then_ok_iff Let_def MAX_CAPABILITIES_def
      MAX_DEPENDENCIES_def not_less split: json_value.splits if_splits prod.splits)

lemma sum_list_sort_key: "sum_list (map f (sort_key k xs)) = sum_list (map f xs)"
  for f :: "'a \<Rightarrow> nat" and k :: "'a \<Rightarrow> 'b::linorder"
  by (metis mset_map mset_sort sum_mset_sum_list)


definition sample_dependency :: runtime_dependency_declaration where
  "sample_dependency = \<lparr>dependency_id = ''entry'', dependency_role = PluginEntrypoint,
    dependency_target = ''aarch64-apple-darwin'', dependency_byte_length = 12,
    dependency_sha256 = replicate 32 17\<rparr>"

definition sample_manifest_json :: json_value where
  "sample_manifest_json = JObject
    [(''$schema'', JString MANIFEST_SCHEMA_ID), (''capabilities'', JArray [JString ''b.c@1'', JString ''a.b@2'']),
     (''manifest_version'', JNumber 1), (''plugin_id'', JString ''p''), (''publisher'', JString ''q''),
     (''requested_permissions'', JArray []),
     (''runtime_dependencies'', JArray [JObject [(''byte_length'', JNumber 12),
        (''dependency_id'', JString ''entry''), (''role'', JString ''PLUGIN_ENTRYPOINT''),
        (''sha256'', JString (sha256_display (replicate 32 17))),
        (''target'', JString ''aarch64-apple-darwin'')]]),
     (''version'', JString ''1.0.0'')]"

definition sample_manifest :: typed_manifest where
  "sample_manifest = \<lparr>publisher = ''q'', plugin_id = ''p'', plugin_version = ''1.0.0'',
    capabilities = [''a.b@2'', ''b.c@1''], requested_permissions = [],
    runtime_dependencies = [sample_dependency]\<rparr>"

lemma sample_dependency_parses:
  "parse_dependencies 0 [JObject [(''byte_length'', JNumber 12),
        (''dependency_id'', JString ''entry''), (''role'', JString ''PLUGIN_ENTRYPOINT''),
        (''sha256'', JString (sha256_display (replicate 32 17))),
        (''target'', JString ''aarch64-apple-darwin'')]] = Ok [sample_dependency]"
  using sha256_from_display [of "replicate 32 17"]
  by (simp add: parse_dependency_def valid_ascii_token_def dependency_id_char_def is_ascii_lower_def
      parse_role_def sha256_wf_def remove_key_def sample_dependency_def MAX_DEPENDENCY_BYTES_def
      checked_add_def replicate_eq_replicate)


end
