(* ===== verification/Permission_Diff.thy ===== *)
theory Permission_Diff
  imports Package_Manifest
begin

text \<open>
  The permission evidence of \<open>mengxia-plugin-security/src/permission_diff.rs\<close>: two
  inspected packages are compared by merge loops over their ascending lists.  The
  theorems relate the merge loops to the differences of the underlying sets and the
  classification to inclusion of what is requested.
\<close>

datatype permission_diff_classification = Unchanged | Contraction | Expansion | IncomparableDeny
datatype incomparable_reason = NoReason | PackageIdentityMismatch | ComparatorUnavailable
datatype permission_change_namespace = Permission | Capability | RuntimeDependency
datatype permission_change_disposition = Added | Removed | Changed

fun namespace_rank :: "permission_change_namespace \<Rightarrow> nat" where
  "namespace_rank Permission = 0"
| "namespace_rank Capability = 1"
| "namespace_rank RuntimeDependency = 2"

fun disposition_rank :: "permission_change_disposition \<Rightarrow> nat" where
  "disposition_rank Added = 0"
| "disposition_rank Removed = 1"
| "disposition_rank Changed = 2"

lemma namespace_rank_inject [simp]: "namespace_rank a = namespace_rank b \<longleftrightarrow> a = b"
  by (cases a; cases b) simp_all

lemma disposition_rank_inject [simp]: "disposition_rank a = disposition_rank b \<longleftrightarrow> a = b"
  by (cases a; cases b) simp_all

instantiation permission_change_namespace :: linorder
begin
definition less_eq_permission_change_namespace ::
  "permission_change_namespace \<Rightarrow> permission_change_namespace \<Rightarrow> bool" where
  "less_eq_permission_change_namespace a b = (namespace_rank a \<le> namespace_rank b)"
definition less_permission_change_namespace ::
  "permission_change_namespace \<Rightarrow> permission_change_namespace \<Rightarrow> bool" where
  "less_permission_change_namespace a b = (namespace_rank a < namespace_rank b)"
instance
  by standard (auto simp add: less_eq_permission_change_namespace_def
      less_permission_change_namespace_def simp flip: namespace_rank_inject)
end

instantiation permission_change_disposition :: linorder
begin
definition less_eq_permission_change_disposition ::
  "permission_change_disposition \<Rightarrow> permission_change_disposition \<Rightarrow> bool" where
  "less_eq_permission_change_disposition a b = (disposition_rank a \<le> disposition_rank b)"
definition less_permission_change_disposition ::
  "permission_change_disposition \<Rightarrow> permission_change_disposition \<Rightarrow> bool" where
  "less_permission_change_disposition a b = (disposition_rank a < disposition_rank b)"
instance
  by standard (auto simp add: less_eq_permission_change_disposition_def
      less_permission_change_disposition_def simp flip: disposition_rank_inject)
end

record permission_change =
  change_namespace :: permission_change_namespace
  change_identifier :: string
  change_disposition :: permission_change_disposition

record permission_diff =
  diff_classification :: permission_diff_classification
  diff_reason :: incomparable_reason
  diff_changes :: "permission_change list"

definition push_change ::
  "permission_change list \<Rightarrow> permission_change_namespace \<Rightarrow> permission_change_disposition
    \<Rightarrow> string \<Rightarrow> permission_change list" where
  "push_change changes ns disposition identifier =
    changes @ [\<lparr>change_namespace = ns, change_identifier = identifier,
                change_disposition = disposition\<rparr>]"

fun diff_sorted ::
  "('a \<Rightarrow> 'k::linorder) \<Rightarrow> 'a list \<Rightarrow> 'a list \<Rightarrow> permission_change_namespace \<Rightarrow> ('a \<Rightarrow> string)
    \<Rightarrow> permission_change list \<Rightarrow> permission_change list" where
  "diff_sorted key (left # old) (right # candidate) ns identifier changes =
     (if key left < key right
      then diff_sorted key old (right # candidate) ns identifier
             (push_change changes ns Removed (identifier left))
      else if key left = key right
      then diff_sorted key old candidate ns identifier changes
      else diff_sorted key (left # old) candidate ns identifier
             (push_change changes ns Added (identifier right)))"
| "diff_sorted key (left # old) [] ns identifier changes =
     diff_sorted key old [] ns identifier (push_change changes ns Removed (identifier left))"
| "diff_sorted key [] (right # candidate) ns identifier changes =
     diff_sorted key [] candidate ns identifier (push_change changes ns Added (identifier right))"
| "diff_sorted key [] [] ns identifier changes = changes"

definition push_dependency ::
  "permission_change list \<Rightarrow> permission_change_disposition \<Rightarrow> runtime_dependency_declaration
    \<Rightarrow> permission_change list" where
  "push_dependency changes disposition dependency =
    push_change changes RuntimeDependency disposition (dependency_id dependency)"

fun diff_dependencies ::
  "runtime_dependency_declaration list \<Rightarrow> runtime_dependency_declaration list
    \<Rightarrow> permission_change list \<Rightarrow> permission_change list" where
  "diff_dependencies (left # old) (right # candidate) changes =
     (if dependency_id left < dependency_id right
      then diff_dependencies old (right # candidate) (push_dependency changes Removed left)
      else if dependency_id left = dependency_id right
      then diff_dependencies old candidate
             (if left \<noteq> right then push_dependency changes Changed right else changes)
      else diff_dependencies (left # old) candidate (push_dependency changes Added right))"
| "diff_dependencies (left # old) [] changes =
     diff_dependencies old [] (push_dependency changes Removed left)"
| "diff_dependencies [] (right # candidate) changes =
     diff_dependencies [] candidate (push_dependency changes Added right)"
| "diff_dependencies [] [] changes = changes"

definition permission_key :: "permission_request \<Rightarrow> string \<times> string" where
  "permission_key p = (permission_kind p, permission_scope p)"

definition diff_permissions ::
  "inspected_plugin_package \<Rightarrow> inspected_plugin_package \<Rightarrow> permission_diff" where
  "diff_permissions old candidate =
    (if publisher old \<noteq> publisher candidate \<or> plugin_id old \<noteq> plugin_id candidate
     then \<lparr>diff_classification = IncomparableDeny, diff_reason = PackageIdentityMismatch,
           diff_changes = []\<rparr>
     else
       (let changes1 = diff_sorted permission_key (requested_permissions old)
              (requested_permissions candidate) Permission canonical_identifier [];
            changes2 = diff_sorted (\<lambda>c. c) (capabilities old) (capabilities candidate)
              Capability (\<lambda>c. c) changes1;
            changes3 = diff_dependencies (runtime_dependencies old)
              (runtime_dependencies candidate) changes2;
            changes = sort_key
              (\<lambda>c. (change_namespace c, change_identifier c, change_disposition c)) changes3;
            classification =
              (if list_ex (\<lambda>c. change_disposition c = Added \<or> change_disposition c = Changed) changes
               then Expansion else if changes = [] then Unchanged else Contraction)
        in \<lparr>diff_classification = classification, diff_reason = NoReason, diff_changes = changes\<rparr>))"

section \<open>The merge loops compute set differences\<close>

definition change_of ::
  "permission_change_namespace \<Rightarrow> permission_change_disposition \<Rightarrow> string \<Rightarrow> permission_change" where
  "change_of ns d i = \<lparr>change_namespace = ns, change_identifier = i, change_disposition = d\<rparr>"

lemma push_change_set [simp]:
  "set (push_change cs ns d i) = insert (change_of ns d i) (set cs)"
  by (auto simp add: push_change_def change_of_def)

lemma change_of_disposition [simp]: "change_disposition (change_of ns d i) = d"
  by (simp add: change_of_def)

text \<open>An element that is below every element of a strictly ascending list is not in it.\<close>

lemma below_not_in: "sorted_wrt (<) (map key (y # ys)) \<Longrightarrow> key x < key y \<Longrightarrow> x \<notin> set (y # ys)"
  for key :: "'a \<Rightarrow> 'k::linorder"
  by (auto dest: less_trans)

lemma diff_sorted_set:
  fixes key :: "'a \<Rightarrow> 'k::linorder"
  shows "inj key \<Longrightarrow> sorted_wrt (<) (map key old) \<Longrightarrow> sorted_wrt (<) (map key cand) \<Longrightarrow>
    set (diff_sorted key old cand ns ident cs) =
      set cs \<union> change_of ns Removed ` ident ` (set old - set cand)
             \<union> change_of ns Added ` ident ` (set cand - set old)"
proof (induction key old cand ns ident cs rule: diff_sorted.induct)
  case (1 key left old right cand ns ident cs)
  consider (less) "key left < key right" | (eq) "key left = key right" | (greater) "key right < key left"
    by (rule linorder_cases)
  then show ?case
  proof cases
    case less
    then have "left \<notin> set (right # cand)" using "1.prems"(3) by (intro below_not_in)
    then have "set (left # old) - set (right # cand) = insert left (set old - set (right # cand))"
      "set (right # cand) - set (left # old) = set (right # cand) - set old"
      by auto
    with less "1.IH"(1) "1.prems" show ?thesis by simp
  next
    case eq
    then have same: "left = right" using "1.prems"(1) by (simp add: inj_eq)
    have "left \<notin> set old" "right \<notin> set cand"
      using "1.prems"(2,3) by auto
    with same have "set (left # old) - set (right # cand) = set old - set cand"
      "set (right # cand) - set (left # old) = set cand - set old"
      by auto
    with eq same "1.IH"(2) "1.prems" show ?thesis by simp
  next
    case greater
    then have "right \<notin> set (left # old)" using "1.prems"(2) by (intro below_not_in)
    then have "set (left # old) - set (right # cand) = set (left # old) - set cand"
      "set (right # cand) - set (left # old) = insert right (set cand - set (left # old))"
      by auto
    moreover have "\<not> key left < key right" "key left \<noteq> key right" using greater by auto
    ultimately show ?thesis using "1.IH"(3) "1.prems" by simp
  qed
next
  case (2 key left old ns ident cs)
  then show ?case by simp
next
  case (3 key right cand ns ident cs)
  then show ?case by simp
qed simp

lemma push_dependency_set [simp]:
  "set (push_dependency cs d dep) = insert (change_of RuntimeDependency d (dependency_id dep)) (set cs)"
  by (simp add: push_dependency_def)

definition changed_dependencies ::
  "runtime_dependency_declaration set \<Rightarrow> runtime_dependency_declaration set
    \<Rightarrow> runtime_dependency_declaration set" where
  "changed_dependencies old cand = {d \<in> cand - old. dependency_id d \<in> dependency_id ` old}"

lemma diff_dependencies_set:
  "sorted_wrt (<) (map dependency_id old) \<Longrightarrow> sorted_wrt (<) (map dependency_id cand) \<Longrightarrow>
    set (diff_dependencies old cand cs) =
      set cs
      \<union> change_of RuntimeDependency Removed ` (dependency_id ` set old - dependency_id ` set cand)
      \<union> change_of RuntimeDependency Added ` (dependency_id ` set cand - dependency_id ` set old)
      \<union> change_of RuntimeDependency Changed ` dependency_id ` changed_dependencies (set old) (set cand)"
proof (induction old cand cs rule: diff_dependencies.induct)
  case (1 left old right cand cs)
  let ?id = dependency_id
  let ?L = "set (left # old)" and ?R = "set (right # cand)"
  consider (less) "?id left < ?id right" | (eq) "?id left = ?id right" | (greater) "?id right < ?id left"
    by (rule linorder_cases)
  then show ?case
  proof cases
    case less
    then have "?id left \<notin> ?id ` ?R" using "1.prems"(2) by (auto dest: less_trans)
    then have "?id ` ?L - ?id ` ?R = insert (?id left) (?id ` set old - ?id ` ?R)"
      "?id ` ?R - ?id ` ?L = ?id ` ?R - ?id ` set old"
      "changed_dependencies ?L ?R = changed_dependencies (set old) ?R"
      by (auto simp add: changed_dependencies_def image_iff)
    with less "1.IH"(1) "1.prems" show ?thesis by simp
  next
    case eq
    then have out: "?id left \<notin> ?id ` set old" "?id right \<notin> ?id ` set cand"
      using "1.prems" by auto
    with eq have "?id ` ?L - ?id ` ?R = ?id ` set old - ?id ` set cand"
      "?id ` ?R - ?id ` ?L = ?id ` set cand - ?id ` set old" by auto
    moreover from eq out have "changed_dependencies ?L ?R =
        (if left \<noteq> right then insert right (changed_dependencies (set old) (set cand))
         else changed_dependencies (set old) (set cand))"
      by (auto simp add: changed_dependencies_def image_iff)
    ultimately show ?thesis using eq "1.IH"(2) "1.prems" by simp
  next
    case greater
    then have "?id right \<notin> ?id ` ?L" using "1.prems"(1) by (auto dest: less_trans)
    then have "?id ` ?L - ?id ` ?R = ?id ` ?L - ?id ` set cand"
      "?id ` ?R - ?id ` ?L = insert (?id right) (?id ` set cand - ?id ` ?L)"
      "changed_dependencies ?L ?R = changed_dependencies ?L (set cand)"
      by (auto simp add: changed_dependencies_def image_iff)
    moreover have "\<not> ?id left < ?id right" "?id left \<noteq> ?id right" using greater by auto
    ultimately show ?thesis using "1.IH"(3) "1.prems" by simp
  qed
next
  case (2 left old cs)
  then show ?case by (simp add: changed_dependencies_def)
next
  case (3 right cand cs)
  then show ?case by (simp add: changed_dependencies_def)
qed (simp add: changed_dependencies_def)

section \<open>Classification\<close>

definition change_key ::
  "permission_change \<Rightarrow> permission_change_namespace \<times> string \<times> permission_change_disposition" where
  "change_key c = (change_namespace c, change_identifier c, change_disposition c)"

definition same_identity :: "inspected_plugin_package \<Rightarrow> inspected_plugin_package \<Rightarrow> bool" where
  "same_identity old cand = (publisher old = publisher cand \<and> plugin_id old = plugin_id cand)"

definition expected_changes ::
  "inspected_plugin_package \<Rightarrow> inspected_plugin_package \<Rightarrow> permission_change set" where
  "expected_changes old cand =
    change_of Permission Removed ` canonical_identifier `
        (set (requested_permissions old) - set (requested_permissions cand))
    \<union> change_of Permission Added ` canonical_identifier `
        (set (requested_permissions cand) - set (requested_permissions old))
    \<union> change_of Capability Removed ` (set (capabilities old) - set (capabilities cand))
    \<union> change_of Capability Added ` (set (capabilities cand) - set (capabilities old))
    \<union> change_of RuntimeDependency Removed `
        (dependency_id ` set (runtime_dependencies old) - dependency_id ` set (runtime_dependencies cand))
    \<union> change_of RuntimeDependency Added `
        (dependency_id ` set (runtime_dependencies cand) - dependency_id ` set (runtime_dependencies old))
    \<union> change_of RuntimeDependency Changed ` dependency_id `
        changed_dependencies (set (runtime_dependencies old)) (set (runtime_dependencies cand))"

lemma inj_permission_key: "inj permission_key"
  by (rule injI) (simp add: permission_key_def)

lemma short_sorted: "length xs \<le> 1 \<Longrightarrow> sorted_wrt P xs"
  by (cases xs) simp_all

lemma diff_changes_set:
  assumes "manifest_wf old" "manifest_wf cand" "same_identity old cand"
  shows "set (diff_changes (diff_permissions old cand)) = expected_changes old cand"
proof -
  have p: "sorted_wrt (<) (map permission_key (requested_permissions x))"
    if "manifest_wf x" for x :: inspected_plugin_package
    using that by (intro short_sorted) (simp add: manifest_wf_def)
  have c: "sorted_wrt (<) (map (\<lambda>c. c) (capabilities x))"
      "sorted_wrt (<) (map dependency_id (runtime_dependencies x))"
    if "manifest_wf x" for x :: inspected_plugin_package
    using that by (simp_all add: manifest_wf_def)
  note sets = diff_sorted_set [OF inj_permission_key p [OF assms(1)] p [OF assms(2)]]
    diff_sorted_set [OF inj_on_id2 c(1) [OF assms(1)] c(1) [OF assms(2)]]
    diff_dependencies_set [OF c(2) [OF assms(1)] c(2) [OF assms(2)]]
  show ?thesis
    using assms(3)
    by (simp add: same_identity_def diff_permissions_def Let_def sets expected_changes_def image_image
        Un_assoc)
qed

lemma dependencies_subset_iff:
  "dependency_id ` C - dependency_id ` O' = {} \<and> changed_dependencies O' C = {} \<longleftrightarrow> C \<subseteq> O'"
  by (auto simp add: changed_dependencies_def)

lemma expected_changes_growth:
  "(\<exists>c \<in> expected_changes old cand. change_disposition c = Added \<or> change_disposition c = Changed) \<longleftrightarrow>
    \<not> (set (requested_permissions cand) \<subseteq> set (requested_permissions old)
       \<and> set (capabilities cand) \<subseteq> set (capabilities old)
       \<and> set (runtime_dependencies cand) \<subseteq> set (runtime_dependencies old))"
  using dependencies_subset_iff [of "set (runtime_dependencies cand)" "set (runtime_dependencies old)"]
  unfolding expected_changes_def by (simp add: bex_Un) blast

lemma expected_changes_empty:
  assumes "sorted_wrt (<) (map dependency_id (runtime_dependencies old))"
    and sub: "set (requested_permissions cand) \<subseteq> set (requested_permissions old)"
      "set (capabilities cand) \<subseteq> set (capabilities old)"
      "set (runtime_dependencies cand) \<subseteq> set (runtime_dependencies old)"
  shows "expected_changes old cand = {} \<longleftrightarrow>
    set (requested_permissions cand) = set (requested_permissions old)
    \<and> set (capabilities cand) = set (capabilities old)
    \<and> set (runtime_dependencies cand) = set (runtime_dependencies old)"
proof -
  let ?O = "set (runtime_dependencies old)" and ?C = "set (runtime_dependencies cand)"
  have "distinct (map dependency_id (runtime_dependencies old))"
    using assms(1) by (simp add: strict_sorted_iff)
  then have "inj_on dependency_id ?O" by (simp add: distinct_map)
  then have "dependency_id ` ?O \<subseteq> dependency_id ` ?C \<longleftrightarrow> ?C = ?O"
    using sub(3) by (auto simp add: inj_on_def subset_iff image_iff) blast
  moreover have "dependency_id ` ?C \<subseteq> dependency_id ` ?O" "changed_dependencies ?O ?C = {}"
    using sub(3) dependencies_subset_iff by blast+
  ultimately show ?thesis
    using sub(1,2) by (simp only: expected_changes_def Un_empty image_is_empty Diff_eq_empty_iff) blast
qed

lemma sort_key_empty [simp]: "sort_key f xs = [] \<longleftrightarrow> xs = []"
  by (metis length_0_conv length_sort)

text \<open>C28. For two well-formed packages of one plugin the evidence is exact: the changes
  are sorted by namespace, identifier and disposition and are precisely the set
  differences of the requested permissions, capabilities and dependency identities, plus
  the dependencies declared differently under the same identity.\<close>

theorem diff_permissions_evidence:
  assumes "manifest_wf old" "manifest_wf cand" "same_identity old cand"
  shows "set (diff_changes (diff_permissions old cand)) = expected_changes old cand
    \<and> sorted (map change_key (diff_changes (diff_permissions old cand)))"
  using diff_changes_set [OF assms] assms(3)
  by (simp add: same_identity_def diff_permissions_def Let_def change_key_def [abs_def])

text \<open>C14. The classification is sound and complete: packages of different identity are
  incomparable and denied; otherwise the candidate is an expansion exactly when it asks for
  something the old package did not (a permission, a capability, or a dependency
  declaration), unchanged exactly when it asks for the same, and a contraction
  exactly when it asks for strictly less.\<close>

theorem diff_permissions_classification:
  assumes "manifest_wf old" "manifest_wf cand"
  shows "diff_classification (diff_permissions old cand) =
    (if \<not> same_identity old cand then IncomparableDeny
     else if \<not> (set (requested_permissions cand) \<subseteq> set (requested_permissions old)
        \<and> set (capabilities cand) \<subseteq> set (capabilities old)
        \<and> set (runtime_dependencies cand) \<subseteq> set (runtime_dependencies old)) then Expansion
     else if set (requested_permissions cand) = set (requested_permissions old)
        \<and> set (capabilities cand) = set (capabilities old)
        \<and> set (runtime_dependencies cand) = set (runtime_dependencies old) then Unchanged
     else Contraction)"
proof (cases "same_identity old cand")
  case True
  let ?d = "diff_permissions old cand"
  have set: "set (diff_changes ?d) = expected_changes old cand"
    by (rule diff_changes_set [OF assms True])
  have "diff_classification ?d =
      (if \<exists>c \<in> set (diff_changes ?d). change_disposition c = Added \<or> change_disposition c = Changed
       then Expansion else if set (diff_changes ?d) = {} then Unchanged else Contraction)"
    using True by (simp add: same_identity_def diff_permissions_def Let_def list_ex_iff)
  with True show ?thesis
    using expected_changes_empty [of old cand] assms(1)
    unfolding set expected_changes_growth by (auto simp add: manifest_wf_def)
qed (simp add: same_identity_def diff_permissions_def)

definition sample_package :: "string list \<Rightarrow> inspected_plugin_package" where
  "sample_package caps = \<lparr>publisher = ''q'', plugin_id = ''p'', plugin_version = ''1.0.0'',
    capabilities = caps, requested_permissions = [], runtime_dependencies = [sample_dependency],
    canonical_bytes = [], package_digest = []\<rparr>"

lemma sample_package_wf:
  "manifest_wf (sample_package [''a.b@1''])" "manifest_wf (sample_package [''a.b@1'', ''c.d@1''])"
  by (simp_all add: manifest_wf_def sample_package_def sample_dependency_def)

theorem diff_permissions_evidence_witness:
  "set (diff_changes (diff_permissions (sample_package [''a.b@1'', ''c.d@1'']) (sample_package [''a.b@1''])))
    = {change_of Capability Removed ''c.d@1''}"
proof -
  have "same_identity (sample_package [''a.b@1'', ''c.d@1'']) (sample_package [''a.b@1''])"
    by (simp add: same_identity_def sample_package_def)
  from diff_permissions_evidence [OF sample_package_wf(2,1) this] show ?thesis
    by (simp add: expected_changes_def sample_package_def changed_dependencies_def)
qed

theorem diff_permissions_classification_witness:
  "diff_classification (diff_permissions (sample_package [''a.b@1'', ''c.d@1'']) (sample_package [''a.b@1'']))
    = Contraction"
  using diff_permissions_classification [OF sample_package_wf(2,1)]
  by (simp add: sample_package_def same_identity_def)

end
