(* ===== verification/Review_Admission.thy ===== *)
theory Review_Admission
  imports Value_Types
begin

text \<open>
  The pure review-eligibility comparison of
  \<open>mengxia-plugin-security/src/reviewed_admission.rs\<close>: four caller-supplied facts, a
  frozen order of denials and a candidate with an exclusive end of validity.
\<close>

datatype 'a review_fact = FactMissing | FactUnverified | FactInvalid | Checked 'a

record review_identity =
  manifest_digest :: sha256_digest
  artifact_digest :: sha256_digest
  dependency_closure_digest :: sha256_digest
  permissions_digest :: sha256_digest
  profile_digest :: sha256_digest
  platform_tuple_digest :: sha256_digest

record review_validity =
  start_ms :: u64
  end_ms :: u64

record review_requirement =
  req_identity :: review_identity
  req_policy_version :: u64
  req_evidence_digest :: sha256_digest

record review_approval =
  appr_identity :: review_identity
  appr_policy_version :: u64
  appr_evidence_digest :: sha256_digest
  appr_record_digest :: sha256_digest
  appr_validity :: review_validity

datatype review_revocation_status = ReviewUnknown | ReviewClear | ReviewRevoked

record review_revocation_snapshot =
  snap_approval_record_digest :: sha256_digest
  snap_status :: review_revocation_status
  snap_epoch :: u64
  snap_validity :: review_validity

record review_clock =
  rc_now_ms :: u64
  rc_last_observed_ms :: u64
  rc_minimum_snapshot_epoch :: u64

record review_assessment =
  ra_requirement :: "review_requirement review_fact"
  ra_approval :: "review_approval review_fact"
  ra_revocation :: "review_revocation_snapshot review_fact"
  ra_clock :: "review_clock review_fact"

datatype review_fact_kind = FactRequirement | FactApproval | FactRevocation | FactClock

datatype review_identity_field =
  FieldManifest | FieldArtifact | FieldDependencyClosure | FieldPermissions | FieldProfile
  | FieldPlatformTuple

datatype review_denial =
    MissingFact review_fact_kind | UnverifiedFact review_fact_kind | InvalidFact review_fact_kind
  | InvalidApprovalValidity | InvalidSnapshotValidity | UnknownRevocation | Revoked
  | ApprovalNotYetValid | ApprovalExpired | SnapshotNotYetValid | SnapshotExpired
  | ReviewClockRollback | SnapshotRollback | IdentityMismatch review_identity_field
  | PolicyMismatch | EvidenceMismatch | RevocationBindingMismatch

record review_eligibility_candidate =
  cand_identity :: review_identity
  cand_approval_record_digest :: sha256_digest
  cand_evidence_digest :: sha256_digest
  cand_policy_version :: u64
  cand_evaluated_at_ms :: u64
  cand_valid_until_ms :: u64
  cand_snapshot_epoch :: u64

fun review_checked :: "'a review_fact \<Rightarrow> review_fact_kind \<Rightarrow> review_denial + 'a" where
  "review_checked FactMissing kind = Err (MissingFact kind)"
| "review_checked FactUnverified kind = Err (UnverifiedFact kind)"
| "review_checked FactInvalid kind = Err (InvalidFact kind)"
| "review_checked (Checked v) kind = Ok v"

definition identity_checks ::
  "review_identity \<Rightarrow> review_identity \<Rightarrow> (review_identity_field \<times> bool) list" where
  "identity_checks expected actual =
    [(FieldManifest, manifest_digest expected = manifest_digest actual),
     (FieldArtifact, artifact_digest expected = artifact_digest actual),
     (FieldDependencyClosure,
        dependency_closure_digest expected = dependency_closure_digest actual),
     (FieldPermissions, permissions_digest expected = permissions_digest actual),
     (FieldProfile, profile_digest expected = profile_digest actual),
     (FieldPlatformTuple, platform_tuple_digest expected = platform_tuple_digest actual)]"

definition evaluate_review_eligibility ::
  "review_assessment \<Rightarrow> review_denial + review_eligibility_candidate" where
  "evaluate_review_eligibility a =
    and_then (review_checked (ra_requirement a) FactRequirement) (\<lambda>requirement.
    and_then (review_checked (ra_approval a) FactApproval) (\<lambda>approval.
    and_then (review_checked (ra_revocation a) FactRevocation) (\<lambda>snapshot.
    and_then (review_checked (ra_clock a) FactClock) (\<lambda>clock.
      let av = appr_validity approval; sv = snap_validity snapshot; now = rc_now_ms clock in
      if start_ms av \<ge> end_ms av then Err InvalidApprovalValidity
      else if start_ms sv \<ge> end_ms sv then Err InvalidSnapshotValidity
      else case snap_status snapshot of
        ReviewUnknown \<Rightarrow> Err UnknownRevocation
      | ReviewRevoked \<Rightarrow> Err Revoked
      | ReviewClear \<Rightarrow>
        if now < start_ms av then Err ApprovalNotYetValid
        else if now \<ge> end_ms av then Err ApprovalExpired
        else if now < start_ms sv then Err SnapshotNotYetValid
        else if now \<ge> end_ms sv then Err SnapshotExpired
        else if now < rc_last_observed_ms clock then Err ReviewClockRollback
        else if snap_epoch snapshot < rc_minimum_snapshot_epoch clock then Err SnapshotRollback
        else and_then (map_err IdentityMismatch
              (check_all (identity_checks (req_identity requirement) (appr_identity approval)))) (\<lambda>_.
          if req_policy_version requirement \<noteq> appr_policy_version approval then Err PolicyMismatch
          else if req_evidence_digest requirement \<noteq> appr_evidence_digest approval
          then Err EvidenceMismatch
          else if snap_approval_record_digest snapshot \<noteq> appr_record_digest approval
          then Err RevocationBindingMismatch
          else Ok \<lparr>cand_identity = appr_identity approval,
            cand_approval_record_digest = appr_record_digest approval,
            cand_evidence_digest = appr_evidence_digest approval,
            cand_policy_version = appr_policy_version approval,
            cand_evaluated_at_ms = now, cand_valid_until_ms = min (end_ms av) (end_ms sv),
            cand_snapshot_epoch = snap_epoch snapshot\<rparr>)))))"

section \<open>Soundness and completeness\<close>

definition within :: "review_validity \<Rightarrow> u64 \<Rightarrow> bool" where
  "within v t = (start_ms v \<le> t \<and> t < end_ms v)"

definition review_agrees ::
  "review_requirement \<Rightarrow> review_approval \<Rightarrow> review_revocation_snapshot \<Rightarrow> bool" where
  "review_agrees r p s =
    (req_identity r = appr_identity p \<and> req_policy_version r = appr_policy_version p
     \<and> req_evidence_digest r = appr_evidence_digest p
     \<and> snap_approval_record_digest s = appr_record_digest p \<and> snap_status s = ReviewClear)"

definition review_current ::
  "review_approval \<Rightarrow> review_revocation_snapshot \<Rightarrow> review_clock \<Rightarrow> bool" where
  "review_current p s k =
    (within (appr_validity p) (rc_now_ms k) \<and> within (snap_validity s) (rc_now_ms k)
     \<and> rc_last_observed_ms k \<le> rc_now_ms k \<and> rc_minimum_snapshot_epoch k \<le> snap_epoch s)"

definition review_candidate ::
  "review_approval \<Rightarrow> review_revocation_snapshot \<Rightarrow> review_clock \<Rightarrow> review_eligibility_candidate" where
  "review_candidate p s k =
    \<lparr>cand_identity = appr_identity p, cand_approval_record_digest = appr_record_digest p,
     cand_evidence_digest = appr_evidence_digest p, cand_policy_version = appr_policy_version p,
     cand_evaluated_at_ms = rc_now_ms k,
     cand_valid_until_ms = min (end_ms (appr_validity p)) (end_ms (snap_validity s)),
     cand_snapshot_epoch = snap_epoch s\<rparr>"

lemma identity_checks_iff: "list_all snd (identity_checks e a) \<longleftrightarrow> e = a"
  by (auto simp add: identity_checks_def)

lemma review_checked_ok_iff [simp]: "review_checked f k = Ok v \<longleftrightarrow> f = Checked v"
  by (cases f) auto

lemma within_valid: "within v t \<Longrightarrow> start_ms v < end_ms v"
  by (auto simp add: within_def intro: order.strict_trans1)

lemma evaluate_checked:
  "evaluate_review_eligibility \<lparr>ra_requirement = Checked r, ra_approval = Checked p,
      ra_revocation = Checked s, ra_clock = Checked k\<rparr> = Ok c \<longleftrightarrow>
    review_agrees r p s \<and> review_current p s k \<and> c = review_candidate p s k"
  by (cases "snap_status s")
    (auto simp add: evaluate_review_eligibility_def Let_def and_then_ok_iff identity_checks_iff
      review_agrees_def review_current_def review_candidate_def within_def not_less not_le
      dest: order.strict_trans1)

lemma evaluate_review_ok_iff:
  "evaluate_review_eligibility a = Ok c \<longleftrightarrow>
    (\<exists>r p s k. a = \<lparr>ra_requirement = Checked r, ra_approval = Checked p, ra_revocation = Checked s,
        ra_clock = Checked k\<rparr> \<and> review_agrees r p s \<and> review_current p s k
      \<and> c = review_candidate p s k)"
proof -
  obtain r p s k where a: "a = \<lparr>ra_requirement = r, ra_approval = p, ra_revocation = s, ra_clock = k\<rparr>"
    by (cases a)
  show ?thesis
  proof (cases "\<exists>r' p' s' k'. r = Checked r' \<and> p = Checked p' \<and> s = Checked s' \<and> k = Checked k'")
    case True
    then show ?thesis unfolding a by (auto simp add: evaluate_checked)
  next
    case False
    then show ?thesis unfolding a
      by (auto simp add: evaluate_review_eligibility_def and_then_ok_iff)
  qed
qed

text \<open>C24. A review is eligible exactly when all four facts are checked, the approval is for
  the required identity, policy and evidence, the revocation snapshot is clear and bound
  to that approval, the clock is inside both validity intervals and has not been rolled
  back, and the snapshot epoch is not below the minimum; the candidate then carries the
  approval and the earlier of the two ends of validity.\<close>

theorem review_eligibility_sound_complete:
  "evaluate_review_eligibility a = Ok c \<longleftrightarrow>
    (\<exists>r p s k. ra_requirement a = Checked r \<and> ra_approval a = Checked p
      \<and> ra_revocation a = Checked s \<and> ra_clock a = Checked k
      \<and> review_agrees r p s \<and> review_current p s k \<and> c = review_candidate p s k)"
  by (cases a) (auto simp add: evaluate_review_ok_iff)

text \<open>C31. An eligible candidate is a lease: its end lies strictly after the evaluation, and
  re-evaluating the same facts at any later clock succeeds exactly while the clock is
  before that end, has not been rolled back and still accepts the snapshot epoch.\<close>

theorem review_candidate_lease:
  assumes "evaluate_review_eligibility a = Ok c" and "cand_evaluated_at_ms c \<le> rc_now_ms k"
  shows "cand_evaluated_at_ms c < cand_valid_until_ms c \<and>
    (is_ok (evaluate_review_eligibility (a\<lparr>ra_clock := Checked k\<rparr>)) \<longleftrightarrow>
      rc_now_ms k < cand_valid_until_ms c \<and> rc_last_observed_ms k \<le> rc_now_ms k
      \<and> rc_minimum_snapshot_epoch k \<le> cand_snapshot_epoch c)"
  using assms
  by (auto simp add: evaluate_review_ok_iff is_ok_iff review_candidate_def review_current_def within_def)

definition sample_identity :: review_identity where
  "sample_identity = \<lparr>manifest_digest = [1], artifact_digest = [2], dependency_closure_digest = [3],
    permissions_digest = [4], profile_digest = [5], platform_tuple_digest = [6]\<rparr>"

definition sample_review :: "u64 \<Rightarrow> review_assessment" where
  "sample_review now =
    \<lparr>ra_requirement = Checked \<lparr>req_identity = sample_identity, req_policy_version = 1,
       req_evidence_digest = [7]\<rparr>,
     ra_approval = Checked \<lparr>appr_identity = sample_identity, appr_policy_version = 1,
       appr_evidence_digest = [7], appr_record_digest = [8],
       appr_validity = \<lparr>start_ms = 100, end_ms = 200\<rparr>\<rparr>,
     ra_revocation = Checked \<lparr>snap_approval_record_digest = [8], snap_status = ReviewClear,
       snap_epoch = 3, snap_validity = \<lparr>start_ms = 50, end_ms = 150\<rparr>\<rparr>,
     ra_clock = Checked \<lparr>rc_now_ms = now, rc_last_observed_ms = 90, rc_minimum_snapshot_epoch = 2\<rparr>\<rparr>"

definition sample_review_candidate :: review_eligibility_candidate where
  "sample_review_candidate = \<lparr>cand_identity = sample_identity, cand_approval_record_digest = [8],
    cand_evidence_digest = [7], cand_policy_version = 1, cand_evaluated_at_ms = 120,
    cand_valid_until_ms = 150, cand_snapshot_epoch = 3\<rparr>"

lemma sample_review_eligible: "evaluate_review_eligibility (sample_review 120) = Ok sample_review_candidate"
  by (simp add: sample_review_def sample_review_candidate_def evaluate_review_eligibility_def Let_def
      identity_checks_def min_def)

theorem review_candidate_lease_witness:
  "\<not> is_ok (evaluate_review_eligibility ((sample_review 120)
      \<lparr>ra_clock := Checked \<lparr>rc_now_ms = 150, rc_last_observed_ms = 120, rc_minimum_snapshot_epoch = 2\<rparr>\<rparr>))"
  using review_candidate_lease [OF sample_review_eligible,
      of "\<lparr>rc_now_ms = 150, rc_last_observed_ms = 120, rc_minimum_snapshot_epoch = 2\<rparr>"]
  by (simp add: sample_review_candidate_def)

end
