(* ===== verification/Broker_Foundation.thy ===== *)
theory Broker_Foundation
  imports Review_Admission Package_Manifest
begin

text \<open>
  The pure broker read decision of \<open>mengxia-plugin-security/src/broker_foundation.rs\<close>.
  Keys are identities and an assessment borrows an inspected package.  The body of
  \<open>assess\<close> is split into consecutive stages that are composed in the order of the code;
  each stage lists its checks with their denials in the order they are made.
\<close>

definition READ_BYTES_PER_REQUEST_MAX :: u64 where "READ_BYTES_PER_REQUEST_MAX = 1048576"

datatype broker_value_error = InvalidKey | InvalidMemberOrdinal

type_synonym broker_key = uuid

definition broker_key_from_bytes :: "uuid_api \<Rightarrow> bytes \<Rightarrow> broker_value_error + broker_key" where
  "broker_key_from_bytes U bs = map_err (\<lambda>_. InvalidKey) (id_from_bytes U bs)"

definition broker_member_ordinal_new :: "u32 \<Rightarrow> broker_value_error + u32" where
  "broker_member_ordinal_new v = (if v \<le> 4095 then Ok v else Err InvalidMemberOrdinal)"

record broker_binding =
  library_key :: broker_key
  owner_uid :: u32
  project_key :: broker_key
  run_key :: broker_key
  instance_key :: broker_key
  channel_key :: broker_key
  execution_identity :: review_identity

record broker_member =
  asset_revision_key :: broker_key
  representation_key :: broker_key
  resource_key :: broker_key
  member_ordinal :: u32
  member_digest :: sha256_digest
  blob_length :: u64

record read_target =
  target_member :: broker_member
  target_offset :: u64
  target_length :: u64

record read_authorization_key =
  ak_binding :: broker_binding
  ak_member :: broker_member

record broker_read_request =
  request_key :: broker_key
  correlation_key :: broker_key
  request_lease_record_key :: broker_key
  request_target :: read_target

datatype run_state = RunActive | RunInactive | RunCancelled | RunUnknown
datatype membership = Present | Absent | MembershipUnknown
datatype policy_disposition = Permit | PolicyDeny | PolicyNeedsApproval | PolicyUnknown
datatype broker_plugin_trust_decision =
  AllowReviewed | TrustDeny | TrustNeedsApproval | UnsupportedProfile | TrustUnknown
datatype runtime_disposition = QualifiedReviewed | RuntimeDenied | RuntimeUnknown
datatype lease_state = LeaseActive | LeaseRevoked | LeaseConsumed | LeaseUnknown
datatype revocation_state = RevocationClear | RevocationRevoked | RevocationUnknown

record execution_fact =
  ef_binding :: broker_binding
  ef_run_state :: run_state
  ef_run_revision :: u64
  ef_validity :: review_validity

record run_input_fact =
  if_authorization_key :: read_authorization_key
  if_run_revision :: u64
  if_membership :: membership

record read_policy_fact =
  pf_authorization_key :: read_authorization_key
  pf_policy_revision :: u64
  pf_grant_key :: broker_key
  pf_grant_revision :: u64
  pf_validity :: review_validity
  pf_plugin_trust :: "broker_plugin_trust_decision review_fact"
  pf_package_policy :: policy_disposition
  pf_installed_grant :: policy_disposition
  pf_project_policy :: policy_disposition
  pf_owner_policy :: policy_disposition
  pf_data_policy :: policy_disposition

record read_runtime_fact =
  rf_binding :: broker_binding
  rf_qualification_digest :: sha256_digest
  rf_validity :: review_validity
  rf_disposition :: runtime_disposition

record read_lease_fact =
  lf_lease_record_key :: broker_key
  lf_authorization_key :: read_authorization_key
  lf_grant_key :: broker_key
  lf_grant_revision :: u64
  lf_policy_revision :: u64
  lf_revocation_epoch :: u64
  lf_validity :: review_validity
  lf_state :: lease_state
  lf_allowed_offset :: u64
  lf_allowed_length :: u64
  lf_remaining_operations :: u64
  lf_remaining_bytes :: u64

record read_revocation_fact =
  vf_authorization_key :: read_authorization_key
  vf_grant_key :: broker_key
  vf_grant_revision :: u64
  vf_policy_revision :: u64
  vf_epoch :: u64
  vf_validity :: review_validity
  vf_state :: revocation_state

record broker_clock =
  bc_now_ms :: u64
  bc_last_observed_ms :: u64
  bc_minimum_revocation_epoch :: u64

record broker_read_assessment =
  ba_request :: broker_read_request
  ba_caller :: "broker_binding review_fact"
  ba_execution :: "execution_fact review_fact"
  ba_input :: "run_input_fact review_fact"
  ba_package :: inspected_plugin_package
  ba_review :: review_assessment
  ba_policy :: "read_policy_fact review_fact"
  ba_runtime :: "read_runtime_fact review_fact"
  ba_lease :: "read_lease_fact review_fact"
  ba_revocation :: "read_revocation_fact review_fact"
  ba_clock :: "broker_clock review_fact"

datatype broker_fact_kind =
    KCaller | KExecution | KInput | KPolicy | KPluginTrust | KRuntime | KLease | KRevocation | KClock
datatype unavailable_fact = UnavailableMissing | UnavailableUnverified | UnavailableInvalid
datatype broker_revision_field =
    ExecutionRun | InputRun | PolicyPolicy | PolicyGrant | LeaseGrant | LeasePolicy
  | RevocationGrant | RevocationPolicy
datatype broker_binding_field =
    BindLibrary | BindOwner | BindProject | BindRun | BindInstance | BindChannel
  | BindIdentity review_identity_field | BindAssetRevision | BindRepresentation | BindResource
  | BindMemberOrdinal | BindBlobDigest | BindBlobLength
datatype broker_policy_factor =
  FactorPackage | FactorInstalledGrant | FactorProject | FactorOwner | FactorData

datatype broker_read_denial =
    FactUnavailable broker_fact_kind unavailable_fact
  | BrokerInvalidRevision broker_revision_field
  | InvalidValidity broker_fact_kind
  | InvalidLeaseRange | InvalidRequestRange | ReadLimitExceeded
  | BindingMismatch broker_fact_kind broker_binding_field
  | RunRevisionMismatch | LeaseRecordMismatch
  | GrantKeyMismatch broker_fact_kind
  | GrantRevisionMismatch broker_fact_kind
  | PolicyRevisionMismatch broker_fact_kind
  | BrokerClockRollback
  | NotYetValid broker_fact_kind | Expired broker_fact_kind
  | RevocationRollback | LeaseEpochMismatch | RunNotActive | NotRunInput | LeaseNotActive
  | RevocationDenied | ManifestMismatch | ReadNotRequested | ReviewClockMismatch
  | ReviewRejected review_denial | ReviewIdentityMismatch | RuntimeNotQualified
  | PluginTrustDenied broker_plugin_trust_decision
  | PolicyDenied broker_policy_factor policy_disposition
  | LeaseRangeDenied | OperationBudgetExhausted | ByteBudgetExhausted

record broker_read_candidate =
  bk_request :: broker_read_request
  bk_authorization_key :: read_authorization_key
  bk_run_revision :: u64
  bk_policy_revision :: u64
  bk_grant_revision :: u64
  bk_grant_key :: broker_key
  bk_revocation_epoch :: u64
  bk_runtime_qualification_digest :: sha256_digest
  bk_review :: review_eligibility_candidate
  bk_plugin_trust_decision :: broker_plugin_trust_decision
  bk_evaluated_at :: u64
  bk_valid_until :: u64

datatype broker_read_decision = Eligible broker_read_candidate | Denied broker_read_denial
datatype broker_audit_decision = AuditEligible | AuditDenied broker_read_denial

record broker_read_audit_candidate =
  au_requested :: broker_read_request
  au_decision :: broker_audit_decision
  au_caller :: "broker_binding option"
  au_evaluated_at :: "u64 option"
  au_run_revision :: "u64 option"
  au_policy_revision :: "u64 option"
  au_grant_revision :: "u64 option"
  au_runtime_qualification_digest :: "sha256_digest option"
  au_review_approval :: "sha256_digest option"
  au_review_evidence :: "sha256_digest option"
  au_review_policy :: "u64 option"
  au_review_snapshot_epoch :: "u64 option"
  au_plugin_trust :: "broker_plugin_trust_decision review_fact option"

record broker_read_evaluation =
  ev_decision :: broker_read_decision
  ev_audit :: broker_read_audit_candidate

fun broker_checked :: "'a review_fact \<Rightarrow> broker_fact_kind \<Rightarrow> broker_read_denial + 'a" where
  "broker_checked (Checked v) kind = Ok v"
| "broker_checked FactMissing kind = Err (FactUnavailable kind UnavailableMissing)"
| "broker_checked FactUnverified kind = Err (FactUnavailable kind UnavailableUnverified)"
| "broker_checked FactInvalid kind = Err (FactUnavailable kind UnavailableInvalid)"

fun supplied :: "'a review_fact \<Rightarrow> 'a option" where
  "supplied (Checked v) = Some v"
| "supplied _ = None"

definition valid_interval :: "review_validity \<Rightarrow> bool" where
  "valid_interval v = (start_ms v < end_ms v)"

definition valid_range :: "u64 \<Rightarrow> u64 \<Rightarrow> u64 \<Rightarrow> bool" where
  "valid_range offset len whole = (len > 0 \<and> offset \<le> whole \<and> len \<le> whole - offset)"

definition binding_matches ::
  "broker_binding \<Rightarrow> broker_binding \<Rightarrow> broker_fact_kind \<Rightarrow> broker_read_denial + unit" where
  "binding_matches actual expected source =
    map_err (BindingMismatch source) (check_all
      ([(BindLibrary, library_key actual = library_key expected),
        (BindOwner, owner_uid actual = owner_uid expected),
        (BindProject, project_key actual = project_key expected),
        (BindRun, run_key actual = run_key expected),
        (BindInstance, instance_key actual = instance_key expected),
        (BindChannel, channel_key actual = channel_key expected)]
       @ map (\<lambda>(f, eq). (BindIdentity f, eq))
           (identity_checks (execution_identity actual) (execution_identity expected))))"

definition key_matches ::
  "read_authorization_key \<Rightarrow> read_authorization_key \<Rightarrow> broker_fact_kind \<Rightarrow> broker_read_denial + unit" where
  "key_matches actual expected source =
    and_then (binding_matches (ak_binding actual) (ak_binding expected) source) (\<lambda>_.
      let a = ak_member actual; e = ak_member expected in
      map_err (BindingMismatch source) (check_all
        [(BindAssetRevision, asset_revision_key a = asset_revision_key e),
         (BindRepresentation, representation_key a = representation_key e),
         (BindResource, resource_key a = resource_key e),
         (BindMemberOrdinal, member_ordinal a = member_ordinal e),
         (BindBlobDigest, member_digest a = member_digest e),
         (BindBlobLength, blob_length a = blob_length e)]))"

section \<open>The stages of an assessment\<close>

record broker_facts =
  bf_caller :: broker_binding
  bf_execution :: execution_fact
  bf_input :: run_input_fact
  bf_policy :: read_policy_fact
  bf_trust :: broker_plugin_trust_decision
  bf_runtime :: read_runtime_fact
  bf_lease :: read_lease_fact
  bf_revocation :: read_revocation_fact
  bf_clock :: broker_clock

definition collect_facts :: "broker_read_assessment \<Rightarrow> broker_read_denial + broker_facts" where
  "collect_facts a =
    and_then (broker_checked (ba_caller a) KCaller) (\<lambda>caller.
    and_then (broker_checked (ba_execution a) KExecution) (\<lambda>execution.
    and_then (broker_checked (ba_input a) KInput) (\<lambda>input.
    and_then (broker_checked (ba_policy a) KPolicy) (\<lambda>policy.
    and_then (broker_checked (pf_plugin_trust policy) KPluginTrust) (\<lambda>trust.
    and_then (broker_checked (ba_runtime a) KRuntime) (\<lambda>runtime.
    and_then (broker_checked (ba_lease a) KLease) (\<lambda>lease.
    and_then (broker_checked (ba_revocation a) KRevocation) (\<lambda>revocation.
    and_then (broker_checked (ba_clock a) KClock) (\<lambda>clock.
      Ok \<lparr>bf_caller = caller, bf_execution = execution, bf_input = input, bf_policy = policy,
          bf_trust = trust, bf_runtime = runtime, bf_lease = lease, bf_revocation = revocation,
          bf_clock = clock\<rparr>)))))))))"

definition check_revisions :: "broker_facts \<Rightarrow> broker_read_denial + unit" where
  "check_revisions f =
    map_err BrokerInvalidRevision (check_all
      [(ExecutionRun, ef_run_revision (bf_execution f) \<noteq> 0),
       (InputRun, if_run_revision (bf_input f) \<noteq> 0),
       (PolicyPolicy, pf_policy_revision (bf_policy f) \<noteq> 0),
       (PolicyGrant, pf_grant_revision (bf_policy f) \<noteq> 0),
       (LeaseGrant, lf_grant_revision (bf_lease f) \<noteq> 0),
       (LeasePolicy, lf_policy_revision (bf_lease f) \<noteq> 0),
       (RevocationGrant, vf_grant_revision (bf_revocation f) \<noteq> 0),
       (RevocationPolicy, vf_policy_revision (bf_revocation f) \<noteq> 0)])"

definition fact_intervals :: "broker_facts \<Rightarrow> (broker_fact_kind \<times> review_validity) list" where
  "fact_intervals f =
    [(KExecution, ef_validity (bf_execution f)), (KPolicy, pf_validity (bf_policy f)),
     (KRuntime, rf_validity (bf_runtime f)), (KLease, lf_validity (bf_lease f)),
     (KRevocation, vf_validity (bf_revocation f))]"

definition check_intervals :: "broker_facts \<Rightarrow> broker_read_denial + unit" where
  "check_intervals f =
    check_all (map (\<lambda>(kind, v). (InvalidValidity kind, valid_interval v)) (fact_intervals f))"

definition check_ranges :: "broker_read_request \<Rightarrow> broker_facts \<Rightarrow> broker_read_denial + unit" where
  "check_ranges request f =
    (let lease = bf_lease f; target = request_target request in
     check_all
      [(InvalidLeaseRange, valid_range (lf_allowed_offset lease) (lf_allowed_length lease)
          (blob_length (ak_member (lf_authorization_key lease)))),
       (ReadLimitExceeded, target_length target \<le> READ_BYTES_PER_REQUEST_MAX),
       (InvalidRequestRange, valid_range (target_offset target) (target_length target)
          (blob_length (target_member target)))])"

definition expected_key :: "broker_read_request \<Rightarrow> broker_facts \<Rightarrow> read_authorization_key" where
  "expected_key request f =
    \<lparr>ak_binding = bf_caller f, ak_member = target_member (request_target request)\<rparr>"

definition check_bindings :: "broker_read_request \<Rightarrow> broker_facts \<Rightarrow> broker_read_denial + unit" where
  "check_bindings request f =
    (let key = expected_key request f; caller = bf_caller f; policy = bf_policy f;
         lease = bf_lease f; revocation = bf_revocation f in
     and_then (binding_matches (ef_binding (bf_execution f)) caller KExecution) (\<lambda>_.
     and_then (key_matches (if_authorization_key (bf_input f)) key KInput) (\<lambda>_.
     and_then (key_matches (pf_authorization_key policy) key KPolicy) (\<lambda>_.
     and_then (binding_matches (rf_binding (bf_runtime f)) caller KRuntime) (\<lambda>_.
     and_then (key_matches (lf_authorization_key lease) key KLease) (\<lambda>_.
     and_then (key_matches (vf_authorization_key revocation) key KRevocation) (\<lambda>_.
     check_all
      [(RunRevisionMismatch, if_run_revision (bf_input f) = ef_run_revision (bf_execution f)),
       (LeaseRecordMismatch, request_lease_record_key request = lf_lease_record_key lease),
       (GrantKeyMismatch KLease, lf_grant_key lease = pf_grant_key policy),
       (GrantKeyMismatch KRevocation, vf_grant_key revocation = pf_grant_key policy),
       (GrantRevisionMismatch KLease, lf_grant_revision lease = pf_grant_revision policy),
       (GrantRevisionMismatch KRevocation, vf_grant_revision revocation = pf_grant_revision policy),
       (PolicyRevisionMismatch KLease, lf_policy_revision lease = pf_policy_revision policy),
       (PolicyRevisionMismatch KRevocation,
          vf_policy_revision revocation = pf_policy_revision policy)])))))))"

definition check_times :: "broker_facts \<Rightarrow> broker_read_denial + unit" where
  "check_times f =
    (let clock = bf_clock f; now = bc_now_ms clock in
     check_all
      ([(BrokerClockRollback, bc_last_observed_ms clock \<le> now)]
       @ concat (map (\<lambda>(kind, v). [(NotYetValid kind, start_ms v \<le> now), (Expired kind, now < end_ms v)])
           (fact_intervals f))
       @ [(RevocationRollback, bc_minimum_revocation_epoch clock \<le> vf_epoch (bf_revocation f)),
          (LeaseEpochMismatch, lf_revocation_epoch (bf_lease f) = vf_epoch (bf_revocation f))]))"

definition check_states :: "broker_facts \<Rightarrow> broker_read_denial + unit" where
  "check_states f =
    check_all
      [(RunNotActive, ef_run_state (bf_execution f) = RunActive),
       (NotRunInput, if_membership (bf_input f) = Present),
       (LeaseNotActive, lf_state (bf_lease f) = LeaseActive),
       (RevocationDenied, vf_state (bf_revocation f) = RevocationClear)]"

definition read_requested :: "inspected_plugin_package \<Rightarrow> bool" where
  "read_requested package =
    (length (requested_permissions package) = 1
     \<and> permission_kind (hd (requested_permissions package)) = ''broker.asset.read@1''
     \<and> permission_scope (hd (requested_permissions package)) = ''run-inputs'')"

definition check_package :: "inspected_plugin_package \<Rightarrow> broker_facts \<Rightarrow> broker_read_denial + unit" where
  "check_package package f =
    check_all
      [(ManifestMismatch, package_digest package = manifest_digest (execution_identity (bf_caller f))),
       (ReadNotRequested, read_requested package)]"

definition check_review ::
  "review_assessment \<Rightarrow> broker_facts \<Rightarrow> broker_read_denial + review_eligibility_candidate" where
  "check_review review f =
    (if (case ra_clock review of Checked k \<Rightarrow> rc_now_ms k \<noteq> bc_now_ms (bf_clock f) | _ \<Rightarrow> False)
     then Err ReviewClockMismatch
     else and_then (map_err ReviewRejected (evaluate_review_eligibility review)) (\<lambda>r.
       if cand_identity r \<noteq> execution_identity (bf_caller f) then Err ReviewIdentityMismatch
       else Ok r))"

definition check_policy :: "broker_facts \<Rightarrow> broker_read_denial + unit" where
  "check_policy f =
    (let policy = bf_policy f in
     check_all
      [(RuntimeNotQualified, rf_disposition (bf_runtime f) = QualifiedReviewed),
       (PluginTrustDenied (bf_trust f), bf_trust f = AllowReviewed),
       (PolicyDenied FactorPackage (pf_package_policy policy), pf_package_policy policy = Permit),
       (PolicyDenied FactorInstalledGrant (pf_installed_grant policy), pf_installed_grant policy = Permit),
       (PolicyDenied FactorProject (pf_project_policy policy), pf_project_policy policy = Permit),
       (PolicyDenied FactorOwner (pf_owner_policy policy), pf_owner_policy policy = Permit),
       (PolicyDenied FactorData (pf_data_policy policy), pf_data_policy policy = Permit)])"

definition check_budget :: "broker_read_request \<Rightarrow> broker_facts \<Rightarrow> broker_read_denial + unit" where
  "check_budget request f =
    (let lease = bf_lease f; target = request_target request;
         delta = target_offset target - lf_allowed_offset lease in
     check_all
      [(LeaseRangeDenied, lf_allowed_offset lease \<le> target_offset target),
       (LeaseRangeDenied, delta \<le> lf_allowed_length lease
          \<and> target_length target \<le> lf_allowed_length lease - delta),
       (OperationBudgetExhausted, lf_remaining_operations lease \<noteq> 0),
       (ByteBudgetExhausted, target_length target \<le> lf_remaining_bytes lease)])"

definition broker_candidate ::
  "broker_read_request \<Rightarrow> broker_facts \<Rightarrow> review_eligibility_candidate \<Rightarrow> broker_read_candidate" where
  "broker_candidate request f review =
    \<lparr>bk_request = request, bk_authorization_key = expected_key request f,
     bk_run_revision = ef_run_revision (bf_execution f),
     bk_policy_revision = pf_policy_revision (bf_policy f),
     bk_grant_revision = pf_grant_revision (bf_policy f),
     bk_grant_key = pf_grant_key (bf_policy f),
     bk_revocation_epoch = vf_epoch (bf_revocation f),
     bk_runtime_qualification_digest = rf_qualification_digest (bf_runtime f),
     bk_review = review, bk_plugin_trust_decision = bf_trust f,
     bk_evaluated_at = bc_now_ms (bf_clock f),
     bk_valid_until = foldl (\<lambda>until (_, v). min until (end_ms v)) (cand_valid_until_ms review)
        (fact_intervals f)\<rparr>"

definition assess :: "broker_read_assessment \<Rightarrow> broker_read_denial + broker_read_candidate" where
  "assess a =
    and_then (collect_facts a) (\<lambda>f.
    and_then (check_revisions f) (\<lambda>_.
    and_then (check_intervals f) (\<lambda>_.
    and_then (check_ranges (ba_request a) f) (\<lambda>_.
    and_then (check_bindings (ba_request a) f) (\<lambda>_.
    and_then (check_times f) (\<lambda>_.
    and_then (check_states f) (\<lambda>_.
    and_then (check_package (ba_package a) f) (\<lambda>_.
    and_then (check_review (ba_review a) f) (\<lambda>review.
    and_then (check_policy f) (\<lambda>_.
    and_then (check_budget (ba_request a) f) (\<lambda>_.
      Ok (broker_candidate (ba_request a) f review))))))))))))"

definition filter_option :: "('a \<Rightarrow> bool) \<Rightarrow> 'a option \<Rightarrow> 'a option" where
  "filter_option P m = (case m of Some x \<Rightarrow> if P x then Some x else None | None \<Rightarrow> None)"

definition evaluate_broker_read :: "broker_read_assessment \<Rightarrow> broker_read_evaluation" where
  "evaluate_broker_read a =
    (let result = assess a;
         policy = filter_option (\<lambda>p. pf_policy_revision p > 0 \<and> pf_grant_revision p > 0
           \<and> valid_interval (pf_validity p)) (supplied (ba_policy a));
         execution = filter_option (\<lambda>e. ef_run_revision e > 0 \<and> valid_interval (ef_validity e))
           (supplied (ba_execution a));
         runtime = filter_option (\<lambda>r. valid_interval (rf_validity r)) (supplied (ba_runtime a));
         approval = filter_option (\<lambda>r. valid_interval (appr_validity r))
           (supplied (ra_approval (ba_review a)));
         snapshot = filter_option (\<lambda>r. valid_interval (snap_validity r))
           (supplied (ra_revocation (ba_review a)))
     in \<lparr>ev_decision = (case result of Inr v \<Rightarrow> Eligible v | Inl e \<Rightarrow> Denied e),
         ev_audit = \<lparr>au_requested = ba_request a,
           au_decision = (case result of Inr _ \<Rightarrow> AuditEligible | Inl e \<Rightarrow> AuditDenied e),
           au_caller = supplied (ba_caller a),
           au_evaluated_at = map_option bc_now_ms
             (filter_option (\<lambda>c. bc_now_ms c \<ge> bc_last_observed_ms c) (supplied (ba_clock a))),
           au_run_revision = map_option ef_run_revision execution,
           au_policy_revision = map_option pf_policy_revision policy,
           au_grant_revision = map_option pf_grant_revision policy,
           au_runtime_qualification_digest = map_option rf_qualification_digest runtime,
           au_review_approval = map_option appr_record_digest approval,
           au_review_evidence = map_option appr_evidence_digest approval,
           au_review_policy = map_option appr_policy_version approval,
           au_review_snapshot_epoch = map_option snap_epoch snapshot,
           au_plugin_trust = map_option pf_plugin_trust policy\<rparr>\<rparr>)"

section \<open>What an eligible read guarantees\<close>

definition same_facts :: "broker_read_request \<Rightarrow> broker_facts \<Rightarrow> bool" where
  "same_facts q f =
    (let key = expected_key q f; policy = bf_policy f; lease = bf_lease f; rev = bf_revocation f in
     ef_binding (bf_execution f) = bf_caller f \<and> rf_binding (bf_runtime f) = bf_caller f
     \<and> if_authorization_key (bf_input f) = key \<and> pf_authorization_key policy = key
     \<and> lf_authorization_key lease = key \<and> vf_authorization_key rev = key
     \<and> if_run_revision (bf_input f) = ef_run_revision (bf_execution f)
     \<and> request_lease_record_key q = lf_lease_record_key lease
     \<and> lf_grant_key lease = pf_grant_key policy \<and> vf_grant_key rev = pf_grant_key policy
     \<and> lf_grant_revision lease = pf_grant_revision policy
     \<and> vf_grant_revision rev = pf_grant_revision policy
     \<and> lf_policy_revision lease = pf_policy_revision policy
     \<and> vf_policy_revision rev = pf_policy_revision policy
     \<and> lf_revocation_epoch lease = vf_epoch rev
     \<and> ef_run_revision (bf_execution f) \<noteq> 0 \<and> pf_policy_revision policy \<noteq> 0
     \<and> pf_grant_revision policy \<noteq> 0)"

definition in_budget :: "broker_read_request \<Rightarrow> broker_facts \<Rightarrow> bool" where
  "in_budget q f =
    (let off = unat (target_offset (request_target q)); len = unat (target_length (request_target q));
         size = unat (blob_length (target_member (request_target q))); lease = bf_lease f;
         lo = unat (lf_allowed_offset lease); hi = lo + unat (lf_allowed_length lease) in
     0 < len \<and> len \<le> 1048576 \<and> lo \<le> off \<and> off + len \<le> hi \<and> hi \<le> size
     \<and> lf_remaining_operations lease \<noteq> 0 \<and> len \<le> unat (lf_remaining_bytes lease))"

definition timely :: "broker_facts \<Rightarrow> bool" where
  "timely f =
    (list_all (\<lambda>(_, v). within v (bc_now_ms (bf_clock f))) (fact_intervals f)
     \<and> bc_last_observed_ms (bf_clock f) \<le> bc_now_ms (bf_clock f)
     \<and> bc_minimum_revocation_epoch (bf_clock f) \<le> vf_epoch (bf_revocation f))"

definition all_permit :: "broker_facts \<Rightarrow> bool" where
  "all_permit f =
    (ef_run_state (bf_execution f) = RunActive \<and> if_membership (bf_input f) = Present
     \<and> lf_state (bf_lease f) = LeaseActive \<and> vf_state (bf_revocation f) = RevocationClear
     \<and> rf_disposition (bf_runtime f) = QualifiedReviewed \<and> bf_trust f = AllowReviewed
     \<and> (\<forall>policy \<in> {pf_package_policy, pf_installed_grant, pf_project_policy, pf_owner_policy,
          pf_data_policy}. policy (bf_policy f) = Permit))"

definition reviewed ::
  "broker_read_assessment \<Rightarrow> broker_facts \<Rightarrow> review_eligibility_candidate \<Rightarrow> bool" where
  "reviewed a f r =
    (evaluate_review_eligibility (ba_review a) = Ok r
     \<and> cand_identity r = execution_identity (bf_caller f)
     \<and> cand_evaluated_at_ms r = bc_now_ms (bf_clock f)
     \<and> package_digest (ba_package a) = manifest_digest (execution_identity (bf_caller f))
     \<and> read_requested (ba_package a))"

definition read_permitted ::
  "broker_read_assessment \<Rightarrow> broker_facts \<Rightarrow> review_eligibility_candidate \<Rightarrow> bool" where
  "read_permitted a f r =
    (collect_facts a = Ok f \<and> same_facts (ba_request a) f \<and> in_budget (ba_request a) f
     \<and> timely f \<and> all_permit f \<and> reviewed a f r)"

lemma valid_range_iff:
  "valid_range offset len whole \<longleftrightarrow> 0 < unat len \<and> unat offset + unat len \<le> unat whole"
proof (cases "offset \<le> whole")
  case True
  then have "unat (whole - offset) = unat whole - unat offset" by (rule unat_sub)
  with True show ?thesis
    by (auto simp add: valid_range_def word_le_nat_alt word_less_nat_alt)
qed (auto simp add: valid_range_def word_le_nat_alt)

lemma binding_matches_iff [simp]: "binding_matches a e k = Ok u \<longleftrightarrow> a = e"
proof -
  have "list_all snd (map (\<lambda>(f, eq). (BindIdentity f, eq)) cs) = list_all snd cs"
    for cs :: "(review_identity_field \<times> bool) list"
    by (induction cs) auto
  then show ?thesis
    by (auto simp add: binding_matches_def identity_checks_iff)
qed

lemma key_matches_iff [simp]: "key_matches a e k = Ok u \<longleftrightarrow> a = e"
  by (cases a; cases e) (auto simp add: key_matches_def and_then_ok_iff)

lemma check_bindings_iff:
  "check_revisions f = Ok u \<and> check_bindings q f = Ok w \<and> lf_revocation_epoch (bf_lease f) = vf_epoch (bf_revocation f)
    \<longleftrightarrow> same_facts q f"
  by (auto simp add: check_revisions_def check_bindings_def same_facts_def Let_def and_then_ok_iff)

lemma check_times_iff:
  "check_times f = Ok u \<longleftrightarrow> timely f \<and> lf_revocation_epoch (bf_lease f) = vf_epoch (bf_revocation f)"
  by (auto simp add: check_times_def timely_def fact_intervals_def within_def Let_def)

lemma timely_intervals: "timely f \<Longrightarrow> check_intervals f = Ok ()"
  by (auto simp add: timely_def check_intervals_def fact_intervals_def valid_interval_def
      dest: within_valid)

lemma sub_range_iff:
  fixes lo off len n :: u64
  assumes "lo \<le> off"
  shows "off - lo \<le> len \<and> n \<le> len - (off - lo) \<longleftrightarrow> unat off + unat n \<le> unat lo + unat len"
proof -
  have d: "unat (off - lo) = unat off - unat lo" using assms by (rule unat_sub)
  have "unat (len - (off - lo)) = unat len - (unat off - unat lo)" if "off - lo \<le> len"
    using unat_sub [OF that] d by simp
  with assms d show ?thesis by (auto simp add: word_le_nat_alt)
qed

lemma budget_iff:
  assumes "lf_authorization_key (bf_lease f) = expected_key q f"
  shows "check_ranges q f = Ok u \<and> check_budget q f = Ok w \<longleftrightarrow> in_budget q f"
proof (cases "lf_allowed_offset (bf_lease f) \<le> target_offset (request_target q)")
  case True
  have "check_ranges q f = Ok u \<longleftrightarrow>
      0 < unat (lf_allowed_length (bf_lease f))
      \<and> unat (lf_allowed_offset (bf_lease f)) + unat (lf_allowed_length (bf_lease f))
        \<le> unat (blob_length (target_member (request_target q)))
      \<and> unat (target_length (request_target q)) \<le> 1048576
      \<and> 0 < unat (target_length (request_target q))
      \<and> unat (target_offset (request_target q)) + unat (target_length (request_target q))
        \<le> unat (blob_length (target_member (request_target q)))"
    using assms
    by (simp add: check_ranges_def Let_def valid_range_iff expected_key_def
        READ_BYTES_PER_REQUEST_MAX_def word_le_nat_alt)
  moreover have "check_budget q f = Ok w \<longleftrightarrow>
      unat (target_offset (request_target q)) + unat (target_length (request_target q))
        \<le> unat (lf_allowed_offset (bf_lease f)) + unat (lf_allowed_length (bf_lease f))
      \<and> lf_remaining_operations (bf_lease f) \<noteq> 0
      \<and> unat (target_length (request_target q)) \<le> unat (lf_remaining_bytes (bf_lease f))"
    using True sub_range_iff [OF True]
    by (simp add: check_budget_def Let_def) (simp add: word_le_nat_alt)
  moreover have "unat (lf_allowed_offset (bf_lease f)) \<le> unat (target_offset (request_target q))"
    using True by (simp add: word_le_nat_alt)
  ultimately show ?thesis
    unfolding in_budget_def Let_def by linarith
next
  case False
  then show ?thesis
    by (auto simp add: check_budget_def in_budget_def Let_def word_le_nat_alt)
qed

lemma check_review_iff:
  "check_review rv f = Ok r \<longleftrightarrow>
    evaluate_review_eligibility rv = Ok r \<and> cand_identity r = execution_identity (bf_caller f)
    \<and> cand_evaluated_at_ms r = bc_now_ms (bf_clock f)"
proof -
  have "\<exists>k. ra_clock rv = Checked k \<and> cand_evaluated_at_ms r = rc_now_ms k"
    if "evaluate_review_eligibility rv = Ok r"
    using that by (auto simp add: evaluate_review_ok_iff review_candidate_def)
  then show ?thesis
    by (auto simp add: check_review_def and_then_ok_iff split: review_fact.splits)
qed

lemma states_policy_iff: "check_states f = Ok u \<and> check_policy f = Ok w \<longleftrightarrow> all_permit f"
  by (auto simp add: check_states_def check_policy_def all_permit_def Let_def)

lemma check_package_iff:
  "check_package p f = Ok u \<longleftrightarrow>
    package_digest p = manifest_digest (execution_identity (bf_caller f)) \<and> read_requested p"
  by (simp add: check_package_def)

lemma assess_ok_iff:
  "assess a = Ok c \<longleftrightarrow>
    (\<exists>f r. read_permitted a f r \<and> c = broker_candidate (ba_request a) f r)"
proof -
  have key: "lf_authorization_key (bf_lease f) = expected_key q f" if "same_facts q f" for f q
    using that by (simp add: same_facts_def Let_def)
  have "assess a = Ok c \<longleftrightarrow> (\<exists>f r. collect_facts a = Ok f
      \<and> (check_revisions f = Ok () \<and> check_bindings (ba_request a) f = Ok ()
         \<and> lf_revocation_epoch (bf_lease f) = vf_epoch (bf_revocation f))
      \<and> (check_intervals f = Ok () \<and> timely f)
      \<and> (check_ranges (ba_request a) f = Ok () \<and> check_budget (ba_request a) f = Ok ())
      \<and> (check_states f = Ok () \<and> check_policy f = Ok ())
      \<and> check_package (ba_package a) f = Ok () \<and> check_review (ba_review a) f = Ok r
      \<and> c = broker_candidate (ba_request a) f r)"
    by (auto simp add: assess_def and_then_unit_ok_iff and_then_ok_iff check_times_iff)
  also have "\<dots> \<longleftrightarrow> (\<exists>f r. read_permitted a f r \<and> c = broker_candidate (ba_request a) f r)"
  proof (rule ex_cong1, rule ex_cong1)
    fix f r
    show "(collect_facts a = Ok f
      \<and> (check_revisions f = Ok () \<and> check_bindings (ba_request a) f = Ok ()
         \<and> lf_revocation_epoch (bf_lease f) = vf_epoch (bf_revocation f))
      \<and> (check_intervals f = Ok () \<and> timely f)
      \<and> (check_ranges (ba_request a) f = Ok () \<and> check_budget (ba_request a) f = Ok ())
      \<and> (check_states f = Ok () \<and> check_policy f = Ok ())
      \<and> check_package (ba_package a) f = Ok () \<and> check_review (ba_review a) f = Ok r
      \<and> c = broker_candidate (ba_request a) f r)
      = (read_permitted a f r \<and> c = broker_candidate (ba_request a) f r)"
      unfolding check_bindings_iff states_policy_iff check_package_iff check_review_iff
        read_permitted_def reviewed_def
      using budget_iff [OF key, of "ba_request a" f "()" "()"] timely_intervals [of f] by blast
  qed
  finally show ?thesis .
qed

lemma until_less_iff:
  "t < foldl (\<lambda>until (_, v). min until (end_ms v)) u vs \<longleftrightarrow> t < u \<and> list_all (\<lambda>(_, v). t < end_ms v) vs"
proof (induction vs arbitrary: u)
  case (Cons v vs)
  then show ?case by (cases v) (simp add: min_less_iff_conj conj_assoc)
qed simp

text \<open>C11. A broker read is eligible exactly when it is permitted: all facts are checked and
  agree on the caller, the member, the run, the grant, the policy and the revocation epoch;
  the requested bytes are a non-empty part of at most 1 MiB of the leased range, which lies
  inside the blob (no address wraps around), and the lease has operations and bytes left;
  the clock is inside every validity interval and not rolled back; the run, lease, input,
  revocation, runtime, trust and all five policies permit the read; the package requested
  it and its review is eligible at the same instant for the same execution identity.\<close>

theorem broker_read_eligible_iff:
  "ev_decision (evaluate_broker_read a) = Eligible c \<longleftrightarrow>
    (\<exists>f r. read_permitted a f r \<and> c = broker_candidate (ba_request a) f r)"
  unfolding assess_ok_iff [symmetric]
  by (auto simp add: evaluate_broker_read_def Let_def split: sum.splits)

definition at_time :: "broker_read_assessment \<Rightarrow> broker_clock \<Rightarrow> review_clock \<Rightarrow> u64 \<Rightarrow> broker_read_assessment" where
  "at_time a k rk t =
    a\<lparr>ba_clock := Checked (k\<lparr>bc_now_ms := t\<rparr>),
      ba_review := (ba_review a)\<lparr>ra_clock := Checked (rk\<lparr>rc_now_ms := t\<rparr>)\<rparr>\<rparr>"

lemma collect_at_time:
  assumes "ba_clock a = Checked k"
  shows "collect_facts (at_time a k rk t) = Ok g \<longleftrightarrow>
    (\<exists>f. collect_facts a = Ok f \<and> bf_clock f = k \<and> g = f\<lparr>bf_clock := k\<lparr>bc_now_ms := t\<rparr>\<rparr>)"
  using assms
  by (auto simp add: collect_facts_def at_time_def and_then_ok_iff)
    (metis broker_facts.update_convs(9) broker_facts.select_convs(9))

lemma review_later:
  assumes "evaluate_review_eligibility rv = Ok r" "ra_clock rv = Checked rk" "rc_now_ms rk \<le> t"
  shows "evaluate_review_eligibility (rv\<lparr>ra_clock := Checked (rk\<lparr>rc_now_ms := t\<rparr>)\<rparr>) = Ok r' \<longleftrightarrow>
    t < cand_valid_until_ms r \<and> r' = r\<lparr>cand_evaluated_at_ms := t\<rparr>"
  using assms
  by (auto simp add: evaluate_review_ok_iff review_candidate_def review_current_def within_def)

lemma timely_later:
  assumes "timely f" "bc_now_ms (bf_clock f) \<le> t"
  shows "timely (f\<lparr>bf_clock := (bf_clock f)\<lparr>bc_now_ms := t\<rparr>\<rparr>) \<longleftrightarrow>
    list_all (\<lambda>(_, v). t < end_ms v) (fact_intervals f)"
  using assms by (auto simp add: timely_def fact_intervals_def within_def)

lemma clock_irrelevant:
  "same_facts q (f\<lparr>bf_clock := k\<rparr>) = same_facts q f"
  "in_budget q (f\<lparr>bf_clock := k\<rparr>) = in_budget q f"
  "all_permit (f\<lparr>bf_clock := k\<rparr>) = all_permit f"
  by (simp_all add: same_facts_def in_budget_def all_permit_def expected_key_def)

lemma assess_at_time:
  assumes "read_permitted a f r" "ba_clock a = Checked k" "ra_clock (ba_review a) = Checked rk"
    and "bc_now_ms k \<le> t"
  shows "is_ok (assess (at_time a k rk t)) \<longleftrightarrow>
    t < cand_valid_until_ms r \<and> list_all (\<lambda>(_, v). t < end_ms v) (fact_intervals f)"
proof -
  let ?a = "at_time a k rk t" and ?g = "f\<lparr>bf_clock := k\<lparr>bc_now_ms := t\<rparr>\<rparr>"
  from assms(1) have f: "collect_facts a = Ok f" and r: "evaluate_review_eligibility (ba_review a) = Ok r"
    and now: "cand_evaluated_at_ms r = bc_now_ms (bf_clock f)"
    by (simp_all add: read_permitted_def reviewed_def)
  from f assms(2) have k: "bf_clock f = k"
    by (auto simp add: collect_facts_def and_then_ok_iff)
  from r assms(3) now k have "rc_now_ms rk = bc_now_ms k"
    by (auto simp add: evaluate_review_ok_iff review_candidate_def)
  then have later: "evaluate_review_eligibility (ba_review ?a) = Ok r' \<longleftrightarrow>
      t < cand_valid_until_ms r \<and> r' = r\<lparr>cand_evaluated_at_ms := t\<rparr>" for r'
    using review_later [OF r assms(3)] assms(4) by (simp add: at_time_def)
  have collect: "collect_facts ?a = Ok g \<longleftrightarrow> g = ?g" for g
    using collect_at_time [OF assms(2)] f k by auto
  have same: "ba_request ?a = ba_request a" "ba_package ?a = ba_package a"
    by (simp_all add: at_time_def)
  have "is_ok (assess ?a) \<longleftrightarrow> (\<exists>g r'. read_permitted ?a g r')"
    by (auto simp add: is_ok_iff assess_ok_iff)
  also have "\<dots> \<longleftrightarrow> timely ?g \<and> t < cand_valid_until_ms r"
    using assms(1) by (auto simp add: read_permitted_def reviewed_def collect later same clock_irrelevant)
  also have "timely ?g \<longleftrightarrow> list_all (\<lambda>(_, v). t < end_ms v) (fact_intervals f)"
    using timely_later [of f t] assms(1,4) k by (simp add: read_permitted_def)
  finally show ?thesis by blast
qed

text \<open>C22. An eligible read is a bounded lease: it ends strictly after its evaluation, and
  re-evaluating the same facts with both clocks at any later instant succeeds exactly
  before the end of validity the candidate carries.\<close>

theorem broker_read_lease:
  assumes "assess a = Ok c" "ba_clock a = Checked k" "ra_clock (ba_review a) = Checked rk"
    and "bk_evaluated_at c \<le> t"
  shows "bk_evaluated_at c < bk_valid_until c
    \<and> (is_ok (assess (at_time a k rk t)) \<longleftrightarrow> t < bk_valid_until c)"
proof -
  from assms(1) obtain f r where p: "read_permitted a f r"
    and c: "c = broker_candidate (ba_request a) f r"
    by (auto simp add: assess_ok_iff)
  from p assms(2) have k: "bf_clock f = k"
    by (auto simp add: read_permitted_def collect_facts_def and_then_ok_iff)
  have until: "u < bk_valid_until c \<longleftrightarrow>
      u < cand_valid_until_ms r \<and> list_all (\<lambda>(_, v). u < end_ms v) (fact_intervals f)" for u
    unfolding c broker_candidate_def by (simp add: until_less_iff)
  have at: "bk_evaluated_at c = bc_now_ms k" by (simp add: c broker_candidate_def k)
  from p have "timely f" "reviewed a f r" by (simp_all add: read_permitted_def)
  then have "bk_evaluated_at c < bk_valid_until c"
    unfolding until at
    by (auto simp add: timely_def reviewed_def k fact_intervals_def within_def evaluate_review_ok_iff
        review_candidate_def review_current_def)
  with assess_at_time [OF p assms(2,3)] assms(4) show ?thesis
    unfolding until at by blast
qed

text \<open>C32. Every evaluation is audited consistently: the audit names the request and the very
  decision taken, with the denial when there is one, and never asserts a zero revision or
  the instant of a clock that ran backwards.\<close>

theorem broker_audit_consistent:
  "au_requested (ev_audit (evaluate_broker_read a)) = ba_request a
   \<and> au_decision (ev_audit (evaluate_broker_read a)) =
       (case ev_decision (evaluate_broker_read a) of
          Eligible _ \<Rightarrow> AuditEligible | Denied e \<Rightarrow> AuditDenied e)
   \<and> 0 \<notin> set_option (au_run_revision (ev_audit (evaluate_broker_read a)))
   \<and> 0 \<notin> set_option (au_policy_revision (ev_audit (evaluate_broker_read a)))
   \<and> 0 \<notin> set_option (au_grant_revision (ev_audit (evaluate_broker_read a)))
   \<and> au_evaluated_at (ev_audit (evaluate_broker_read a)) =
       (case ba_clock a of
          Checked k \<Rightarrow> if bc_last_observed_ms k \<le> bc_now_ms k then Some (bc_now_ms k) else None
        | _ \<Rightarrow> None)"
  by (auto simp add: evaluate_broker_read_def Let_def filter_option_def
      split: sum.splits option.splits review_fact.splits if_splits)

section \<open>A concrete eligible read\<close>

definition sample_binding :: broker_binding where
  "sample_binding = \<lparr>library_key = [1], owner_uid = 501, project_key = [2], run_key = [3],
    instance_key = [4], channel_key = [5], execution_identity = sample_identity\<rparr>"

definition sample_target :: read_target where
  "sample_target = \<lparr>target_member = \<lparr>asset_revision_key = [6], representation_key = [7],
      resource_key = [8], member_ordinal = 0, member_digest = [9], blob_length = 1000\<rparr>,
    target_offset = 100, target_length = 50\<rparr>"

definition sample_key :: read_authorization_key where
  "sample_key = \<lparr>ak_binding = sample_binding, ak_member = target_member sample_target\<rparr>"

definition sample_interval :: review_validity where
  "sample_interval = \<lparr>start_ms = 100, end_ms = 140\<rparr>"

definition sample_assessment :: broker_read_assessment where
  "sample_assessment =
    \<lparr>ba_request = \<lparr>request_key = [10], correlation_key = [11], request_lease_record_key = [12],
       request_target = sample_target\<rparr>,
     ba_caller = Checked sample_binding,
     ba_execution = Checked \<lparr>ef_binding = sample_binding, ef_run_state = RunActive,
       ef_run_revision = 1, ef_validity = sample_interval\<rparr>,
     ba_input = Checked \<lparr>if_authorization_key = sample_key, if_run_revision = 1, if_membership = Present\<rparr>,
     ba_package = \<lparr>publisher = ''q'', plugin_id = ''p'', plugin_version = ''1.0.0'', capabilities = [],
       requested_permissions = [\<lparr>permission_kind = ''broker.asset.read@1'', permission_scope = ''run-inputs''\<rparr>],
       runtime_dependencies = [], canonical_bytes = [], package_digest = [1]\<rparr>,
     ba_review = sample_review 120,
     ba_policy = Checked \<lparr>pf_authorization_key = sample_key, pf_policy_revision = 2, pf_grant_key = [13],
       pf_grant_revision = 3, pf_validity = sample_interval, pf_plugin_trust = Checked AllowReviewed,
       pf_package_policy = Permit, pf_installed_grant = Permit, pf_project_policy = Permit,
       pf_owner_policy = Permit, pf_data_policy = Permit\<rparr>,
     ba_runtime = Checked \<lparr>rf_binding = sample_binding, rf_qualification_digest = [14],
       rf_validity = sample_interval, rf_disposition = QualifiedReviewed\<rparr>,
     ba_lease = Checked \<lparr>lf_lease_record_key = [12], lf_authorization_key = sample_key,
       lf_grant_key = [13], lf_grant_revision = 3, lf_policy_revision = 2, lf_revocation_epoch = 4,
       lf_validity = sample_interval, lf_state = LeaseActive, lf_allowed_offset = 80,
       lf_allowed_length = 100, lf_remaining_operations = 1, lf_remaining_bytes = 50\<rparr>,
     ba_revocation = Checked \<lparr>vf_authorization_key = sample_key, vf_grant_key = [13],
       vf_grant_revision = 3, vf_policy_revision = 2, vf_epoch = 4, vf_validity = sample_interval,
       vf_state = RevocationClear\<rparr>,
     ba_clock = Checked \<lparr>bc_now_ms = 120, bc_last_observed_ms = 110, bc_minimum_revocation_epoch = 4\<rparr>\<rparr>"

lemma sample_assessment_eligible:
  obtains c where "assess sample_assessment = Ok c" "bk_evaluated_at c = 120" "bk_valid_until c = 140"
proof
  let ?f = "\<lparr>bf_caller = sample_binding,
    bf_execution = \<lparr>ef_binding = sample_binding, ef_run_state = RunActive,
       ef_run_revision = 1, ef_validity = sample_interval\<rparr>,
    bf_input = \<lparr>if_authorization_key = sample_key, if_run_revision = 1, if_membership = Present\<rparr>,
    bf_policy = \<lparr>pf_authorization_key = sample_key, pf_policy_revision = 2, pf_grant_key = [13],
       pf_grant_revision = 3, pf_validity = sample_interval, pf_plugin_trust = Checked AllowReviewed,
       pf_package_policy = Permit, pf_installed_grant = Permit, pf_project_policy = Permit,
       pf_owner_policy = Permit, pf_data_policy = Permit\<rparr>,
    bf_trust = AllowReviewed,
    bf_runtime = \<lparr>rf_binding = sample_binding, rf_qualification_digest = [14],
       rf_validity = sample_interval, rf_disposition = QualifiedReviewed\<rparr>,
    bf_lease = \<lparr>lf_lease_record_key = [12], lf_authorization_key = sample_key,
       lf_grant_key = [13], lf_grant_revision = 3, lf_policy_revision = 2, lf_revocation_epoch = 4,
       lf_validity = sample_interval, lf_state = LeaseActive, lf_allowed_offset = 80,
       lf_allowed_length = 100, lf_remaining_operations = 1, lf_remaining_bytes = 50\<rparr>,
    bf_revocation = \<lparr>vf_authorization_key = sample_key, vf_grant_key = [13],
       vf_grant_revision = 3, vf_policy_revision = 2, vf_epoch = 4, vf_validity = sample_interval,
       vf_state = RevocationClear\<rparr>,
    bf_clock = \<lparr>bc_now_ms = 120, bc_last_observed_ms = 110, bc_minimum_revocation_epoch = 4\<rparr>\<rparr>"
  let ?q = "ba_request sample_assessment"
  have "read_permitted sample_assessment ?f sample_review_candidate"
    unfolding read_permitted_def
  proof (intro conjI)
    show "collect_facts sample_assessment = Ok ?f"
      by (simp add: collect_facts_def sample_assessment_def)
    show "same_facts ?q ?f"
      by (simp add: same_facts_def sample_assessment_def sample_key_def expected_key_def)
    show "in_budget ?q ?f"
      by (simp add: in_budget_def sample_assessment_def sample_target_def)
    show "timely ?f" by (simp add: timely_def fact_intervals_def within_def sample_interval_def)
    show "all_permit ?f" by (simp add: all_permit_def)
    show "reviewed sample_assessment ?f sample_review_candidate"
      using sample_review_eligible
      by (simp add: reviewed_def read_requested_def sample_assessment_def sample_binding_def
          sample_review_candidate_def sample_identity_def)
  qed
  then show "assess sample_assessment = Ok (broker_candidate ?q ?f sample_review_candidate)"
    by (auto simp add: assess_ok_iff)
  show "bk_evaluated_at (broker_candidate ?q ?f sample_review_candidate) = 120"
    "bk_valid_until (broker_candidate ?q ?f sample_review_candidate) = 140"
    by (simp_all add: broker_candidate_def fact_intervals_def sample_interval_def
        sample_review_candidate_def min_def)
qed

theorem broker_read_lease_witness:
  "is_ok (assess (at_time sample_assessment
      \<lparr>bc_now_ms = 120, bc_last_observed_ms = 110, bc_minimum_revocation_epoch = 4\<rparr>
      \<lparr>rc_now_ms = 120, rc_last_observed_ms = 90, rc_minimum_snapshot_epoch = 2\<rparr> 139))
   \<and> \<not> is_ok (assess (at_time sample_assessment
      \<lparr>bc_now_ms = 120, bc_last_observed_ms = 110, bc_minimum_revocation_epoch = 4\<rparr>
      \<lparr>rc_now_ms = 120, rc_last_observed_ms = 90, rc_minimum_snapshot_epoch = 2\<rparr> 140))"
proof -
  obtain c where c: "assess sample_assessment = Ok c" "bk_evaluated_at c = 120" "bk_valid_until c = 140"
    by (rule sample_assessment_eligible)
  have k: "ba_clock sample_assessment = Checked
      \<lparr>bc_now_ms = 120, bc_last_observed_ms = 110, bc_minimum_revocation_epoch = 4\<rparr>"
    and rk: "ra_clock (ba_review sample_assessment) = Checked
      \<lparr>rc_now_ms = 120, rc_last_observed_ms = 90, rc_minimum_snapshot_epoch = 2\<rparr>"
    by (simp_all add: sample_assessment_def sample_review_def)
  show ?thesis
    using broker_read_lease [OF c(1) k rk, of 139] broker_read_lease [OF c(1) k rk, of 140] c(2,3)
    by simp
qed

end
