(* ===== verification/Creative_Domain.thy ===== *)
theory Creative_Domain
  imports Value_Types
begin

text \<open>
  The creative values and state machine of \<open>mengxia-domain/src/creative.rs\<close>:
  bounded texts and kinds, resolutions and ratios in lowest terms, validated
  canonical JSON objects, the relationship sets of a work specification and the
  life cycle of a take.  The take machine is given twice: as the executable
  \<open>transition\<close> of the code and as the step relation \<open>take_step\<close> used for
  reachability.
\<close>

datatype creative_error =
  CreativeInvalidValue | CreativeInvalidTransition | CreativeConflict | CreativeRevisionExhausted

section \<open>Texts and kinds\<close>

definition validate_text :: "utext \<Rightarrow> nat \<Rightarrow> creative_error + utext" where
  "validate_text value maximum =
    (if value = [] \<or> text_len value > maximum \<or> trim value \<noteq> value \<or> list_ex is_control value
     then Err CreativeInvalidValue else Ok value)"

definition project_name_new :: "utext \<Rightarrow> creative_error + utext" where
  "project_name_new value = validate_text value 255"

definition subject_name_new :: "utext \<Rightarrow> creative_error + utext" where
  "subject_name_new value = validate_text value 255"

definition work_code_new :: "utext \<Rightarrow> creative_error + utext" where
  "work_code_new value = validate_text value 64"

definition take_reason_new :: "utext \<Rightarrow> creative_error + utext" where
  "take_reason_new value = validate_text value 1024"

definition token_char :: "char \<Rightarrow> bool" where
  "token_char c =
    (is_ascii_lower c \<or> is_ascii_digit c \<or> c = CHR ''.'' \<or> c = CHR ''_'' \<or> c = CHR ''-'')"

definition subject_kind_new :: "string \<Rightarrow> creative_error + string" where
  "subject_kind_new value =
    (if value = [] \<or> length value > 64 \<or> \<not> is_ascii_lower (hd value)
        \<or> \<not> list_all token_char value
     then Err CreativeInvalidValue else Ok value)"

section \<open>Resolutions and ratios\<close>

record resolution =
  width :: u16
  height :: u16

definition u16_try_from :: "u32 \<Rightarrow> u16 option" where
  "u16_try_from n = (if unat n < 2 ^ 16 then Some (ucast n) else None)"

definition resolution_new :: "u32 \<Rightarrow> u32 \<Rightarrow> creative_error + resolution" where
  "resolution_new w h =
    and_then (ok_or CreativeInvalidValue (u16_try_from w)) (\<lambda>w'.
    and_then (ok_or CreativeInvalidValue (u16_try_from h)) (\<lambda>h'.
      if w' = 0 \<or> h' = 0 then Err CreativeInvalidValue
      else Ok \<lparr>width = w', height = h'\<rparr>))"

record positive_ratio =
  numerator :: u32
  denominator :: u32

function gcd_u32 :: "u32 \<Rightarrow> u32 \<Rightarrow> u32" where
  "gcd_u32 left right = (if right = 0 then left else gcd_u32 right (left mod right))"
  by pat_completeness auto

termination
proof (relation "measure (\<lambda>(left, right). unat right)")
  fix left right :: u32
  assume "right \<noteq> 0"
  then have "unat left mod unat right < unat right"
    by (simp add: unat_gt_0)
  then show "((right, left mod right), (left, right)) \<in> measure (\<lambda>(left, right). unat right)"
    by (simp add: unat_mod)
qed simp

declare gcd_u32.simps [simp del]

definition positive_ratio_new :: "u32 \<Rightarrow> u32 \<Rightarrow> creative_error + positive_ratio" where
  "positive_ratio_new n d =
    (if n = 0 \<or> d = 0 \<or> gcd_u32 n d \<noteq> 1 then Err CreativeInvalidValue
     else Ok \<lparr>numerator = n, denominator = d\<rparr>)"

section \<open>Canonical JSON and specifications\<close>

record canonical_json =
  json_bytes :: bytes
  json_digest :: sha256_digest

definition from_validated_object ::
  "bytes \<Rightarrow> sha256_digest \<Rightarrow> nat \<Rightarrow> creative_error + canonical_json" where
  "from_validated_object bs digest maximum_bytes =
    (if \<not> (2 \<le> length bs \<and> length bs \<le> maximum_bytes) \<or> hd bs \<noteq> 123 \<or> last bs \<noteq> 125
     then Err CreativeInvalidValue
     else Ok \<lparr>json_bytes = bs, json_digest = digest\<rparr>)"

record project_specification =
  resolution_of :: "resolution option"
  frame_rate :: "positive_ratio option"
  aspect_ratio :: "positive_ratio option"
  color_policy :: canonical_json
  audio_policy :: canonical_json
  quality_policy :: canonical_json
  privacy_policy :: canonical_json
  policy_digest :: sha256_digest

definition validate_relationship_set :: "uuid list \<Rightarrow> nat \<Rightarrow> creative_error + uuid list" where
  "validate_relationship_set values maximum =
    (let set_values = btree_set values in
     if length set_values \<noteq> length values \<or> length set_values > maximum
     then Err CreativeInvalidValue else Ok set_values)"

record work_specification =
  work_json :: canonical_json
  subject_ids :: "uuid list"
  asset_ids :: "uuid list"

definition work_specification_new ::
  "canonical_json \<Rightarrow> uuid list \<Rightarrow> uuid list \<Rightarrow> creative_error + work_specification" where
  "work_specification_new json subjects assets =
    and_then (validate_relationship_set subjects 64) (\<lambda>ss.
    and_then (validate_relationship_set assets 64) (\<lambda>as.
      Ok \<lparr>work_json = json, subject_ids = ss, asset_ids = as\<rparr>))"

definition next_revision :: "revision_no \<Rightarrow> creative_error + revision_no" where
  "next_revision current = ok_or CreativeRevisionExhausted (checked_add current 1)"

section \<open>Kinds and take states\<close>

datatype work_kind = Scene | Shot

fun work_kind_code :: "work_kind \<Rightarrow> byte" where
  "work_kind_code Scene = 1"
| "work_kind_code Shot = 2"

fun work_kind_as_str :: "work_kind \<Rightarrow> string" where
  "work_kind_as_str Scene = ''SCENE''"
| "work_kind_as_str Shot = ''SHOT''"

datatype take_state = Candidate | Shortlisted | Selected | Approved | Rejected | Superseded

datatype take_transition = Shortlist | Select | Approve | Reject | Supersede

fun take_state_code :: "take_state \<Rightarrow> byte" where
  "take_state_code Candidate = 1"
| "take_state_code Shortlisted = 2"
| "take_state_code Selected = 3"
| "take_state_code Approved = 4"
| "take_state_code Rejected = 5"
| "take_state_code Superseded = 6"

fun take_state_as_str :: "take_state \<Rightarrow> string" where
  "take_state_as_str Candidate = ''CANDIDATE''"
| "take_state_as_str Shortlisted = ''SHORTLISTED''"
| "take_state_as_str Selected = ''SELECTED''"
| "take_state_as_str Approved = ''APPROVED''"
| "take_state_as_str Rejected = ''REJECTED''"
| "take_state_as_str Superseded = ''SUPERSEDED''"

definition take_state_parse :: "string \<Rightarrow> creative_error + take_state" where
  "take_state_parse value =
    (if value = ''CANDIDATE'' then Ok Candidate
     else if value = ''SHORTLISTED'' then Ok Shortlisted
     else if value = ''SELECTED'' then Ok Selected
     else if value = ''APPROVED'' then Ok Approved
     else if value = ''REJECTED'' then Ok Rejected
     else if value = ''SUPERSEDED'' then Ok Superseded
     else Err CreativeInvalidValue)"

fun is_terminal :: "take_state \<Rightarrow> bool" where
  "is_terminal Approved = True"
| "is_terminal Rejected = True"
| "is_terminal Superseded = True"
| "is_terminal _ = False"

fun transition :: "take_state \<Rightarrow> take_transition \<Rightarrow> creative_error + take_state" where
  "transition Candidate Shortlist = Ok Shortlisted"
| "transition Candidate Select = Ok Selected"
| "transition Shortlisted Select = Ok Selected"
| "transition Selected Approve = Ok Approved"
| "transition Candidate Reject = Ok Rejected"
| "transition Shortlisted Reject = Ok Rejected"
| "transition Selected Reject = Ok Rejected"
| "transition Candidate Supersede = Ok Superseded"
| "transition Shortlisted Supersede = Ok Superseded"
| "transition Selected Supersede = Ok Superseded"
| "transition _ _ = Err CreativeInvalidTransition"

fun take_transition_code :: "take_transition \<Rightarrow> byte" where
  "take_transition_code Shortlist = 1"
| "take_transition_code Select = 2"
| "take_transition_code Approve = 3"
| "take_transition_code Reject = 4"
| "take_transition_code Supersede = 5"

datatype relationship_kind = WorkSubject | WorkAsset | TakeReopens | TakeSupersedes

fun relationship_kind_as_str :: "relationship_kind \<Rightarrow> string" where
  "relationship_kind_as_str WorkSubject = ''WORK_SUBJECT''"
| "relationship_kind_as_str WorkAsset = ''WORK_ASSET''"
| "relationship_kind_as_str TakeReopens = ''TAKE_REOPENS''"
| "relationship_kind_as_str TakeSupersedes = ''TAKE_SUPERSEDES''"

section \<open>Values\<close>

lemma validate_text_ok_iff:
  "validate_text v m = Ok t \<longleftrightarrow>
    t = v \<and> v \<noteq> [] \<and> text_len v \<le> m \<and> trim v = v \<and> list_all (\<lambda>c. \<not> is_control c) v"
  by (auto simp add: validate_text_def list_ex_iff list_all_iff)

lemma gcd_u32_gcd: "unat (gcd_u32 a b) = gcd (unat a) (unat b)"
proof (induction a b rule: gcd_u32.induct)
  case (1 left right)
  show ?case
  proof (cases "right = 0")
    case False
    with 1 have "unat (gcd_u32 right (left mod right)) = gcd (unat right) (unat left mod unat right)"
      by (simp add: unat_mod)
    also have "\<dots> = gcd (unat left) (unat right)"
      by (metis gcd.commute gcd_red_nat)
    finally show ?thesis using False by (simp add: gcd_u32.simps [of left right])
  qed (simp add: gcd_u32.simps)
qed

lemma gcd_u32_eq_1_iff: "gcd_u32 a b = 1 \<longleftrightarrow> coprime (unat a) (unat b)"
  using gcd_u32_gcd [of a b] by (auto simp add: coprime_iff_gcd_eq_1 word_unat_eq_iff)

lemma validate_relationship_set_ok_iff:
  "validate_relationship_set vs m = Ok xs \<longleftrightarrow>
    xs = btree_set vs \<and> distinct vs \<and> length vs \<le> m"
  by (auto simp add: validate_relationship_set_def Let_def btree_set_length_eq_iff)

lemma next_revision_ok_iff: "next_revision r = Ok n \<longleftrightarrow> unat n = Suc (unat r)"
  by (simp add: next_revision_def checked_add_Some_iff)

lemma take_state_parse_as_str: "take_state_parse v = Ok s \<longleftrightarrow> v = take_state_as_str s"
  by (cases s) (auto simp add: take_state_parse_def)

lemma take_state_code_inject [simp]: "take_state_code s = take_state_code t \<longleftrightarrow> s = t"
  by (cases s; cases t) simp_all

section \<open>Life cycle of a take\<close>

inductive take_step :: "take_state \<Rightarrow> take_state \<Rightarrow> bool" where
  shortlist: "take_step Candidate Shortlisted"
| select: "s \<in> {Candidate, Shortlisted} \<Longrightarrow> take_step s Selected"
| approve: "take_step Selected Approved"
| reject: "\<not> is_terminal s \<Longrightarrow> take_step s Rejected"
| supersede: "\<not> is_terminal s \<Longrightarrow> take_step s Superseded"

inductive_cases take_stepE: "take_step s t"

lemma transition_step_iff: "(\<exists>tr. transition s tr = Ok t) \<longleftrightarrow> take_step s t"
proof
  assume "\<exists>tr. transition s tr = Ok t"
  then obtain tr where "transition s tr = Ok t" by blast
  then show "take_step s t"
    by (cases s; cases tr) (auto intro: take_step.intros)
next
  assume "take_step s t"
  then show "\<exists>tr. transition s tr = Ok t"
  proof cases
    case select
    then have "transition s Select = Ok t" by auto
    then show ?thesis ..
  next
    case reject
    then have "transition s Reject = Ok t" by (cases s) auto
    then show ?thesis ..
  next
    case supersede
    then have "transition s Supersede = Ok t" by (cases s) auto
    then show ?thesis ..
  qed (metis transition.simps(1,4))+
qed

fun take_rank :: "take_state \<Rightarrow> nat" where
  "take_rank Candidate = 0"
| "take_rank Shortlisted = 1"
| "take_rank Selected = 2"
| "take_rank _ = 3"

lemma transition_rank: "transition s tr = Ok t \<Longrightarrow> take_rank s < take_rank t"
  by (cases s; cases tr) auto

lemma terminal_stuck: "is_terminal s \<Longrightarrow> transition s tr = Err CreativeInvalidTransition"
  by (cases s; cases tr) simp_all

lemma live_rejectable: "\<not> is_terminal s \<Longrightarrow> transition s Reject = Ok Rejected"
  by (cases s) simp_all

lemma terminal_stuck_iff: "is_terminal s \<longleftrightarrow> (\<forall>tr. transition s tr = Err CreativeInvalidTransition)"
  by (metis live_rejectable sum.distinct(1) terminal_stuck)

fun transitions :: "take_state \<Rightarrow> take_transition list \<Rightarrow> creative_error + take_state" where
  "transitions s [] = Ok s"
| "transitions s (tr # trs) = and_then (transition s tr) (\<lambda>t. transitions t trs)"

lemma transitions_rank: "transitions s trs = Ok t \<Longrightarrow> take_rank s + length trs \<le> take_rank t"
proof (induction trs arbitrary: s)
  case (Cons tr trs)
  then obtain u where "transition s tr = Ok u" "transitions u trs = Ok t"
    by (auto simp add: and_then_ok_iff)
  with Cons.IH [of u] transition_rank [of s tr u] show ?case by simp
qed simp

lemma transitions_append:
  "transitions s (xs @ ys) = and_then (transitions s xs) (\<lambda>t. transitions t ys)"
  by (induction xs arbitrary: s) (simp_all add: and_then_assoc)

lemma transition_approved: "transition s tr = Ok Approved \<Longrightarrow> s = Selected \<and> tr = Approve"
  by (cases s; cases tr) auto

lemma rank_le_3: "take_rank s \<le> 3"
  by (cases s) simp_all

lemma transitions_approved:
  assumes "transitions Candidate trs = Ok Approved"
  shows "\<exists>pre. trs = pre @ [Select, Approve]"
proof -
  obtain trs' tr where trs: "trs = trs' @ [tr]"
    using assms by (cases trs rule: rev_cases) auto
  with assms have sel: "transitions Candidate trs' = Ok Selected" and "tr = Approve"
    by (auto simp add: transitions_append and_then_ok_iff dest: transition_approved)
  moreover obtain pre tr' where "trs' = pre @ [tr']"
    using sel by (cases trs' rule: rev_cases) auto
  moreover have "tr' = Select" if "transition u tr' = Ok Selected" for u
    using that by (cases u; cases tr') auto
  ultimately show ?thesis
    using trs by (auto simp add: transitions_append and_then_ok_iff)
qed

text \<open>C30. A take never runs for more than three transitions from its creation, it is
  terminal exactly when every further transition is refused, and it is approved only by
  an approval that directly follows a selection.\<close>

theorem take_lifecycle:
  assumes "transitions Candidate trs = Ok s"
  shows "length trs \<le> 3
    \<and> (is_terminal s \<longleftrightarrow> (\<forall>tr. transition s tr = Err CreativeInvalidTransition))
    \<and> (s = Approved \<longrightarrow> (\<exists>pre. trs = pre @ [Select, Approve]))"
  using transitions_rank [OF assms] rank_le_3 [of s] terminal_stuck_iff [of s]
    transitions_approved assms
  by auto

theorem take_lifecycle_witness:
  "is_terminal Approved \<and> (\<exists>pre. [Shortlist, Select, Approve] = pre @ [Select, Approve])"
  using take_lifecycle [of "[Shortlist, Select, Approve]" Approved] by simp

text \<open>C34. A ratio is accepted exactly when both parts are positive and it is in lowest
  terms, and then it is kept unchanged: the Euclidean loop on 32-bit words terminates
  and decides coprimality of the two numbers.\<close>

theorem positive_ratio_lowest_terms:
  "positive_ratio_new n d =
    (if 0 < unat n \<and> 0 < unat d \<and> coprime (unat n) (unat d)
     then Ok \<lparr>numerator = n, denominator = d\<rparr> else Err CreativeInvalidValue)"
  by (auto simp add: positive_ratio_new_def gcd_u32_eq_1_iff unat_gt_0)

text \<open>C35. A work specification is accepted exactly when neither relationship set repeats
  an identity or has more than 64 of them; it then holds each set in ascending order, so
  the order in which the identities were supplied is irrelevant.\<close>

theorem work_specification_canonical:
  "work_specification_new json ss as = Ok w \<longleftrightarrow>
    distinct ss \<and> distinct as \<and> length ss \<le> 64 \<and> length as \<le> 64
    \<and> w = \<lparr>work_json = json, subject_ids = sorted_list_of_set (set ss),
          asset_ids = sorted_list_of_set (set as)\<rparr>"
  by (auto simp add: work_specification_new_def and_then_ok_iff validate_relationship_set_ok_iff
      btree_set_eq)

end
