(* ===== verification/Asset_Domain.thy ===== *)
theory Asset_Domain
  imports Creative_Domain
begin

text \<open>
  The asset aggregate of \<open>mengxia-domain/src/asset.rs\<close>: life cycles, bounded tokens,
  names and media types, registration of a managed asset graph, creation of a new
  revision of an asset and recording of a managed location of a blob.
\<close>

datatype asset_lifecycle = Active | Retired
datatype revision_custody = RevisionManaged | RevisionUnmanaged
datatype blob_lifecycle = BlobAvailable | GcPending | Purged
datatype location_lifecycle = LocationAvailable | Corrupt | Missing | Removed
datatype location_custody = LocationManaged | LocationUnmanaged
datatype location_durability = Durable | DurabilityUnknown
datatype provenance_verification =
  VerificationUnknown | Verified | Conflicted | VerificationRejected

datatype asset_error =
  AssetInvalidValue | InvalidGraph | AssetInvalidTransition | AssetConflict | AssetRevisionExhausted

definition TOKEN_MAX_BYTES :: nat where "TOKEN_MAX_BYTES = 64"
definition LOGICAL_NAME_MAX_BYTES :: nat where "LOGICAL_NAME_MAX_BYTES = 255"
definition MEDIA_TYPE_MAX_BYTES :: nat where "MEDIA_TYPE_MAX_BYTES = 255"
definition MAX_PARENTS :: nat where "MAX_PARENTS = 64"

section \<open>Tokens, names and media types\<close>

definition token_new :: "string \<Rightarrow> asset_error + string" where
  "token_new value =
    (if value = [] \<or> length value > TOKEN_MAX_BYTES \<or> \<not> is_ascii_lower (hd value)
        \<or> \<not> list_all token_char value
     then Err AssetInvalidValue else Ok value)"

definition logical_name_new :: "utext \<Rightarrow> asset_error + utext" where
  "logical_name_new value =
    (if text_len value > LOGICAL_NAME_MAX_BYTES \<or> list_ex is_control value
     then Err AssetInvalidValue else Ok value)"

definition media_char :: "char \<Rightarrow> bool" where
  "media_char c = (is_ascii_lower c \<or> is_ascii_digit c \<or> c \<in> set ''!#$&^_.+-/'')"

definition media_type_new :: "string \<Rightarrow> asset_error + string" where
  "media_type_new value =
    (if \<not> (3 \<le> length value \<and> length value \<le> MEDIA_TYPE_MAX_BYTES)
        \<or> \<not> is_ascii value
        \<or> length (filter (\<lambda>c. c = CHR ''/'') value) \<noteq> 1
        \<or> hd value = CHR ''/'' \<or> last value = CHR ''/''
        \<or> \<not> list_all media_char value
     then Err AssetInvalidValue else Ok value)"

section \<open>Registration\<close>

record asset_record =
  asset_record_id :: uuid
  asset_record_kind :: string
  asset_record_lifecycle :: asset_lifecycle
  asset_record_revision :: revision_no
  asset_record_created_at :: timestamp

record register_managed_asset_values =
  reg_asset_id :: uuid
  reg_asset_kind :: string
  reg_asset_revision_id :: uuid
  reg_content_kind :: string
  reg_representation_id :: uuid
  reg_representation_purpose :: string
  reg_resource_id :: uuid
  reg_resource_kind :: string
  reg_logical_name :: utext
  reg_media_type :: "string option"
  reg_blob_digest :: sha256_digest
  reg_created_at :: timestamp

record asset_graph =
  graph_asset :: asset_record
  graph_asset_revision_id :: uuid
  graph_content_kind :: string
  graph_representation_id :: uuid
  graph_representation_purpose :: string
  graph_resource_id :: uuid
  graph_resource_kind :: string
  graph_logical_name :: utext
  graph_media_type :: "string option"
  graph_blob_digest :: sha256_digest

definition register_managed :: "register_managed_asset_values \<Rightarrow> asset_error + asset_graph" where
  "register_managed values =
    (if has_repeat [reg_asset_id values, reg_asset_revision_id values,
          reg_representation_id values, reg_resource_id values]
     then Err AssetInvalidValue
     else Ok \<lparr>graph_asset =
         \<lparr>asset_record_id = reg_asset_id values, asset_record_kind = reg_asset_kind values,
          asset_record_lifecycle = Active, asset_record_revision = 1,
          asset_record_created_at = reg_created_at values\<rparr>,
       graph_asset_revision_id = reg_asset_revision_id values,
       graph_content_kind = reg_content_kind values,
       graph_representation_id = reg_representation_id values,
       graph_representation_purpose = reg_representation_purpose values,
       graph_resource_id = reg_resource_id values,
       graph_resource_kind = reg_resource_kind values,
       graph_logical_name = reg_logical_name values,
       graph_media_type = reg_media_type values,
       graph_blob_digest = reg_blob_digest values\<rparr>)"

section \<open>Revisions\<close>

record revision_member =
  member_logical_name :: utext
  member_blob_digest :: sha256_digest

record revision_resource =
  resource_id_of :: uuid
  resource_kind_of :: string
  resource_members_of :: "revision_member list"

definition revision_resource_new ::
  "uuid \<Rightarrow> string \<Rightarrow> revision_member list \<Rightarrow> asset_error + revision_resource" where
  "revision_resource_new rid kind members =
    (if members = [] \<or> length members > 4096 then Err InvalidGraph
     else Ok \<lparr>resource_id_of = rid, resource_kind_of = kind, resource_members_of = members\<rparr>)"

record revision_representation =
  representation_id_of :: uuid
  representation_purpose_of :: string
  representation_resources_of :: "revision_resource list"

definition revision_representation_new ::
  "uuid \<Rightarrow> string \<Rightarrow> revision_resource list \<Rightarrow> asset_error + revision_representation" where
  "revision_representation_new rid purpose resources =
    (if resources = [] \<or> length resources > 64 then Err InvalidGraph
     else if length (btree_set (map resource_id_of resources)) \<noteq> length resources
     then Err InvalidGraph
     else Ok \<lparr>representation_id_of = rid, representation_purpose_of = purpose,
              representation_resources_of = resources\<rparr>)"

record create_asset_revision_values =
  cr_expected_revision :: revision_no
  cr_revision_id :: uuid
  cr_parent_revision_ids :: "uuid list"
  cr_content_kind :: string
  cr_representations :: "revision_representation list"
  cr_created_at :: timestamp

record new_asset_revision =
  new_asset_id :: uuid
  new_revision_id :: uuid
  new_parent_revision_ids :: "uuid list"
  new_content_kind :: string
  new_representations :: "revision_representation list"
  new_resulting_revision :: revision_no
  new_created_at :: timestamp

definition representation_resource_ids :: "revision_representation list \<Rightarrow> uuid list" where
  "representation_resource_ids reps =
    concat (map (\<lambda>r. map resource_id_of (representation_resources_of r)) reps)"

definition create_revision ::
  "asset_record \<Rightarrow> create_asset_revision_values \<Rightarrow> asset_error + new_asset_revision" where
  "create_revision self values =
    (let parents = cr_parent_revision_ids values; reps = cr_representations values in
     if asset_record_lifecycle self \<noteq> Active
        \<or> cr_expected_revision values \<noteq> asset_record_revision self
     then Err AssetConflict
     else if parents = [] \<or> length parents > MAX_PARENTS \<or> reps = [] \<or> length reps > 64
        \<or> cr_revision_id values \<in> set parents
        \<or> length (btree_set parents) \<noteq> length parents
     then Err InvalidGraph
     else if length (btree_set (map representation_id_of reps)) \<noteq> length reps
     then Err InvalidGraph
     else if length (btree_set (representation_resource_ids reps))
          \<noteq> sum_list (map (\<lambda>r. length (representation_resources_of r)) reps)
     then Err InvalidGraph
     else case checked_next (asset_record_revision self) of
       Inl _ \<Rightarrow> Err AssetRevisionExhausted
     | Inr resulting \<Rightarrow>
       Ok \<lparr>new_asset_id = asset_record_id self, new_revision_id = cr_revision_id values,
           new_parent_revision_ids = parents, new_content_kind = cr_content_kind values,
           new_representations = reps, new_resulting_revision = resulting,
           new_created_at = cr_created_at values\<rparr>)"

section \<open>Blob locations\<close>

record blob_record =
  blob_digest_of :: sha256_digest
  blob_lifecycle_of :: blob_lifecycle
  blob_revision_of :: revision_no

record record_managed_location_values =
  rl_digest :: sha256_digest
  rl_expected_revision :: revision_no
  rl_location_id :: uuid
  rl_verified_at :: timestamp

record location_change =
  lc_digest :: sha256_digest
  lc_location_id :: uuid
  lc_resulting_revision :: revision_no
  lc_verified_at :: timestamp

definition blob_available :: "sha256_digest \<Rightarrow> revision_no \<Rightarrow> blob_record" where
  "blob_available digest revision =
    \<lparr>blob_digest_of = digest, blob_lifecycle_of = BlobAvailable, blob_revision_of = revision\<rparr>"

definition blob_record_location ::
  "blob_record \<Rightarrow> record_managed_location_values \<Rightarrow> asset_error + location_change" where
  "blob_record_location self values =
    (if blob_lifecycle_of self \<noteq> BlobAvailable \<or> rl_digest values \<noteq> blob_digest_of self
     then Err AssetInvalidTransition
     else if rl_expected_revision values \<noteq> blob_revision_of self then Err AssetConflict
     else case checked_next (blob_revision_of self) of
       Inl _ \<Rightarrow> Err AssetRevisionExhausted
     | Inr resulting \<Rightarrow>
       Ok \<lparr>lc_digest = blob_digest_of self, lc_location_id = rl_location_id values,
           lc_resulting_revision = resulting, lc_verified_at = rl_verified_at values\<rparr>)"

section \<open>Well-formedness of the graphs\<close>

definition resource_wf :: "revision_resource \<Rightarrow> bool" where
  "resource_wf r = (resource_members_of r \<noteq> [] \<and> length (resource_members_of r) \<le> 4096)"

definition representation_wf :: "revision_representation \<Rightarrow> bool" where
  "representation_wf r =
    (representation_resources_of r \<noteq> [] \<and> length (representation_resources_of r) \<le> 64
     \<and> distinct (map resource_id_of (representation_resources_of r))
     \<and> list_all resource_wf (representation_resources_of r))"

definition revision_graph_wf :: "uuid \<Rightarrow> uuid list \<Rightarrow> revision_representation list \<Rightarrow> bool" where
  "revision_graph_wf rid parents reps =
    (parents \<noteq> [] \<and> length parents \<le> 64 \<and> distinct parents \<and> rid \<notin> set parents
     \<and> reps \<noteq> [] \<and> length reps \<le> 64 \<and> distinct (map representation_id_of reps)
     \<and> distinct (representation_resource_ids reps) \<and> list_all representation_wf reps)"

lemma resource_new_ok:
  "revision_resource_new i k ms = Ok r \<longleftrightarrow>
    r = \<lparr>resource_id_of = i, resource_kind_of = k, resource_members_of = ms\<rparr> \<and> resource_wf r"
  by (auto simp add: revision_resource_new_def resource_wf_def)

lemma representation_new_ok:
  "list_all resource_wf rs \<Longrightarrow> revision_representation_new i p rs = Ok r \<longleftrightarrow>
    r = \<lparr>representation_id_of = i, representation_purpose_of = p, representation_resources_of = rs\<rparr>
    \<and> representation_wf r"
  by (auto simp add: revision_representation_new_def representation_wf_def
      btree_set_length_eq_iff [of "map resource_id_of rs", simplified])

lemma resource_ids_length:
  "sum_list (map (\<lambda>r. length (representation_resources_of r)) reps)
    = length (representation_resource_ids reps)"
  by (induction reps) (simp_all add: representation_resource_ids_def)

lemmas graph_sizes = btree_set_length_eq_iff
  btree_set_length_eq_iff [of "map representation_id_of reps" for reps, simplified]
  resource_ids_length

lemma token_new_ok_iff:
  "token_new v = Ok t \<longleftrightarrow>
    t = v \<and> v \<noteq> [] \<and> length v \<le> 64 \<and> is_ascii_lower (hd v) \<and> list_all token_char v"
  by (auto simp add: token_new_def TOKEN_MAX_BYTES_def)

lemma register_managed_ok:
  "register_managed v = Ok g \<Longrightarrow>
    distinct [reg_asset_id v, reg_asset_revision_id v, reg_representation_id v, reg_resource_id v]
    \<and> asset_record_revision (graph_asset g) = 1
    \<and> asset_record_lifecycle (graph_asset g) = Active
    \<and> asset_record_id (graph_asset g) = reg_asset_id v"
  by (auto simp add: register_managed_def split: if_splits)

lemma checked_next_eq:
  "checked_next r = (if unat r = 2 ^ 64 - 1 then Err RevisionOverflow else Ok (r + 1))"
  using unat_bound [of r]
  by (auto simp add: checked_next_def checked_add_def)

text \<open>C29. Creating a revision from well-formed representations answers, in this order: a
  conflict when the asset is retired or the caller did not see its current revision,
  an invalid graph when the new graph is not well formed (1 to 64 distinct parents other
  than the revision itself, 1 to 64 distinct representations, no resource identity shared
  by two representations), exhaustion when the counter is at its maximum, and otherwise
  the supplied graph at the successor revision.\<close>

theorem create_revision_spec:
  assumes "list_all representation_wf (cr_representations v)"
  shows "create_revision a v =
    (if asset_record_lifecycle a \<noteq> Active \<or> cr_expected_revision v \<noteq> asset_record_revision a
     then Err AssetConflict
     else if \<not> revision_graph_wf (cr_revision_id v) (cr_parent_revision_ids v) (cr_representations v)
     then Err InvalidGraph
     else if unat (asset_record_revision a) = 2 ^ 64 - 1 then Err AssetRevisionExhausted
     else Ok \<lparr>new_asset_id = asset_record_id a, new_revision_id = cr_revision_id v,
          new_parent_revision_ids = cr_parent_revision_ids v,
          new_content_kind = cr_content_kind v, new_representations = cr_representations v,
          new_resulting_revision = asset_record_revision a + 1,
          new_created_at = cr_created_at v\<rparr>)"
  using assms
  by (simp add: create_revision_def Let_def MAX_PARENTS_def graph_sizes checked_next_eq
      revision_graph_wf_def not_less)

theorem create_revision_spec_witness:
  "create_revision
    \<lparr>asset_record_id = [1], asset_record_kind = ''image'', asset_record_lifecycle = Active,
     asset_record_revision = 4, asset_record_created_at = \<lparr>unix_seconds = 0, subsec_nanoseconds = 0\<rparr>\<rparr>
    \<lparr>cr_expected_revision = 4, cr_revision_id = [9], cr_parent_revision_ids = [[2], [3]],
     cr_content_kind = ''binary'',
     cr_representations = [\<lparr>representation_id_of = [5], representation_purpose_of = ''original'',
       representation_resources_of = [\<lparr>resource_id_of = [6], resource_kind_of = ''file'',
         resource_members_of = [\<lparr>member_logical_name = [97], member_blob_digest = [7]\<rparr>]\<rparr>]\<rparr>],
     cr_created_at = \<lparr>unix_seconds = 1, subsec_nanoseconds = 0\<rparr>\<rparr>
   = Ok \<lparr>new_asset_id = [1], new_revision_id = [9], new_parent_revision_ids = [[2], [3]],
      new_content_kind = ''binary'',
      new_representations = [\<lparr>representation_id_of = [5], representation_purpose_of = ''original'',
        representation_resources_of = [\<lparr>resource_id_of = [6], resource_kind_of = ''file'',
          resource_members_of = [\<lparr>member_logical_name = [97], member_blob_digest = [7]\<rparr>]\<rparr>]\<rparr>],
      new_resulting_revision = 5, new_created_at = \<lparr>unix_seconds = 1, subsec_nanoseconds = 0\<rparr>\<rparr>"
  by (subst create_revision_spec)
    (simp_all add: representation_wf_def resource_wf_def revision_graph_wf_def
      representation_resource_ids_def)

end
