(* ===== verification/Result_Payload.thy ===== *)
theory Result_Payload
  imports Asset_Domain
begin

text \<open>
  The versioned result payload that a completed command stores
  (\<open>crates/mengxia-ports/src/lib.rs\<close>: \<open>VersionedResultPayload\<close>, \<open>AssetStoreError\<close>).  A payload
  is a fixed layout of 16, 32 or 48 bytes chosen by its result kind; the decoder accepts
  exactly the byte strings the encoder writes.
\<close>

section \<open>Store errors\<close>

datatype asset_store_error =
    Store_Validation | Store_NotFound | Store_Conflict | Store_InvalidTransition
  | Store_RevisionExhausted | Store_IdGenerationUnavailable | Store_StorageBusy
  | Store_StorageIo | Store_StorageCorruption | Store_StorageConfiguration
  | Store_Backpressure | Store_OperationCancelled | Store_DeadlineExceeded
  | Store_ShuttingDown | Store_Internal

fun store_error_code :: "asset_store_error \<Rightarrow> error_code" where
  "store_error_code Store_Validation = ValidationError"
| "store_error_code Store_NotFound = NotFound"
| "store_error_code Store_Conflict = Conflict"
| "store_error_code Store_InvalidTransition = InvalidTransition"
| "store_error_code Store_RevisionExhausted = RevisionExhausted"
| "store_error_code Store_IdGenerationUnavailable = IdGenerationUnavailable"
| "store_error_code Store_StorageBusy = StorageBusy"
| "store_error_code Store_StorageIo = StorageIoError"
| "store_error_code Store_ShuttingDown = StorageIoError"
| "store_error_code Store_StorageCorruption = StorageCorruption"
| "store_error_code Store_StorageConfiguration = StorageConfigurationError"
| "store_error_code Store_Backpressure = Backpressure"
| "store_error_code Store_OperationCancelled = OperationCancelled"
| "store_error_code Store_DeadlineExceeded = DeadlineExceeded"
| "store_error_code Store_Internal = InternalError"

section \<open>Payloads\<close>

datatype versioned_result_payload =
    ProjectPayload bytes u64 u32
  | ProjectSpecRevisionPayload bytes u64 u32
  | SubjectPayload u64
  | WorkItemPayload bytes u64 u32
  | WorkRevisionPayload bytes u64 u32
  | TakePayload u64 u32 take_state bytes "bytes option"
  | AssetLifecyclePayload u64 asset_lifecycle

fun result_kind :: "versioned_result_payload \<Rightarrow> string" where
  "result_kind (ProjectPayload _ _ _) = ''PROJECT''"
| "result_kind (ProjectSpecRevisionPayload _ _ _) = ''PROJECT_SPEC_REVISION''"
| "result_kind (SubjectPayload _) = ''SUBJECT''"
| "result_kind (WorkItemPayload _ _ _) = ''WORK_ITEM''"
| "result_kind (WorkRevisionPayload _ _ _) = ''WORK_REVISION''"
| "result_kind (TakePayload _ _ _ _ _) = ''TAKE''"
| "result_kind (AssetLifecyclePayload _ _) = ''ASSET_LIFECYCLE''"

fun lifecycle_code :: "asset_lifecycle \<Rightarrow> byte" where
  "lifecycle_code Active = 1"
| "lifecycle_code Retired = 2"

definition encode_revision_ref :: "bytes \<Rightarrow> u64 \<Rightarrow> u32 \<Rightarrow> bytes" where
  "encode_revision_ref i r s = i @ u64_to_be_bytes r @ u32_to_be_bytes s @ replicate 4 0"

fun payload_encode :: "versioned_result_payload \<Rightarrow> bytes" where
  "payload_encode (ProjectPayload i r s) = encode_revision_ref i r s"
| "payload_encode (WorkItemPayload i r s) = encode_revision_ref i r s"
| "payload_encode (ProjectSpecRevisionPayload i r s) = encode_revision_ref i r s"
| "payload_encode (WorkRevisionPayload i r s) = encode_revision_ref i r s"
| "payload_encode (SubjectPayload r) = u64_to_be_bytes r @ replicate 8 0"
| "payload_encode (TakePayload r n st asset related) =
    u64_to_be_bytes r @ u32_to_be_bytes n @ [take_state_code st]
      @ [case related of None \<Rightarrow> 0 | Some _ \<Rightarrow> 1] @ replicate 2 0 @ asset
      @ (case related of None \<Rightarrow> replicate 16 0 | Some i \<Rightarrow> i)"
| "payload_encode (AssetLifecyclePayload r l) =
    u64_to_be_bytes r @ [lifecycle_code l] @ replicate 7 0"

definition u64_at :: "bytes \<Rightarrow> nat \<Rightarrow> asset_store_error + u64" where
  "u64_at bs offset =
    ok_or Store_StorageCorruption (map_option u64_from_be_bytes (get_range bs offset (offset + 8)))"

definition u32_at :: "bytes \<Rightarrow> nat \<Rightarrow> asset_store_error + u32" where
  "u32_at bs offset =
    ok_or Store_StorageCorruption (map_option u32_from_be_bytes (get_range bs offset (offset + 4)))"

definition id_at :: "uuid_api \<Rightarrow> bytes \<Rightarrow> nat \<Rightarrow> asset_store_error + bytes" where
  "id_at U bs offset =
    and_then (ok_or Store_StorageCorruption (get_range bs offset (offset + 16))) (\<lambda>raw.
    and_then (map_err (\<lambda>_. Store_StorageCorruption) (id_from_bytes U raw)) (\<lambda>_. Ok raw))"

definition reserved_zero :: "bytes \<Rightarrow> nat \<Rightarrow> nat \<Rightarrow> bool" where
  "reserved_zero bs a b =
    (case get_range bs a b of None \<Rightarrow> False | Some v \<Rightarrow> list_all (\<lambda>x. x = 0) v)"

definition decode_take_state :: "byte \<Rightarrow> asset_store_error + take_state" where
  "decode_take_state b =
    (if b = 1 then Ok Candidate else if b = 2 then Ok Shortlisted
     else if b = 3 then Ok Selected else if b = 4 then Ok Approved
     else if b = 5 then Ok Rejected else if b = 6 then Ok Superseded
     else Err Store_StorageCorruption)"

definition decode_lifecycle :: "byte \<Rightarrow> asset_store_error + asset_lifecycle" where
  "decode_lifecycle b =
    (if b = 1 then Ok Active else if b = 2 then Ok Retired else Err Store_StorageCorruption)"

definition decode_related :: "uuid_api \<Rightarrow> bytes \<Rightarrow> asset_store_error + bytes option" where
  "decode_related U bs =
    (if bs ! 13 = 0 \<and> reserved_zero bs 32 48 then Ok None
     else if bs ! 13 = 1 then and_then (id_at U bs 32) (\<lambda>i. Ok (Some i))
     else Err Store_StorageCorruption)"

definition decode_revision_ref ::
  "uuid_api \<Rightarrow> (bytes \<Rightarrow> u64 \<Rightarrow> u32 \<Rightarrow> versioned_result_payload) \<Rightarrow> bytes \<Rightarrow>
    asset_store_error + versioned_result_payload" where
  "decode_revision_ref U mk bs =
    and_then (id_at U bs 0) (\<lambda>i. and_then (u64_at bs 16) (\<lambda>r.
    and_then (u32_at bs 24) (\<lambda>s. Ok (mk i r s))))"

definition result_payload_decode ::
  "uuid_api \<Rightarrow> string \<Rightarrow> bytes \<Rightarrow> asset_store_error + versioned_result_payload" where
  "result_payload_decode U kind bs =
    (if kind = ''PROJECT'' \<and> length bs = 32 \<and> reserved_zero bs 28 32
       then decode_revision_ref U ProjectPayload bs
     else if kind = ''PROJECT_SPEC_REVISION'' \<and> length bs = 32 \<and> reserved_zero bs 28 32
       then decode_revision_ref U ProjectSpecRevisionPayload bs
     else if kind = ''SUBJECT'' \<and> length bs = 16 \<and> reserved_zero bs 8 16
       then and_then (u64_at bs 0) (\<lambda>r. Ok (SubjectPayload r))
     else if kind = ''WORK_ITEM'' \<and> length bs = 32 \<and> reserved_zero bs 28 32
       then decode_revision_ref U WorkItemPayload bs
     else if kind = ''WORK_REVISION'' \<and> length bs = 32 \<and> reserved_zero bs 28 32
       then decode_revision_ref U WorkRevisionPayload bs
     else if kind = ''TAKE'' \<and> length bs = 48 \<and> reserved_zero bs 14 16
       then and_then (decode_take_state (bs ! 12)) (\<lambda>st.
            and_then (decode_related U bs) (\<lambda>related.
            and_then (u64_at bs 0) (\<lambda>r. and_then (u32_at bs 8) (\<lambda>n.
            and_then (id_at U bs 16) (\<lambda>asset. Ok (TakePayload r n st asset related))))))
     else if kind = ''ASSET_LIFECYCLE'' \<and> length bs = 16 \<and> reserved_zero bs 9 16
       then and_then (decode_lifecycle (bs ! 8)) (\<lambda>l.
            and_then (u64_at bs 0) (\<lambda>r. Ok (AssetLifecyclePayload r l)))
     else Err Store_StorageCorruption)"

section \<open>The decoder accepts exactly what the encoder writes\<close>

definition id_wf :: "uuid_api \<Rightarrow> bytes \<Rightarrow> bool" where
  "id_wf U i = (length i = 16 \<and> is_ok (id_from_bytes U i))"

fun result_payload_wf :: "uuid_api \<Rightarrow> versioned_result_payload \<Rightarrow> bool" where
  "result_payload_wf U (ProjectPayload i r s) = id_wf U i"
| "result_payload_wf U (ProjectSpecRevisionPayload i r s) = id_wf U i"
| "result_payload_wf U (SubjectPayload r) = True"
| "result_payload_wf U (WorkItemPayload i r s) = id_wf U i"
| "result_payload_wf U (WorkRevisionPayload i r s) = id_wf U i"
| "result_payload_wf U (TakePayload r n st asset related) =
    (id_wf U asset \<and> (case related of None \<Rightarrow> True | Some i \<Rightarrow> id_wf U i))"
| "result_payload_wf U (AssetLifecyclePayload r l) = True"

lemma get_range_skip:
  "length xs \<le> a \<Longrightarrow> a \<le> b \<Longrightarrow>
    get_range (xs @ ys) a b = get_range ys (a - length xs) (b - length xs)"
  by (auto simp add: get_range_def)

lemma get_range_skip_Cons:
  "0 < a \<Longrightarrow> a \<le> b \<Longrightarrow> get_range (x # ys) a b = get_range ys (a - 1) (b - 1)"
  using get_range_skip [of "[x]" a b ys] by simp

lemma get_range_prefix: "length xs = b \<Longrightarrow> get_range (xs @ ys) 0 b = Some xs"
  by (simp add: get_range_def)

lemma get_range_whole: "length xs = b \<Longrightarrow> get_range xs 0 b = Some xs"
  by (simp add: get_range_def)

lemmas get_range_simps = get_range_skip get_range_skip_Cons get_range_prefix get_range_whole

lemmas payload_reads = u64_at_def u32_at_def id_at_def reserved_zero_def get_range_simps

lemma id_check_iff:
  "length i = 16 \<Longrightarrow>
    and_then (map_err (\<lambda>_. e) (id_from_bytes U i)) (\<lambda>_. Ok i) = (if id_wf U i then Ok i else Err e)"
  by (cases "id_from_bytes U i") (simp_all add: id_wf_def)

lemma list_all_zero: "list_all (\<lambda>x. x = (0 :: byte)) v \<longleftrightarrow> v = replicate (length v) 0"
  by (induction v) auto

lemma decode_take_state_iff: "decode_take_state b = Ok st \<longleftrightarrow> b = take_state_code st"
  by (cases st) (auto simp add: decode_take_state_def)

lemma decode_lifecycle_iff: "decode_lifecycle b = Ok l \<longleftrightarrow> b = lifecycle_code l"
  by (cases l) (auto simp add: decode_lifecycle_def)

lemma split_bytes:
  assumes "length bs = n + m"
  obtains xs ys where "bs = xs @ ys" "length xs = n" "length ys = m"
  using assms that [of "take n bs" "drop n bs"] by simp

lemma split_revision_ref:
  assumes "length (bs :: bytes) = 32"
  obtains i r s z where "bs = i @ r @ s @ z" "length i = 16" "length r = 8" "length s = 4" "length z = 4"
proof -
  from assms obtain i t where 1: "bs = i @ t" "length i = 16" "length t = 8 + 8"
    using split_bytes [of bs 16 16] by auto
  then obtain r t' where 2: "t = r @ t'" "length r = 8" "length t' = 4 + 4"
    using split_bytes [of t 8 8] by auto
  then obtain s z where 3: "t' = s @ z" "length s = 4" "length z = 4"
    using split_bytes [of t' 4 4] by auto
  show thesis by (rule that [of i r s z]) (use 1 2 3 in simp_all)
qed

lemma decode_revision_ref_iff:
  assumes len: "length bs = 32"
  shows "reserved_zero bs 28 32 \<and> decode_revision_ref U mk bs = Ok p \<longleftrightarrow>
    (\<exists>i r s. (bs = encode_revision_ref i r s \<and> id_wf U i) \<and> p = mk i r s)"
proof -
  from len obtain i r s z where bs: "bs = i @ r @ s @ z"
    and l: "length i = 16" "length r = 8" "length s = 4" "length z = 4"
    by (rule split_revision_ref)
  have eq: "bs = encode_revision_ref i' r' s' \<and> id_wf U i' \<longleftrightarrow>
      i' = i \<and> r' = u64_from_be_bytes r \<and> s' = u32_from_be_bytes s \<and> z = replicate 4 0 \<and> id_wf U i"
    for i' r' s'
    using l unfolding bs encode_revision_ref_def id_wf_def
    by (auto simp add: append_eq_append_conv u64_to_from_be_bytes u32_to_from_be_bytes)
  have "decode_revision_ref U mk bs = (if id_wf U i
      then Ok (mk i (u64_from_be_bytes r) (u32_from_be_bytes s)) else Err Store_StorageCorruption)"
    using l by (simp add: bs decode_revision_ref_def payload_reads id_check_iff)
  moreover have "reserved_zero bs 28 32 \<longleftrightarrow> z = replicate 4 0"
    using l by (simp add: bs payload_reads list_all_zero)
  ultimately show ?thesis by (simp only: eq) auto
qed


lemma split_take:
  assumes "length (bs :: bytes) = 48"
  obtains r n st fl z i k where "bs = r @ n @ st # fl # z @ i @ k" "length r = 8" "length n = 4"
    "length z = 2" "length i = 16" "length k = 16"
proof -
  from assms obtain r t where 1: "bs = r @ t" "length r = 8" "length t = 4 + 36"
    using split_bytes [of bs 8 40] by auto
  then obtain n t' where 2: "t = n @ t'" "length n = 4" "length t' = 36"
    using split_bytes [of t 4 36] by auto
  then obtain st fl t'' where 3: "t' = st # fl # t''" "length t'' = 2 + 32"
    by (cases t'; cases "tl t'") auto
  then obtain z t3 where 4: "t'' = z @ t3" "length z = 2" "length t3 = 16 + 16"
    using split_bytes [of t'' 2 32] by auto
  then obtain i k where 5: "t3 = i @ k" "length i = 16" "length k = 16"
    using split_bytes [of t3 16 16] by auto
  show thesis by (rule that [of r n st fl z i k]) (use 1 2 3 4 5 in simp_all)
qed

lemma take_layout:
  assumes l: "length r = 8" "length n = 4" "length z = 2" "length i = 16" "length k = 16"
    and bs: "bs = r @ n @ st # fl # z @ i @ k"
  shows "bs ! 12 = st" "reserved_zero bs 14 16 \<longleftrightarrow> z = replicate 2 0"
    "u64_at bs 0 = Ok (u64_from_be_bytes r)" "u32_at bs 8 = Ok (u32_from_be_bytes n)"
    "id_at U bs 16 = (if id_wf U i then Ok i else Err Store_StorageCorruption)"
    "decode_related U bs =
      (if fl = 0 \<and> k = replicate 16 0 then Ok None
       else if fl = 1 \<and> id_wf U k then Ok (Some k) else Err Store_StorageCorruption)"
  using l unfolding bs decode_related_def
  by (simp_all add: payload_reads id_check_iff nth_append list_all_zero)

lemma take_encoding_iff:
  assumes l: "length r = 8" "length n = 4" "length z = 2" "length i = 16" "length k = 16"
  shows "r @ n @ st # fl # z @ i @ k = payload_encode (TakePayload r' n' st' i' k')
      \<and> result_payload_wf U (TakePayload r' n' st' i' k') \<longleftrightarrow>
    r' = u64_from_be_bytes r \<and> n' = u32_from_be_bytes n \<and> st = take_state_code st' \<and> i' = i
      \<and> z = replicate 2 0 \<and> id_wf U i
      \<and> (case k' of None \<Rightarrow> fl = 0 \<and> k = replicate 16 0 | Some j \<Rightarrow> fl = 1 \<and> j = k \<and> id_wf U k)"
proof (cases k')
  case None
  show ?thesis
    using l unfolding None
    by (auto simp add: id_wf_def append_eq_append_conv u64_to_from_be_bytes u32_to_from_be_bytes)
next
  case (Some j)
  show ?thesis
    using l unfolding Some
    by (auto simp add: id_wf_def append_eq_append_conv u64_to_from_be_bytes u32_to_from_be_bytes)
qed

lemma revision_ref_branch:
  "length bs = 32 \<and> reserved_zero bs 28 32 \<and> decode_revision_ref U mk bs = Ok p \<longleftrightarrow>
    (\<exists>i r s. (bs = encode_revision_ref i r s \<and> id_wf U i) \<and> p = mk i r s)"
proof (cases "length bs = 32")
  case True
  then show ?thesis using decode_revision_ref_iff [OF True] by simp
next
  case False
  then show ?thesis by (auto simp add: encode_revision_ref_def id_wf_def)
qed

lemma subject_branch:
  "length bs = 16 \<and> reserved_zero bs 8 16 \<and> and_then (u64_at bs 0) (\<lambda>r. Ok (SubjectPayload r)) = Ok p \<longleftrightarrow>
    (\<exists>r. bs = payload_encode (SubjectPayload r) \<and> p = SubjectPayload r)"
proof (cases "length bs = 16")
  case True
  then obtain r z where bs: "bs = r @ z" and l: "length r = 8" "length z = 8"
    using split_bytes [of bs 8 8] by auto
  then show ?thesis
    by (auto simp add: payload_reads list_all_zero append_eq_append_conv u64_to_from_be_bytes)
qed auto

lemma lifecycle_branch:
  "length bs = 16 \<and> reserved_zero bs 9 16 \<and>
     and_then (decode_lifecycle (bs ! 8)) (\<lambda>l. and_then (u64_at bs 0) (\<lambda>r.
       Ok (AssetLifecyclePayload r l))) = Ok p \<longleftrightarrow>
    (\<exists>r l. bs = payload_encode (AssetLifecyclePayload r l) \<and> p = AssetLifecyclePayload r l)"
proof (cases "length bs = 16")
  case True
  then obtain r t where "bs = r @ t" "length r = 8" "length t = 8"
    using split_bytes [of bs 8 8] by auto
  then obtain b z where bs: "bs = r @ b # z" and l: "length r = 8" "length z = 7"
    by (cases t) auto
  then show ?thesis
    by (auto simp add: payload_reads list_all_zero append_eq_append_conv u64_to_from_be_bytes
        and_then_ok_iff decode_lifecycle_iff nth_append)
qed auto

lemma take_branch:
  "length bs = 48 \<and> reserved_zero bs 14 16 \<and>
     and_then (decode_take_state (bs ! 12)) (\<lambda>st. and_then (decode_related U bs) (\<lambda>related.
     and_then (u64_at bs 0) (\<lambda>r. and_then (u32_at bs 8) (\<lambda>n.
     and_then (id_at U bs 16) (\<lambda>asset. Ok (TakePayload r n st asset related)))))) = Ok p \<longleftrightarrow>
    (\<exists>r n st i k. (bs = payload_encode (TakePayload r n st i k)
      \<and> result_payload_wf U (TakePayload r n st i k)) \<and> p = TakePayload r n st i k)"
proof (cases "length bs = 48")
  case True
  then obtain r n st fl z i k where bs: "bs = r @ n @ st # fl # z @ i @ k"
    and l: "length r = 8" "length n = 4" "length z = 2" "length i = 16" "length k = 16"
    by (rule split_take)
  have related: "decode_related U bs = Ok k' \<longleftrightarrow>
      (case k' of None \<Rightarrow> fl = 0 \<and> k = replicate 16 0 | Some j \<Rightarrow> fl = 1 \<and> j = k \<and> id_wf U k)" for k'
    unfolding take_layout(6) [OF l bs] by (cases k') auto
  have enc: "(bs = payload_encode (TakePayload r' n' st' i' k')
      \<and> result_payload_wf U (TakePayload r' n' st' i' k')) \<longleftrightarrow>
    r' = u64_from_be_bytes r \<and> n' = u32_from_be_bytes n \<and> st = take_state_code st' \<and> i' = i
      \<and> z = replicate 2 0 \<and> id_wf U i \<and> decode_related U bs = Ok k'" for r' n' st' i' k'
    unfolding related unfolding bs by (rule take_encoding_iff [OF l])
  show ?thesis
    unfolding enc using True
    by (auto simp add: take_layout(1-5) [OF l bs] and_then_ok_iff decode_take_state_iff split: if_splits)
next
  case False
  then show ?thesis by (auto simp add: id_wf_def split: option.splits)
qed

lemma payload_kind_branches:
  "result_payload_decode U kind bs = Ok p \<longleftrightarrow>
    kind = ''PROJECT'' \<and> (\<exists>i r s. (bs = encode_revision_ref i r s \<and> id_wf U i) \<and> p = ProjectPayload i r s) \<or>
    kind = ''PROJECT_SPEC_REVISION'' \<and> (\<exists>i r s. (bs = encode_revision_ref i r s \<and> id_wf U i)
      \<and> p = ProjectSpecRevisionPayload i r s) \<or>
    kind = ''SUBJECT'' \<and> (\<exists>r. bs = payload_encode (SubjectPayload r) \<and> p = SubjectPayload r) \<or>
    kind = ''WORK_ITEM'' \<and> (\<exists>i r s. (bs = encode_revision_ref i r s \<and> id_wf U i) \<and> p = WorkItemPayload i r s) \<or>
    kind = ''WORK_REVISION'' \<and> (\<exists>i r s. (bs = encode_revision_ref i r s \<and> id_wf U i)
      \<and> p = WorkRevisionPayload i r s) \<or>
    kind = ''TAKE'' \<and> (\<exists>r n st i k. (bs = payload_encode (TakePayload r n st i k)
      \<and> result_payload_wf U (TakePayload r n st i k)) \<and> p = TakePayload r n st i k) \<or>
    kind = ''ASSET_LIFECYCLE'' \<and> (\<exists>r l. bs = payload_encode (AssetLifecyclePayload r l)
      \<and> p = AssetLifecyclePayload r l)"
  unfolding result_payload_decode_def revision_ref_branch [symmetric] subject_branch [symmetric]
    take_branch [symmetric] lifecycle_branch [symmetric]
  by (cases "kind = ''PROJECT''"; cases "kind = ''PROJECT_SPEC_REVISION''"; cases "kind = ''SUBJECT''";
      cases "kind = ''WORK_ITEM''"; cases "kind = ''WORK_REVISION''"; cases "kind = ''TAKE''";
      cases "kind = ''ASSET_LIFECYCLE''"; simp; blast?)

lemma result_payload_decode_iff:
  "result_payload_decode U kind bs = Ok p \<longleftrightarrow>
    (result_kind p = kind \<and> result_payload_wf U p) \<and> bs = payload_encode p"
  unfolding payload_kind_branches by (cases p) auto

interpretation result_codec: canonical_codec payload_encode "result_payload_decode U kind"
    "\<lambda>p. result_kind p = kind \<and> result_payload_wf U p" for U kind
  by unfold_locales (simp_all add: result_payload_decode_iff)

text \<open>C25. The decoder of stored results accepts a byte string under a result kind exactly
  when it is the encoding of a payload of that kind whose identities are valid UUIDv7
  values, and it then returns that payload: every other length, kind, reserved byte, state
  code or related-take flag is reported as corruption, and no two payloads share a stored
  form.\<close>

theorem result_payload_exact:
  "result_payload_decode U kind bs = Ok p \<longleftrightarrow>
    bs = payload_encode p \<and> result_kind p = kind \<and> result_payload_wf U p"
  by (rule result_codec.decode_ok_iff)

end
