(* ===== verification/Store_Schema.thy ===== *)
theory Store_Schema
  imports Result_Payload
begin

text \<open>
  The tables of the library database (\<open>migrations/sqlite\<close>) as the writer of
  \<open>crates/mengxia-store-sqlite\<close> reads and writes them.  A table is the list of its rows, a
  query a search of that list, an update a map over it that also counts the rows it
  changed.  An insertion that meets a primary key, a unique index or a row check of the
  schema is refused with the error the writer maps a constraint violation to.
  Foreign keys and the length checks on columns are not modelled.

  A transaction is a function from a database to an error or an outcome with the next
  database: an error leaves the database as it was, as dropping the transaction does.
\<close>

section \<open>Rows\<close>

record command_row =
  cmd_id :: bytes
  cmd_operation_id :: string
  cmd_principal_kind :: string
  cmd_principal_uid :: int
  cmd_digest :: bytes
  cmd_runtime_id :: bytes
  cmd_state :: string
  cmd_result_kind :: "string option"
  cmd_result_id :: "bytes option"
  cmd_result_location_id :: "bytes option"
  cmd_result_schema_version :: "int option"
  cmd_result_payload :: "bytes option"
  cmd_result_payload_sha256 :: "bytes option"
  cmd_safe_error_code :: "string option"
  cmd_created_at :: "int \<times> int"
  cmd_updated_at :: "int \<times> int"

record event_row =
  ev_id :: bytes
  ev_commit_sequence :: int
  ev_command_id :: bytes
  ev_type :: string
  ev_aggregate_kind :: string
  ev_aggregate_id :: bytes
  ev_aggregate_revision :: bytes
  ev_payload :: "bytes option"
  ev_payload_sha256 :: "bytes option"
  ev_occurred_at :: "int \<times> int"

record asset_row =
  as_id :: bytes
  as_kind :: string
  as_lifecycle :: string
  as_revision :: bytes
  as_created_at :: "int \<times> int"
  as_updated_at :: "(int \<times> int) option"

record asset_revision_row =
  ar_id :: bytes
  ar_asset_id :: bytes
  ar_sequence :: int
  ar_content_kind :: string
  ar_created_at :: "int \<times> int"

record asset_parent_row =
  ap_asset_id :: bytes
  ap_child :: bytes
  ap_ordinal :: int
  ap_parent :: bytes

record representation_row =
  rp_id :: bytes
  rp_asset_revision_id :: bytes
  rp_purpose :: string

record resource_row =
  rs_id :: bytes
  rs_representation_id :: bytes
  rs_kind :: string

record resource_member_row =
  rm_resource_id :: bytes
  rm_ordinal :: int
  rm_logical_name :: utext
  rm_blob_digest :: bytes

record blob_row =
  bl_digest :: bytes
  bl_byte_length :: int
  bl_media_type :: "string option"
  bl_lifecycle :: string
  bl_revision :: bytes
  bl_verified_at :: "int \<times> int"

record location_row =
  lo_id :: bytes
  lo_blob_digest :: bytes
  lo_backend_id :: utext
  lo_locator :: utext
  lo_custody :: string
  lo_durability :: string
  lo_lifecycle :: string
  lo_revision :: bytes
  lo_verified_at :: "int \<times> int"

record provenance_row =
  pv_id :: bytes
  pv_command_id :: bytes
  pv_type :: string
  pv_asset_revision_id :: bytes
  pv_blob_digest :: "bytes option"
  pv_occurred_at :: "int \<times> int"

record subject_row =
  su_id :: bytes
  su_kind :: string
  su_name :: utext
  su_revision :: bytes
  su_creation_sequence :: int
  su_command_id :: bytes

record project_row =
  pr_id :: bytes
  pr_name :: utext
  pr_current_spec :: bytes
  pr_revision :: bytes
  pr_creation_sequence :: int
  pr_command_id :: bytes
  pr_updated_at :: "int \<times> int"

record project_spec_row =
  ps_id :: bytes
  ps_project_id :: bytes
  ps_sequence :: int
  ps_specification :: project_specification
  ps_command_id :: bytes

record work_item_row =
  wi_id :: bytes
  wi_project_id :: bytes
  wi_kind :: string
  wi_code :: utext
  wi_current_revision :: bytes
  wi_revision :: bytes
  wi_creation_sequence :: int
  wi_command_id :: bytes
  wi_updated_at :: "int \<times> int"

record work_revision_row =
  wr_id :: bytes
  wr_work_item_id :: bytes
  wr_sequence :: int
  wr_json :: canonical_json
  wr_command_id :: bytes

record take_row =
  tk_id :: bytes
  tk_work_revision_id :: bytes
  tk_ordinal :: int
  tk_state :: string
  tk_primary_asset_id :: bytes
  tk_revision :: bytes
  tk_creation_sequence :: int
  tk_command_id :: bytes
  tk_updated_at :: "int \<times> int"

record relationship_row =
  rel_id :: bytes
  rel_kind :: string
  rel_source_kind :: string
  rel_source_id :: bytes
  rel_target_kind :: string
  rel_target_id :: bytes
  rel_command_id :: bytes

record database =
  commands :: "command_row list"
  last_sequence :: int
  domain_events :: "event_row list"
  assets :: "asset_row list"
  asset_revisions :: "asset_revision_row list"
  asset_revision_parents :: "asset_parent_row list"
  representations :: "representation_row list"
  resources :: "resource_row list"
  resource_members :: "resource_member_row list"
  blobs :: "blob_row list"
  locations :: "location_row list"
  provenance_events :: "provenance_row list"
  subjects :: "subject_row list"
  projects :: "project_row list"
  project_spec_revisions :: "project_spec_row list"
  work_items :: "work_item_row list"
  work_revisions :: "work_revision_row list"
  takes :: "take_row list"
  relationships :: "relationship_row list"

section \<open>Statements\<close>

definition insert_row ::
  "('r \<Rightarrow> 'r \<Rightarrow> bool) \<Rightarrow> 'r \<Rightarrow> 'r list \<Rightarrow> asset_store_error + 'r list" where
  "insert_row clash r rows =
    (if list_ex (\<lambda>r'. clash r' r) rows then Err Store_Internal else Ok (rows @ [r]))"

definition update_rows :: "('r \<Rightarrow> bool) \<Rightarrow> ('r \<Rightarrow> 'r) \<Rightarrow> 'r list \<Rightarrow> 'r list" where
  "update_rows p f rows = map (\<lambda>r. if p r then f r else r) rows"

definition count_rows :: "('r \<Rightarrow> bool) \<Rightarrow> 'r list \<Rightarrow> nat" where
  "count_rows p rows = length (filter p rows)"

lemma update_rows_simps [simp]:
  "update_rows p f [] = []"
  "update_rows p f (r # rows) = (if p r then f r else r) # update_rows p f rows"
  "update_rows p f (rows @ rows') = update_rows p f rows @ update_rows p f rows'"
  by (simp_all add: update_rows_def)

lemma count_rows_simps [simp]:
  "count_rows p [] = 0"
  "count_rows p (r # rows) = (if p r then Suc (count_rows p rows) else count_rows p rows)"
  "count_rows p (rows @ rows') = count_rows p rows + count_rows p rows'"
  by (simp_all add: count_rows_def)

lemma update_rows_id: "(\<And>r. r \<in> set rows \<Longrightarrow> \<not> p r) \<Longrightarrow> update_rows p f rows = rows"
  by (induction rows) simp_all

lemma count_rows_0_iff: "count_rows p rows = 0 \<longleftrightarrow> (\<forall>r \<in> set rows. \<not> p r)"
  by (induction rows) simp_all

lemma insert_row_ok_iff:
  "insert_row clash r rows = Ok rows' \<longleftrightarrow>
    rows' = rows @ [r] \<and> (\<forall>r' \<in> set rows. \<not> clash r' r)"
  by (auto simp add: insert_row_def list_ex_iff)

lemma find_update_rows:
  assumes "\<And>r. q (f r) \<longleftrightarrow> q r"
  shows "find q (update_rows p f rows) = map_option (\<lambda>r. if p r then f r else r) (find q rows)"
  using assms by (induction rows) auto

lemma find_append:
  "find p (xs @ ys) = (case find p xs of None \<Rightarrow> find p ys | Some x \<Rightarrow> Some x)"
  by (induction xs) auto

lemma find_row: "find p rows = Some r \<Longrightarrow> r \<in> set rows \<and> p r"
  by (auto simp add: find_Some_iff)

end
