(* ===== verification/Command_Journal.thy ===== *)
theory Command_Journal
  imports Store_Schema
begin

text \<open>
  The durable command journal (\<open>crates/mengxia-store-sqlite/src/asset_repository.rs\<close>): the
  validator every stored row passes before it is believed, the binding of a row to a
  request, claims, rejections and the allocation of event commit sequences.  The journal
  runs over the \<open>uuid\<close>, \<open>time\<close> and \<open>sha2\<close> crates, gathered in \<open>store_env\<close>.
\<close>

section \<open>Context and bindings\<close>

record store_env =
  env_uuid :: uuid_api
  env_year_of :: "int \<Rightarrow> int option"
  env_sha256 :: "bytes \<Rightarrow> bytes"

record store_context =
  owner_uid :: u32
  context_runtime_id :: bytes

record command_binding =
  binding_command_id :: uuid
  binding_operation_id :: string
  binding_digest :: sha256_digest

definition ASSET_INGEST_COPY_V1 :: string where "ASSET_INGEST_COPY_V1 = ''asset.ingest.v1''"
definition ASSET_REVISION_CREATE_V1 :: string where
  "ASSET_REVISION_CREATE_V1 = ''asset.revision.create.v1''"
definition BLOB_LOCATION_RECORD_V1 :: string where
  "BLOB_LOCATION_RECORD_V1 = ''blob.location.record.v1''"
definition ASSET_MATERIALIZE_V1 :: string where "ASSET_MATERIALIZE_V1 = ''asset.materialize.v1''"
definition ASSET_RETIRE_V1 :: string where "ASSET_RETIRE_V1 = ''asset.retire.v1''"
definition ASSET_RESTORE_V1 :: string where "ASSET_RESTORE_V1 = ''asset.restore.v1''"
definition PROJECT_CREATE_V1 :: string where "PROJECT_CREATE_V1 = ''project.create.v1''"
definition PROJECT_SPEC_REVISE_V1 :: string where
  "PROJECT_SPEC_REVISE_V1 = ''project.spec.revise.v1''"
definition SUBJECT_CREATE_V1 :: string where "SUBJECT_CREATE_V1 = ''subject.create.v1''"
definition WORK_CREATE_V1 :: string where "WORK_CREATE_V1 = ''work.create.v1''"
definition WORK_REVISE_V1 :: string where "WORK_REVISE_V1 = ''work.revise.v1''"
definition TAKE_CREATE_V1 :: string where "TAKE_CREATE_V1 = ''take.create.v1''"
definition TAKE_TRANSITION_V1 :: string where "TAKE_TRANSITION_V1 = ''take.transition.v1''"
definition TAKE_REOPEN_V1 :: string where "TAKE_REOPEN_V1 = ''take.reopen.v1''"

lemmas operation_ids =
  ASSET_INGEST_COPY_V1_def ASSET_REVISION_CREATE_V1_def BLOB_LOCATION_RECORD_V1_def
  ASSET_MATERIALIZE_V1_def ASSET_RETIRE_V1_def ASSET_RESTORE_V1_def PROJECT_CREATE_V1_def
  PROJECT_SPEC_REVISE_V1_def SUBJECT_CREATE_V1_def WORK_CREATE_V1_def WORK_REVISE_V1_def
  TAKE_CREATE_V1_def TAKE_TRANSITION_V1_def TAKE_REOPEN_V1_def

definition require_operation :: "command_binding \<Rightarrow> string \<Rightarrow> asset_store_error + unit" where
  "require_operation b expected = ensure (binding_operation_id b = expected) Store_Validation"

definition stamp :: "timestamp \<Rightarrow> int \<times> int" where
  "stamp t = (unix_seconds t, int (subsec_nanoseconds t))"

section \<open>Stored values\<close>

definition id_bytes :: "bytes option \<Rightarrow> asset_store_error + bytes" where
  "id_bytes v =
    and_then (ok_or Store_StorageCorruption v) (\<lambda>bs.
    and_then (ensure (length bs = 16) Store_StorageCorruption) (\<lambda>_. Ok bs))"

definition stored_id :: "store_env \<Rightarrow> bytes option \<Rightarrow> asset_store_error + uuid" where
  "stored_id E v =
    and_then (id_bytes v) (\<lambda>bs. map_err (\<lambda>_. Store_StorageCorruption) (id_from_bytes (env_uuid E) bs))"

definition revision_bytes :: "u64 \<Rightarrow> bytes" where
  "revision_bytes v = u64_to_be_bytes v"

definition parse_revision :: "bytes \<Rightarrow> asset_store_error + revision_no" where
  "parse_revision bs =
    (if length bs = 8 then Ok (u64_from_be_bytes bs) else Err Store_StorageCorruption)"

definition u32_try_from :: "int \<Rightarrow> u32 option" where
  "u32_try_from v = (if 0 \<le> v \<and> v < 2 ^ 32 then Some (word_of_int v) else None)"

definition persisted_timestamp :: "store_env \<Rightarrow> int \<times> int \<Rightarrow> asset_store_error + timestamp" where
  "persisted_timestamp E at =
    and_then (ok_or Store_StorageCorruption (u32_try_from (snd at))) (\<lambda>nanos.
      map_err (\<lambda>_. Store_StorageCorruption)
        (from_unix_seconds_nanos (env_year_of E) (fst at) (unat nanos)))"

definition parse_safe_code :: "command_row \<Rightarrow> asset_store_error + error_code" where
  "parse_safe_code row =
    and_then (ok_or Store_StorageCorruption (cmd_safe_error_code row)) (\<lambda>s.
      map_err (\<lambda>_. Store_StorageCorruption) (error_code_from_str s))"

section \<open>Codes a command may be settled with\<close>

fun is_pure_rejection_code :: "error_code \<Rightarrow> bool" where
  "is_pure_rejection_code c =
    (c \<in> set [NotFound, Conflict, InvalidTransition, RevisionExhausted])"

fun is_external_recovery_code :: "error_code \<Rightarrow> bool" where
  "is_external_recovery_code c =
    (c \<in> set [StorageConfigurationError, StorageIoError, IdGenerationUnavailable, InternalError])"

fun is_external_terminal_code :: "error_code \<Rightarrow> bool" where
  "is_external_terminal_code c =
    (c \<in> set [ValidationError, SourceModifiedDuringIngest, StorageIoError, StorageCorruption,
      StorageConfigurationError, Backpressure, InternalError, IdGenerationUnavailable,
      DeadlineExceeded, OperationCancelled])"

fun is_materialization_recovery_code :: "error_code \<Rightarrow> bool" where
  "is_materialization_recovery_code c =
    (c \<in> set [StorageConfigurationError, StorageIoError, IdGenerationUnavailable, InternalError])"

fun is_materialization_terminal_code :: "error_code \<Rightarrow> bool" where
  "is_materialization_terminal_code c =
    (c \<in> set [ValidationError, Conflict, StorageIoError, StorageCorruption,
      StorageConfigurationError, Backpressure, InternalError, IdGenerationUnavailable,
      DeadlineExceeded, OperationCancelled])"

definition code_is :: "(error_code \<Rightarrow> bool) \<Rightarrow> error_code option \<Rightarrow> bool" where
  "code_is p code = (case code of None \<Rightarrow> False | Some c \<Rightarrow> p c)"

section \<open>The row validator\<close>

definition pure_matrix :: "string \<Rightarrow> command_row \<Rightarrow> error_code option \<Rightarrow> bool" where
  "pure_matrix kind row code =
    (if cmd_state row = ''COMPLETED'' then cmd_result_kind row = Some kind
     else if cmd_state row = ''TERMINAL_REJECTED'' then code_is is_pure_rejection_code code
     else False)"

definition external_matrix ::
  "string \<Rightarrow> (error_code \<Rightarrow> bool) \<Rightarrow> (error_code \<Rightarrow> bool) \<Rightarrow> command_row \<Rightarrow> error_code option \<Rightarrow> bool"
where
  "external_matrix kind terminal recovery row code =
    (if cmd_state row = ''CLAIMED'' then True
     else if cmd_state row = ''COMPLETED'' then cmd_result_kind row = Some kind
     else if cmd_state row = ''TERMINAL_REJECTED'' then code_is terminal code
     else if cmd_state row = ''RECOVERY_REQUIRED'' then code_is recovery code
     else False)"

definition validate_known_command_matrix ::
  "command_row \<Rightarrow> error_code option \<Rightarrow> asset_store_error + unit" where
  "validate_known_command_matrix row code =
    (let operation = cmd_operation_id row in
     ensure
      (if operation = ASSET_INGEST_COPY_V1
         then external_matrix ''ASSET'' is_external_terminal_code is_external_recovery_code row code
       else if operation = ASSET_REVISION_CREATE_V1 then pure_matrix ''ASSET_REVISION'' row code
       else if operation = BLOB_LOCATION_RECORD_V1 then pure_matrix ''LOCATION'' row code
       else if operation = ASSET_MATERIALIZE_V1
         then external_matrix ''ASSET_REVISION'' is_materialization_terminal_code
                is_materialization_recovery_code row code
       else if operation = ASSET_RETIRE_V1 \<or> operation = ASSET_RESTORE_V1
         then pure_matrix ''ASSET_LIFECYCLE'' row code
       else if operation = PROJECT_CREATE_V1 then pure_matrix ''PROJECT'' row code
       else if operation = PROJECT_SPEC_REVISE_V1 then pure_matrix ''PROJECT_SPEC_REVISION'' row code
       else if operation = SUBJECT_CREATE_V1 then pure_matrix ''SUBJECT'' row code
       else if operation = WORK_CREATE_V1 then pure_matrix ''WORK_ITEM'' row code
       else if operation = WORK_REVISE_V1 then pure_matrix ''WORK_REVISION'' row code
       else if operation = TAKE_CREATE_V1 \<or> operation = TAKE_TRANSITION_V1
           \<or> operation = TAKE_REOPEN_V1
         then pure_matrix ''TAKE'' row code
       else True)
      Store_StorageCorruption)"

definition ends_with :: "'a list \<Rightarrow> 'a list \<Rightarrow> bool" where
  "ends_with s t = (length t \<le> length s \<and> drop (length s - length t) s = t)"

definition operation_id_char :: "char \<Rightarrow> bool" where
  "operation_id_char c = (is_ascii_lower c \<or> is_ascii_digit c \<or> c \<in> set ''._-'')"

definition row_header_ok :: "command_row \<Rightarrow> bool" where
  "row_header_ok row =
    (cmd_principal_kind row = ''LOCAL_OWNER_UID_V1''
     \<and> u32_try_from (cmd_principal_uid row) \<noteq> None
     \<and> cmd_operation_id row \<noteq> []
     \<and> length (cmd_operation_id row) \<le> 128
     \<and> ends_with (cmd_operation_id row) ''.v1''
     \<and> is_ascii_lower (hd (cmd_operation_id row))
     \<and> list_all operation_id_char (cmd_operation_id row))"

definition payload_present :: "store_env \<Rightarrow> command_row \<Rightarrow> asset_store_error + bool" where
  "payload_present E row =
    (case (cmd_result_schema_version row, cmd_result_payload row, cmd_result_payload_sha256 row) of
       (None, None, None) \<Rightarrow> Ok False
     | (Some version, Some payload, Some digest) \<Rightarrow>
         (if version = 1 \<and> payload \<noteq> [] \<and> length payload \<le> 512 \<and> digest = env_sha256 E payload
          then Ok True else Err Store_StorageCorruption)
     | _ \<Rightarrow> Err Store_StorageCorruption)"

definition validate_completed :: "store_env \<Rightarrow> command_row \<Rightarrow> bool \<Rightarrow> asset_store_error + unit" where
  "validate_completed E row present =
    (case cmd_result_kind row of
       None \<Rightarrow> Err Store_StorageCorruption
     | Some kind \<Rightarrow>
       (if kind = ''ASSET'' \<and> \<not> present then
          and_then (stored_id E (cmd_result_id row)) (\<lambda>_.
          and_then (stored_id E (cmd_result_location_id row)) (\<lambda>_. Ok ()))
        else if kind \<in> set [''ASSET_REVISION'', ''LOCATION''] \<and> \<not> present
            \<and> cmd_result_location_id row = None then
          and_then (stored_id E (cmd_result_id row)) (\<lambda>_. Ok ())
        else if present \<and> cmd_result_location_id row = None then
          and_then (stored_id E (cmd_result_id row)) (\<lambda>_.
          and_then (ok_or Store_StorageCorruption (cmd_result_payload row)) (\<lambda>payload.
          and_then (result_payload_decode (env_uuid E) kind payload) (\<lambda>_. Ok ())))
        else Err Store_StorageCorruption))"

definition no_result :: "command_row \<Rightarrow> bool \<Rightarrow> bool" where
  "no_result row present =
    (cmd_result_kind row = None \<and> cmd_result_id row = None \<and> cmd_result_location_id row = None
     \<and> \<not> present)"

definition validate_state ::
  "store_env \<Rightarrow> command_row \<Rightarrow> bool \<Rightarrow> error_code option \<Rightarrow> asset_store_error + unit" where
  "validate_state E row present code =
    (if cmd_state row = ''CLAIMED'' \<and> no_result row present \<and> code = None then Ok ()
     else if cmd_state row = ''COMPLETED'' \<and> code = None then validate_completed E row present
     else if cmd_state row \<in> set [''TERMINAL_REJECTED'', ''RECOVERY_REQUIRED'']
         \<and> no_result row present \<and> code \<noteq> None then Ok ()
     else Err Store_StorageCorruption)"

definition stored_code :: "command_row \<Rightarrow> asset_store_error + error_code option" where
  "stored_code row =
    (case cmd_safe_error_code row of
       None \<Rightarrow> Ok None
     | Some s \<Rightarrow> and_then (map_err (\<lambda>_. Store_StorageCorruption) (error_code_from_str s)) (\<lambda>c. Ok (Some c)))"

definition validate_command_row :: "store_env \<Rightarrow> command_row \<Rightarrow> asset_store_error + command_row" where
  "validate_command_row E row =
    and_then (stored_id E (Some (cmd_id row))) (\<lambda>_.
    and_then (stored_id E (Some (cmd_runtime_id row))) (\<lambda>_.
    and_then (ensure (length (cmd_digest row) = 32) Store_StorageCorruption) (\<lambda>_.
    and_then (ensure (row_header_ok row) Store_StorageCorruption) (\<lambda>_.
    and_then (persisted_timestamp E (cmd_created_at row)) (\<lambda>_.
    and_then (persisted_timestamp E (cmd_updated_at row)) (\<lambda>_.
    and_then (stored_code row) (\<lambda>code.
    and_then (payload_present E row) (\<lambda>present.
    and_then (validate_state E row present code) (\<lambda>_.
    and_then (validate_known_command_matrix row code) (\<lambda>_. Ok row))))))))))"

section \<open>Reading, claiming and settling\<close>

definition read_command :: "database \<Rightarrow> command_binding \<Rightarrow> command_row option" where
  "read_command db b = find (\<lambda>row. cmd_id row = binding_command_id b) (commands db)"

definition binding_matches :: "command_row \<Rightarrow> command_binding \<Rightarrow> u32 \<Rightarrow> bool" where
  "binding_matches row b uid =
    (cmd_id row = binding_command_id b
     \<and> cmd_operation_id row = binding_operation_id b
     \<and> cmd_principal_kind row = ''LOCAL_OWNER_UID_V1''
     \<and> cmd_principal_uid row = uint uid
     \<and> cmd_digest row = binding_digest b)"

definition claimed_row :: "store_context \<Rightarrow> command_binding \<Rightarrow> timestamp \<Rightarrow> command_row" where
  "claimed_row ctx b at =
    \<lparr>cmd_id = binding_command_id b, cmd_operation_id = binding_operation_id b,
     cmd_principal_kind = ''LOCAL_OWNER_UID_V1'', cmd_principal_uid = uint (owner_uid ctx),
     cmd_digest = binding_digest b, cmd_runtime_id = context_runtime_id ctx,
     cmd_state = ''CLAIMED'', cmd_result_kind = None, cmd_result_id = None,
     cmd_result_location_id = None, cmd_result_schema_version = None, cmd_result_payload = None,
     cmd_result_payload_sha256 = None, cmd_safe_error_code = None,
     cmd_created_at = stamp at, cmd_updated_at = stamp at\<rparr>"

definition insert_claim ::
  "store_context \<Rightarrow> command_binding \<Rightarrow> timestamp \<Rightarrow> database \<Rightarrow> asset_store_error + database" where
  "insert_claim ctx b at db =
    and_then (insert_row (\<lambda>r r'. cmd_id r = cmd_id r') (claimed_row ctx b at) (commands db)) (\<lambda>rows.
      Ok (db\<lparr>commands := rows\<rparr>))"

definition update_command ::
  "(command_row \<Rightarrow> bool) \<Rightarrow> (command_row \<Rightarrow> command_row) \<Rightarrow> database \<Rightarrow> nat \<times> database" where
  "update_command p f db =
    (count_rows p (commands db), db\<lparr>commands := update_rows p f (commands db)\<rparr>)"

definition EVENT_SEQUENCE_MAX :: int where "EVENT_SEQUENCE_MAX = 9223372036854775807"

definition allocate_event_sequences :: "int \<Rightarrow> database \<Rightarrow> asset_store_error + (int \<times> database)" where
  "allocate_event_sequences n db =
    (if 1 \<le> n \<and> n \<le> 64 \<and> last_sequence db \<le> EVENT_SEQUENCE_MAX - n
     then Ok (last_sequence db + 1, db\<lparr>last_sequence := last_sequence db + n\<rparr>)
     else Err Store_RevisionExhausted)"

section \<open>Outcomes\<close>

datatype command_result =
    ManagedRegistrationResult uuid uuid uuid uuid uuid sha256_digest
  | AssetRevisionResult uuid uuid revision_no timestamp
  | LocationResult sha256_digest uuid revision_no
  | VersionedResult bytes versioned_result_payload timestamp

datatype mutation_outcome =
    Applied command_result
  | Replay command_result
  | TerminalRejected error_code
  | RecoveryRequired error_code

definition reject_row :: "error_code \<Rightarrow> timestamp \<Rightarrow> command_row \<Rightarrow> command_row" where
  "reject_row code at row =
    row\<lparr>cmd_state := ''TERMINAL_REJECTED'',
        cmd_safe_error_code := Some (error_code_as_str code), cmd_updated_at := stamp at\<rparr>"

definition commit_rejection ::
  "command_binding \<Rightarrow> error_code \<Rightarrow> timestamp \<Rightarrow> database \<Rightarrow>
    asset_store_error + (mutation_outcome \<times> database)" where
  "commit_rejection b code at db =
    Ok (TerminalRejected code,
        snd (update_command (\<lambda>row. cmd_id row = binding_command_id b) (reject_row code at) db))"

section \<open>What the journal guarantees\<close>

text \<open>The three crates agree with what the writer relies on: a digest is 32 bytes long.  The
  clock hands out instants the calendar reads back.\<close>

definition clock_ok :: "store_env \<Rightarrow> timestamp \<Rightarrow> bool" where
  "clock_ok E at = is_ok (persisted_timestamp E (stamp at))"

definition binding_wf :: "store_env \<Rightarrow> store_context \<Rightarrow> command_binding \<Rightarrow> bool" where
  "binding_wf E ctx b =
    (id_wf (env_uuid E) (binding_command_id b) \<and> id_wf (env_uuid E) (context_runtime_id ctx)
     \<and> length (binding_digest b) = 32)"

definition journal_wf :: "store_env \<Rightarrow> database \<Rightarrow> bool" where
  "journal_wf E db =
    (distinct (map cmd_id (commands db))
     \<and> list_all (\<lambda>row. is_ok (validate_command_row E row)) (commands db))"

lemma find_rows_None: "find p rows = None \<longleftrightarrow> (\<forall>r \<in> set rows. \<not> p r)"
  by (auto simp add: find_None_iff)

lemma read_command_None:
  "read_command db b = None \<longleftrightarrow> binding_command_id b \<notin> cmd_id ` set (commands db)"
  by (force simp add: read_command_def find_None_iff)

lemma read_command_Some: "read_command db b = Some row \<Longrightarrow>
    row \<in> set (commands db) \<and> cmd_id row = binding_command_id b"
  by (auto simp add: read_command_def find_Some_iff)

lemma revision_bytes_parse: "parse_revision bs = Ok r \<Longrightarrow> revision_bytes r = bs"
  by (auto simp add: parse_revision_def revision_bytes_def u64_to_from_be_bytes split: if_splits)

lemma parse_revision_bytes [simp]: "parse_revision (revision_bytes r) = Ok r"
  by (simp add: parse_revision_def revision_bytes_def)

lemma insert_claim_fresh:
  assumes "read_command db b = None"
  shows "insert_claim ctx b at db = Ok (db\<lparr>commands := commands db @ [claimed_row ctx b at]\<rparr>)"
proof -
  have "\<not> list_ex (\<lambda>r. cmd_id r = cmd_id (claimed_row ctx b at)) (commands db)"
    using assms by (force simp add: read_command_None list_ex_iff claimed_row_def)
  then show ?thesis by (simp add: insert_claim_def insert_row_def)
qed

lemma update_command_fresh:
  assumes "binding_command_id b \<notin> cmd_id ` set rows" "cmd_id row = binding_command_id b"
    and "commands db = rows @ [row]"
  shows "update_command (\<lambda>r. cmd_id r = binding_command_id b \<and> q r) f db =
    (if q row then 1 else 0, db\<lparr>commands := rows @ [if q row then f row else row]\<rparr>)"
proof -
  have none: "\<not> (cmd_id r = binding_command_id b \<and> q r)" if "r \<in> set rows" for r
    using assms(1) that by force
  have "update_rows (\<lambda>r. cmd_id r = binding_command_id b \<and> q r) f rows = rows"
    using none by (rule update_rows_id)
  moreover have "count_rows (\<lambda>r. cmd_id r = binding_command_id b \<and> q r) rows = 0"
    using none by (simp add: count_rows_0_iff)
  ultimately show ?thesis using assms(2,3) by (simp add: update_command_def)
qed

lemma commit_rejection_fresh:
  assumes "binding_command_id b \<notin> cmd_id ` set rows" "cmd_id row = binding_command_id b"
    and "commands db = rows @ [row]"
  shows "commit_rejection b code at db =
    Ok (TerminalRejected code, db\<lparr>commands := rows @ [reject_row code at row]\<rparr>)"
  using update_command_fresh [OF assms, of "\<lambda>_. True" "reject_row code at"]
  by (simp add: commit_rejection_def)

end
