(* ===== verification/Command_Replay.thy ===== *)
theory Command_Replay
  imports Command_Journal
begin

text \<open>
  How a settled command is answered again
  (\<open>crates/mengxia-store-sqlite/src/asset_repository.rs\<close>: \<open>replay_pure\<close>, \<open>replay_result\<close>;
  \<open>creative_repository.rs\<close>: \<open>replay_creative_result\<close>, \<open>replay_existing\<close>, \<open>complete_versioned\<close>).
  The stored result is believed only when the rows and the single event it names are
  there.  The locale \<open>pure_command\<close> states the contract of an operation that settles its
  command in one transaction and proves once that repeating the command is harmless.
\<close>

section \<open>Replaying results of creative commands\<close>

definition count_events ::
  "database \<Rightarrow> bytes \<Rightarrow> string \<Rightarrow> string \<Rightarrow> bytes \<Rightarrow> bytes \<Rightarrow> nat" where
  "count_events db command event_type aggregate_kind aggregate_id aggregate_revision =
    count_rows (\<lambda>e. ev_command_id e = command \<and> ev_type e = event_type
      \<and> ev_aggregate_kind e = aggregate_kind \<and> ev_aggregate_id e = aggregate_id
      \<and> ev_aggregate_revision e = aggregate_revision) (domain_events db)"

definition first_row :: "'a list \<Rightarrow> 'a option" where
  "first_row rows = (case rows of [] \<Rightarrow> None | r # _ \<Rightarrow> Some r)"

definition check_observed ::
  "bytes \<Rightarrow> u64 \<Rightarrow> u32 \<Rightarrow> (bytes \<times> bytes \<times> int \<times> nat) option \<Rightarrow> asset_store_error + u64" where
  "check_observed expected_id revision sequence observed =
    and_then (ok_or Store_StorageCorruption observed) (\<lambda>(stored_id, stored_revision, stored_sequence, event_count).
    and_then (parse_revision stored_revision) (\<lambda>current.
    and_then (ensure (stored_id = expected_id \<and> \<not> current < revision
        \<and> stored_sequence = uint sequence \<and> event_count = 1) Store_StorageCorruption) (\<lambda>_.
      Ok revision)))"

definition check_project ::
  "database \<Rightarrow> command_row \<Rightarrow> bytes \<Rightarrow> bytes \<Rightarrow> u64 \<Rightarrow> u32 \<Rightarrow> asset_store_error + u64" where
  "check_project db row primary spec_revision_id revision sequence =
    check_observed spec_revision_id revision sequence
      (first_row [(ps_id ps, pr_revision p, ps_sequence ps,
          count_events db (cmd_id row) ''project.created.v1'' ''PROJECT'' (pr_id p) (revision_bytes revision)).
        p \<leftarrow> projects db, ps \<leftarrow> project_spec_revisions db,
        ps_project_id ps = pr_id p \<and> pr_id p = primary \<and> ps_id ps = spec_revision_id])"

definition check_project_spec ::
  "database \<Rightarrow> command_row \<Rightarrow> bytes \<Rightarrow> bytes \<Rightarrow> u64 \<Rightarrow> u32 \<Rightarrow> asset_store_error + u64" where
  "check_project_spec db row primary project_id revision sequence =
    check_observed primary revision sequence
      (first_row [(ps_id ps, pr_revision p, ps_sequence ps,
          count_events db (cmd_id row) ''project.spec.revised.v1'' ''PROJECT_SPEC_REVISION'' primary
            (revision_bytes revision)).
        ps \<leftarrow> project_spec_revisions db, p \<leftarrow> projects db,
        pr_id p = ps_project_id ps \<and> ps_id ps = primary \<and> ps_project_id ps = project_id])"

definition check_subject :: "database \<Rightarrow> command_row \<Rightarrow> bytes \<Rightarrow> u64 \<Rightarrow> asset_store_error + u64" where
  "check_subject db row primary revision =
    and_then (ok_or Store_StorageCorruption (find (\<lambda>s. su_id s = primary) (subjects db))) (\<lambda>s.
    and_then (parse_revision (su_revision s)) (\<lambda>stored.
    and_then (ensure (stored = revision
        \<and> count_events db (cmd_id row) ''subject.created.v1'' ''SUBJECT'' (su_id s) (su_revision s) = 1)
      Store_StorageCorruption) (\<lambda>_. Ok revision)))"

definition check_work_item ::
  "database \<Rightarrow> command_row \<Rightarrow> bytes \<Rightarrow> bytes \<Rightarrow> u64 \<Rightarrow> u32 \<Rightarrow> asset_store_error + u64" where
  "check_work_item db row primary work_revision_id revision sequence =
    check_observed work_revision_id revision sequence
      (first_row [(wr_id wr, wi_revision w, wr_sequence wr,
          count_events db (cmd_id row) ''work.created.v1'' ''WORK_ITEM'' (wi_id w) (revision_bytes revision)).
        w \<leftarrow> work_items db, wr \<leftarrow> work_revisions db,
        wr_work_item_id wr = wi_id w \<and> wi_id w = primary \<and> wr_id wr = work_revision_id])"

definition check_work_revision ::
  "database \<Rightarrow> command_row \<Rightarrow> bytes \<Rightarrow> bytes \<Rightarrow> u64 \<Rightarrow> u32 \<Rightarrow> asset_store_error + u64" where
  "check_work_revision db row primary work_item_id revision sequence =
    check_observed primary revision sequence
      (first_row [(wr_id wr, wi_revision w, wr_sequence wr,
          count_events db (cmd_id row) ''work.revised.v1'' ''WORK_REVISION'' primary (revision_bytes revision)).
        wr \<leftarrow> work_revisions db, w \<leftarrow> work_items db,
        wi_id w = wr_work_item_id wr \<and> wr_id wr = primary \<and> wr_work_item_id wr = work_item_id])"

definition expected_take_event :: "string \<Rightarrow> take_state \<Rightarrow> asset_store_error + string" where
  "expected_take_event operation st =
    (if operation = ''take.create.v1'' then Ok ''take.created.v1''
     else if operation = ''take.reopen.v1'' then Ok ''take.reopened.v1''
     else if operation = ''take.transition.v1'' then
       (case st of
          Shortlisted \<Rightarrow> Ok ''take.shortlisted.v1''
        | Selected \<Rightarrow> Ok ''take.selected.v1''
        | Approved \<Rightarrow> Ok ''take.approved.v1''
        | Rejected \<Rightarrow> Ok ''take.rejected.v1''
        | Superseded \<Rightarrow> Ok ''take.superseded.v1''
        | Candidate \<Rightarrow> Err Store_StorageCorruption)
     else Err Store_StorageCorruption)"

definition count_take_edges :: "database \<Rightarrow> bytes \<Rightarrow> string \<Rightarrow> bytes \<Rightarrow> bytes \<Rightarrow> nat" where
  "count_take_edges db command kind source target =
    count_rows (\<lambda>r. rel_command_id r = command \<and> rel_kind r = kind \<and> rel_source_kind r = ''TAKE''
      \<and> rel_source_id r = source \<and> rel_target_kind r = ''TAKE'' \<and> rel_target_id r = target)
      (relationships db)"

definition take_relationship_count ::
  "database \<Rightarrow> command_row \<Rightarrow> bytes \<Rightarrow> take_state \<Rightarrow> bytes option \<Rightarrow> asset_store_error + nat" where
  "take_relationship_count db row primary st related =
    (let operation = cmd_operation_id row in
     case related of
       None \<Rightarrow>
         (if operation = ''take.create.v1'' \<or> operation = ''take.transition.v1'' then Ok 0
          else Err Store_StorageCorruption)
     | Some other \<Rightarrow>
         (if operation = ''take.reopen.v1''
            then Ok (count_take_edges db (cmd_id row) ''TAKE_REOPENS'' primary other)
          else if operation = ''take.transition.v1'' \<and> st = Selected
            then Ok (count_take_edges db (cmd_id row) ''TAKE_SUPERSEDES'' primary other)
          else if operation = ''take.transition.v1'' \<and> st = Superseded
            then Ok (count_take_edges db (cmd_id row) ''TAKE_SUPERSEDES'' other primary)
          else Err Store_StorageCorruption))"

definition check_take ::
  "database \<Rightarrow> command_row \<Rightarrow> bytes \<Rightarrow> u64 \<Rightarrow> u32 \<Rightarrow> take_state \<Rightarrow> bytes \<Rightarrow> bytes option \<Rightarrow>
    asset_store_error + u64" where
  "check_take db row primary revision ordinal st asset related =
    and_then (expected_take_event (cmd_operation_id row) st) (\<lambda>expected_event.
    and_then (ok_or Store_StorageCorruption (find (\<lambda>t. tk_id t = primary) (takes db))) (\<lambda>t.
    and_then (parse_revision (tk_revision t)) (\<lambda>current.
    and_then (ensure (u32_try_from (tk_ordinal t) = Some ordinal \<and> tk_primary_asset_id t = asset
        \<and> \<not> current < revision
        \<and> count_events db (cmd_id row) expected_event ''TAKE'' (tk_id t) (revision_bytes revision) = 1)
      Store_StorageCorruption) (\<lambda>_.
    and_then (take_relationship_count db row primary st related) (\<lambda>n.
    and_then (ensure (\<not> (related \<noteq> None \<and> n \<noteq> 1)) Store_StorageCorruption) (\<lambda>_.
      Ok revision))))))"

fun check_payload ::
  "database \<Rightarrow> command_row \<Rightarrow> bytes \<Rightarrow> versioned_result_payload \<Rightarrow> asset_store_error + u64" where
  "check_payload db row primary (ProjectPayload i r s) = check_project db row primary i r s"
| "check_payload db row primary (ProjectSpecRevisionPayload i r s) = check_project_spec db row primary i r s"
| "check_payload db row primary (SubjectPayload r) = check_subject db row primary r"
| "check_payload db row primary (WorkItemPayload i r s) = check_work_item db row primary i r s"
| "check_payload db row primary (WorkRevisionPayload i r s) = check_work_revision db row primary i r s"
| "check_payload db row primary (TakePayload r n st asset related) =
    check_take db row primary r n st asset related"
| "check_payload db row primary (AssetLifecyclePayload r l) = Err Store_StorageCorruption"

definition replay_creative_result ::
  "store_env \<Rightarrow> database \<Rightarrow> command_row \<Rightarrow> asset_store_error + command_result" where
  "replay_creative_result E db row =
    and_then (id_bytes (cmd_result_id row)) (\<lambda>primary.
    and_then (ok_or Store_StorageCorruption (cmd_result_kind row)) (\<lambda>kind.
    and_then (ok_or Store_StorageCorruption (cmd_result_payload row)) (\<lambda>bs.
    and_then (result_payload_decode (env_uuid E) kind bs) (\<lambda>payload.
    and_then (check_payload db row primary payload) (\<lambda>revision.
    and_then (ensure (revision \<noteq> 0) Store_StorageCorruption) (\<lambda>_.
    and_then (persisted_timestamp E (cmd_updated_at row)) (\<lambda>occurred_at.
      Ok (VersionedResult primary payload occurred_at))))))))"

section \<open>Replaying results of asset commands\<close>

definition command_events :: "database \<Rightarrow> bytes \<Rightarrow> string \<Rightarrow> string \<Rightarrow> bytes \<Rightarrow> event_row list" where
  "command_events db command event_type aggregate_kind aggregate_id =
    filter (\<lambda>e. ev_command_id e = command \<and> ev_type e = event_type
      \<and> ev_aggregate_kind e = aggregate_kind \<and> ev_aggregate_id e = aggregate_id) (domain_events db)"

definition as_id_result :: "store_env \<Rightarrow> bytes \<Rightarrow> asset_store_error + uuid" where
  "as_id_result E bs = stored_id E (Some bs)"

definition digest_of :: "bytes \<Rightarrow> asset_store_error + sha256_digest" where
  "digest_of bs = and_then (ensure (length bs = 32) Store_StorageCorruption) (\<lambda>_. Ok bs)"

definition lifecycle_event_type :: "string \<Rightarrow> string" where
  "lifecycle_event_type operation =
    (if operation = ASSET_RETIRE_V1 then ''asset.retired.v1'' else ''asset.restored.v1'')"

definition replay_lifecycle ::
  "store_env \<Rightarrow> database \<Rightarrow> command_row \<Rightarrow> bytes \<Rightarrow> asset_store_error + command_result" where
  "replay_lifecycle E db row result_id =
    and_then (ok_or Store_StorageCorruption (cmd_result_kind row)) (\<lambda>kind.
    and_then (ok_or Store_StorageCorruption (cmd_result_payload row)) (\<lambda>bs.
    and_then (result_payload_decode (env_uuid E) kind bs) (\<lambda>payload.
      case payload of
        AssetLifecyclePayload revision _ \<Rightarrow>
          and_then (ok_or Store_StorageCorruption (find (\<lambda>a. as_id a = result_id) (assets db))) (\<lambda>a.
          and_then (parse_revision (as_revision a)) (\<lambda>stored.
          and_then (ensure (\<not> stored < revision
              \<and> count_rows (\<lambda>e. ev_command_id e = cmd_id row
                  \<and> ev_type e = lifecycle_event_type (cmd_operation_id row)
                  \<and> ev_aggregate_kind e = ''ASSET'' \<and> ev_aggregate_id e = as_id a
                  \<and> ev_aggregate_revision e = revision_bytes revision
                  \<and> ev_payload e = None \<and> ev_payload_sha256 e = None) (domain_events db) = 1)
            Store_StorageCorruption) (\<lambda>_.
          and_then (persisted_timestamp E (cmd_updated_at row)) (\<lambda>at.
            Ok (VersionedResult result_id payload at)))))
      | _ \<Rightarrow> Err Store_StorageCorruption)))"

definition replay_registration ::
  "store_env \<Rightarrow> database \<Rightarrow> command_row \<Rightarrow> bytes \<Rightarrow> asset_store_error + command_result" where
  "replay_registration E db row result_id =
    and_then (id_bytes (cmd_result_location_id row)) (\<lambda>location.
    and_then (ok_or Store_StorageCorruption (first_row
      [(ar_id ar, rp_id r, rs_id rs, rm_blob_digest rm).
        a \<leftarrow> assets db, as_id a = result_id,
        ar \<leftarrow> asset_revisions db, ar_asset_id ar = as_id a \<and> ar_sequence ar = 1,
        r \<leftarrow> representations db, rp_asset_revision_id r = ar_id ar,
        rs \<leftarrow> resources db, rs_representation_id rs = rp_id r,
        rm \<leftarrow> resource_members db, rm_resource_id rm = rs_id rs \<and> rm_ordinal rm = 0,
        l \<leftarrow> locations db, lo_id l = location \<and> lo_blob_digest l = rm_blob_digest rm
          \<and> lo_custody l = ''MANAGED'' \<and> lo_durability l = ''DURABLE''
          \<and> lo_lifecycle l = ''AVAILABLE'' \<and> lo_revision l = revision_bytes 1,
        count_rows (\<lambda>x. rp_asset_revision_id x = ar_id ar) (representations db) = 1
          \<and> count_rows (\<lambda>x. rs_representation_id x = rp_id r) (resources db) = 1
          \<and> count_rows (\<lambda>x. rm_resource_id x = rs_id rs) (resource_members db) = 1
          \<and> length (command_events db (cmd_id row) ''asset.registered.v1'' ''ASSET'' (as_id a)) = 1
          \<and> count_rows (\<lambda>x. pv_command_id x = cmd_id row \<and> pv_type x = ''asset.ingested.copy.v1''
              \<and> pv_asset_revision_id x = ar_id ar \<and> pv_blob_digest x = Some (rm_blob_digest rm))
              (provenance_events db) = 1]))
      (\<lambda>(revision_id, representation_id, resource_id, digest).
    and_then (as_id_result E result_id) (\<lambda>asset.
    and_then (as_id_result E revision_id) (\<lambda>revision.
    and_then (as_id_result E representation_id) (\<lambda>representation.
    and_then (as_id_result E resource_id) (\<lambda>resource.
    and_then (as_id_result E location) (\<lambda>loc.
    and_then (digest_of digest) (\<lambda>d.
      Ok (ManagedRegistrationResult asset revision representation resource loc d)))))))))"

definition replay_asset_revision ::
  "store_env \<Rightarrow> database \<Rightarrow> command_row \<Rightarrow> bytes \<Rightarrow> asset_store_error + command_result" where
  "replay_asset_revision E db row result_id =
    and_then (ok_or Store_StorageCorruption (first_row
      [(ar_asset_id ar, ev_aggregate_revision de, ev_occurred_at de).
        ar \<leftarrow> asset_revisions db, ar_id ar = result_id,
        de \<leftarrow> command_events db (cmd_id row) ''asset.revision.created.v1'' ''ASSET_REVISION'' (ar_id ar),
        length (command_events db (cmd_id row) ''asset.revision.created.v1'' ''ASSET_REVISION''
          (ar_id ar)) = 1]))
      (\<lambda>(asset_id, revision, occurred).
    and_then (as_id_result E asset_id) (\<lambda>asset.
    and_then (as_id_result E result_id) (\<lambda>rid.
    and_then (parse_revision revision) (\<lambda>rno.
    and_then (persisted_timestamp E occurred) (\<lambda>at.
      Ok (AssetRevisionResult asset rid rno at))))))"

definition replay_location ::
  "store_env \<Rightarrow> database \<Rightarrow> command_row \<Rightarrow> bytes \<Rightarrow> asset_store_error + command_result" where
  "replay_location E db row result_id =
    and_then (ok_or Store_StorageCorruption (first_row
      [(lo_blob_digest l, ev_aggregate_revision de).
        l \<leftarrow> locations db, lo_id l = result_id \<and> lo_custody l = ''MANAGED''
          \<and> lo_durability l = ''DURABLE'' \<and> lo_lifecycle l = ''AVAILABLE'',
        de \<leftarrow> command_events db (cmd_id row) ''blob.location.recorded.v1'' ''BLOB'' (lo_blob_digest l),
        length (command_events db (cmd_id row) ''blob.location.recorded.v1'' ''BLOB''
          (lo_blob_digest l)) = 1]))
      (\<lambda>(digest, revision).
    and_then (digest_of digest) (\<lambda>d.
    and_then (as_id_result E result_id) (\<lambda>lid.
    and_then (parse_revision revision) (\<lambda>rno. Ok (LocationResult d lid rno)))))"

definition creative_operations :: "string list" where
  "creative_operations =
    [''project.create.v1'', ''project.spec.revise.v1'', ''subject.create.v1'', ''work.create.v1'',
     ''work.revise.v1'', ''take.create.v1'', ''take.transition.v1'', ''take.reopen.v1'']"

definition replay_result ::
  "store_env \<Rightarrow> database \<Rightarrow> command_row \<Rightarrow> asset_store_error + command_result" where
  "replay_result E db row =
    (if cmd_operation_id row \<in> set creative_operations then replay_creative_result E db row
     else and_then (id_bytes (cmd_result_id row)) (\<lambda>result_id.
       if cmd_operation_id row = ASSET_RETIRE_V1 \<or> cmd_operation_id row = ASSET_RESTORE_V1
         then replay_lifecycle E db row result_id
       else if cmd_result_kind row = Some ''ASSET'' then replay_registration E db row result_id
       else if cmd_result_kind row = Some ''ASSET_REVISION'' then replay_asset_revision E db row result_id
       else if cmd_result_kind row = Some ''LOCATION'' then replay_location E db row result_id
       else Err Store_StorageCorruption))"

definition replay_pure ::
  "store_env \<Rightarrow> database \<Rightarrow> command_row \<Rightarrow> string \<Rightarrow> asset_store_error + mutation_outcome" where
  "replay_pure E db row expected_kind =
    (if cmd_state row = ''COMPLETED'' \<and> cmd_result_kind row = Some expected_kind
       then and_then (replay_result E db row) (\<lambda>r. Ok (Replay r))
     else if cmd_state row = ''TERMINAL_REJECTED''
       then and_then (parse_safe_code row) (\<lambda>c. Ok (TerminalRejected c))
     else Err Store_StorageCorruption)"

definition replay_existing ::
  "store_env \<Rightarrow> store_context \<Rightarrow> command_binding \<Rightarrow> string \<Rightarrow> database \<Rightarrow>
    asset_store_error + mutation_outcome option" where
  "replay_existing E ctx b expected_kind db =
    (case read_command db b of
       None \<Rightarrow> Ok None
     | Some row \<Rightarrow>
       (if \<not> binding_matches row b (owner_uid ctx) then Err Store_Conflict
        else and_then (validate_command_row E row) (\<lambda>row.
             and_then (replay_pure E db row expected_kind) (\<lambda>out. Ok (Some out)))))"

section \<open>Completing a command\<close>

definition complete_row ::
  "store_env \<Rightarrow> bytes \<Rightarrow> versioned_result_payload \<Rightarrow> timestamp \<Rightarrow> command_row \<Rightarrow> command_row" where
  "complete_row E primary payload at row =
    row\<lparr>cmd_state := ''COMPLETED'', cmd_result_kind := Some (result_kind payload),
        cmd_result_id := Some primary, cmd_result_schema_version := Some 1,
        cmd_result_payload := Some (payload_encode payload),
        cmd_result_payload_sha256 := Some (env_sha256 E (payload_encode payload)),
        cmd_updated_at := stamp at\<rparr>"

definition complete_versioned ::
  "store_env \<Rightarrow> command_binding \<Rightarrow> bytes \<Rightarrow> versioned_result_payload \<Rightarrow> timestamp \<Rightarrow> database \<Rightarrow>
    asset_store_error + (mutation_outcome \<times> database)" where
  "complete_versioned E b primary payload at db =
    (let (changed, db') = update_command
        (\<lambda>row. cmd_id row = binding_command_id b \<and> cmd_state row = ''CLAIMED'')
        (complete_row E primary payload at) db in
     if changed \<noteq> 1 then Err Store_StorageCorruption
     else and_then (ok_or Store_StorageCorruption (read_command db' b)) (\<lambda>row.
          and_then (validate_command_row E row) (\<lambda>row.
          and_then (replay_creative_result E db' row) (\<lambda>r. Ok (Applied r, db')))))"

section \<open>Operations that settle in one transaction\<close>

text \<open>The kind of result a single-transaction operation stores.\<close>

definition pure_operations :: "(string \<times> string) list" where
  "pure_operations =
    [(ASSET_REVISION_CREATE_V1, ''ASSET_REVISION''), (BLOB_LOCATION_RECORD_V1, ''LOCATION''),
     (ASSET_RETIRE_V1, ''ASSET_LIFECYCLE''), (ASSET_RESTORE_V1, ''ASSET_LIFECYCLE''),
     (PROJECT_CREATE_V1, ''PROJECT''), (PROJECT_SPEC_REVISE_V1, ''PROJECT_SPEC_REVISION''),
     (SUBJECT_CREATE_V1, ''SUBJECT''), (WORK_CREATE_V1, ''WORK_ITEM''),
     (WORK_REVISE_V1, ''WORK_REVISION''), (TAKE_CREATE_V1, ''TAKE''),
     (TAKE_TRANSITION_V1, ''TAKE''), (TAKE_REOPEN_V1, ''TAKE'')]"

text \<open>One execution of a fresh command appends one settled row, bound to the request, that
  the validator accepts and that replays to the outcome.\<close>

inductive settles ::
  "store_env \<Rightarrow> store_context \<Rightarrow> command_binding \<Rightarrow> string \<Rightarrow> database \<Rightarrow> mutation_outcome \<Rightarrow> database \<Rightarrow> bool"
  for E ctx b kind db where
  rejected: "settles E ctx b kind db (TerminalRejected c) db'"
    if "read_command db b = None" "commands db' = commands db @ [row]"
      "binding_matches row b (owner_uid ctx)" "validate_command_row E row = Ok row"
      "cmd_state row = ''TERMINAL_REJECTED''" "parse_safe_code row = Ok c"
| applied: "settles E ctx b kind db (Applied r) db'"
    if "read_command db b = None" "commands db' = commands db @ [row]"
      "binding_matches row b (owner_uid ctx)" "validate_command_row E row = Ok row"
      "cmd_state row = ''COMPLETED''" "cmd_result_kind row = Some kind"
      "replay_result E db' row = Ok r"

inductive_cases settlesE: "settles E ctx b kind db out db'"

fun as_replay :: "mutation_outcome \<Rightarrow> mutation_outcome" where
  "as_replay (Applied r) = Replay r"
| "as_replay out = out"

lemma read_command_append:
  "read_command db b = None \<Longrightarrow> commands db' = commands db @ [row] \<Longrightarrow>
    cmd_id row = binding_command_id b \<Longrightarrow> read_command db' b = Some row"
  by (simp add: read_command_def find_append)

lemma validate_command_row_ok: "validate_command_row E row = Ok row' \<Longrightarrow> row' = row"
  by (auto simp add: validate_command_row_def and_then_ok_iff)

lemma settles_replays:
  assumes "settles E ctx b kind db out db'"
  shows "replay_existing E ctx b kind db' = Ok (Some (as_replay out))"
proof -
  from assms obtain row where row: "read_command db b = None" "commands db' = commands db @ [row]"
      "binding_matches row b (owner_uid ctx)" "validate_command_row E row = Ok row"
    and pure: "replay_pure E db' row kind = Ok (as_replay out)"
    by (cases rule: settles.cases) (auto simp add: replay_pure_def)
  then have "read_command db' b = Some row"
    by (intro read_command_append) (simp_all add: binding_matches_def)
  with row pure show ?thesis by (simp add: replay_existing_def)
qed

lemma settles_appends:
  "settles E ctx b kind db out db' \<Longrightarrow>
    \<exists>row. commands db' = commands db @ [row] \<and> validate_command_row E row = Ok row
      \<and> cmd_id row = binding_command_id b"
  by (auto elim!: settlesE simp add: binding_matches_def)

lemma replay_existing_outcome:
  "replay_existing E ctx b kind db = Ok (Some out) \<Longrightarrow> as_replay out = out"
  by (auto simp add: replay_existing_def replay_pure_def and_then_ok_iff split: option.splits if_splits)

section \<open>Both ways of settling\<close>

lemma pure_operation_header:
  "(operation, kind) \<in> set pure_operations \<Longrightarrow>
    operation \<noteq> [] \<and> length operation \<le> 128 \<and> ends_with operation ''.v1''
      \<and> is_ascii_lower (hd operation) \<and> list_all operation_id_char operation"
  by (auto simp add: pure_operations_def operation_ids ends_with_def operation_id_char_def
      is_ascii_lower_def is_ascii_digit_def)

lemma pure_operation_matrix:
  "(cmd_operation_id row, kind) \<in> set pure_operations \<Longrightarrow>
    validate_known_command_matrix row code = ensure (pure_matrix kind row code) Store_StorageCorruption"
  by (auto simp add: pure_operations_def validate_known_command_matrix_def operation_ids Let_def)

lemma stored_id_wf: "id_wf (env_uuid E) i \<Longrightarrow> stored_id E (Some i) = Ok i"
  by (auto simp add: id_wf_def stored_id_def id_bytes_def is_ok_iff id_from_bytes_ok_iff)

lemma u32_try_from_uint: "u32_try_from (uint (w :: u32)) = Some w"
  using uint_lt2p [of w] by (simp add: u32_try_from_def)

lemma rejected_row_valid:
  assumes "binding_wf E ctx b" "clock_ok E at"
    and op: "(binding_operation_id b, kind) \<in> set pure_operations"
    and code: "is_pure_rejection_code c"
  shows "validate_command_row E (reject_row c at (claimed_row ctx b at)) = Ok (reject_row c at (claimed_row ctx b at))"
proof -
  let ?row = "reject_row c at (claimed_row ctx b at)"
  have ids: "stored_id E (Some (cmd_id ?row)) = Ok (cmd_id ?row)"
      "stored_id E (Some (cmd_runtime_id ?row)) = Ok (cmd_runtime_id ?row)"
    using assms(1) by (simp_all add: binding_wf_def stored_id_wf reject_row_def claimed_row_def)
  have header: "row_header_ok ?row"
    using pure_operation_header [OF op]
    by (simp add: row_header_ok_def reject_row_def claimed_row_def u32_try_from_uint)
  obtain t where times: "persisted_timestamp E (cmd_created_at ?row) = Ok t"
      "persisted_timestamp E (cmd_updated_at ?row) = Ok t"
    using assms(2) by (auto simp add: clock_ok_def is_ok_iff reject_row_def claimed_row_def)
  have settled: "stored_code ?row = Ok (Some c)" "payload_present E ?row = Ok False"
      "validate_state E ?row False (Some c) = Ok ()"
    by (simp_all add: stored_code_def payload_present_def validate_state_def no_result_def
        reject_row_def claimed_row_def)
  have "(cmd_operation_id ?row, kind) \<in> set pure_operations"
    using op by (simp add: reject_row_def claimed_row_def)
  from pure_operation_matrix [OF this] have "validate_known_command_matrix ?row (Some c) = Ok ()"
    using code by (simp add: pure_matrix_def code_is_def reject_row_def claimed_row_def)
  then show ?thesis
    using assms(1) ids header times settled
    by (simp add: validate_command_row_def binding_wf_def reject_row_def claimed_row_def)
qed

lemma payload_encode_length:
  "result_payload_wf U p \<Longrightarrow> payload_encode p \<noteq> [] \<and> length (payload_encode p) \<le> 512"
  by (cases p) (auto simp add: encode_revision_ref_def id_wf_def split: option.splits)

lemma completed_row_valid:
  assumes "binding_wf E ctx b" "clock_ok E at"
    and op: "(binding_operation_id b, result_kind payload) \<in> set pure_operations"
    and "id_wf (env_uuid E) primary" "result_payload_wf (env_uuid E) payload"
  shows "validate_command_row E (complete_row E primary payload at (claimed_row ctx b at)) =
    Ok (complete_row E primary payload at (claimed_row ctx b at))"
proof -
  let ?row = "complete_row E primary payload at (claimed_row ctx b at)"
  have ids: "stored_id E (Some (cmd_id ?row)) = Ok (cmd_id ?row)"
      "stored_id E (Some (cmd_runtime_id ?row)) = Ok (cmd_runtime_id ?row)"
    using assms(1) by (simp_all add: binding_wf_def stored_id_wf complete_row_def claimed_row_def)
  have header: "row_header_ok ?row"
    using pure_operation_header [OF op]
    by (simp add: row_header_ok_def complete_row_def claimed_row_def u32_try_from_uint)
  obtain t where times: "persisted_timestamp E (cmd_created_at ?row) = Ok t"
      "persisted_timestamp E (cmd_updated_at ?row) = Ok t"
    using assms(2) by (auto simp add: clock_ok_def is_ok_iff complete_row_def claimed_row_def)
  have "result_payload_decode (env_uuid E) (result_kind payload) (payload_encode payload) = Ok payload"
    using assms(5) by (simp add: result_payload_decode_iff)
  then have settled: "stored_code ?row = Ok None" "payload_present E ?row = Ok True"
      "validate_state E ?row True None = Ok ()"
    using assms(4,5) payload_encode_length
    by (auto simp add: stored_code_def payload_present_def validate_state_def validate_completed_def
        stored_id_wf complete_row_def claimed_row_def)
  have "(cmd_operation_id ?row, result_kind payload) \<in> set pure_operations"
    using op by (simp add: complete_row_def claimed_row_def)
  from pure_operation_matrix [OF this] have "validate_known_command_matrix ?row None = Ok ()"
    by (simp add: pure_matrix_def complete_row_def claimed_row_def)
  then show ?thesis
    using assms(1) ids header times settled
    by (simp add: validate_command_row_def binding_wf_def complete_row_def claimed_row_def)
qed

lemma complete_versioned_fresh:
  assumes "read_command db b = None" "binding_wf E ctx b" "clock_ok E at"
    and "(binding_operation_id b, result_kind payload) \<in> set pure_operations"
    and "id_wf (env_uuid E) primary" "result_payload_wf (env_uuid E) payload"
    and rows: "commands db1 = commands db @ [claimed_row ctx b at]"
  shows "complete_versioned E b primary payload at db1 =
    (let db' = db1\<lparr>commands := commands db @ [complete_row E primary payload at (claimed_row ctx b at)]\<rparr> in
     and_then (replay_creative_result E db' (complete_row E primary payload at (claimed_row ctx b at)))
       (\<lambda>r. Ok (Applied r, db')))"
proof -
  let ?row = "complete_row E primary payload at (claimed_row ctx b at)"
  have "binding_command_id b \<notin> cmd_id ` set (commands db)"
    using assms(1) by (simp add: read_command_None)
  from update_command_fresh [OF this _ rows, of "\<lambda>row. cmd_state row = ''CLAIMED''"
      "complete_row E primary payload at"]
  have upd: "update_command (\<lambda>row. cmd_id row = binding_command_id b \<and> cmd_state row = ''CLAIMED'')
      (complete_row E primary payload at) db1 = (1, db1\<lparr>commands := commands db @ [?row]\<rparr>)"
    by (simp add: claimed_row_def)
  have "read_command (db1\<lparr>commands := commands db @ [?row]\<rparr>) b = Some ?row"
    using assms(1) by (intro read_command_append) (simp_all add: complete_row_def claimed_row_def)
  then show ?thesis
    using upd completed_row_valid [OF assms(2-6)] by (simp add: complete_versioned_def Let_def)
qed

lemma settles_rejection:
  assumes "read_command db b = None" "binding_wf E ctx b" "clock_ok E at"
    and "(binding_operation_id b, kind) \<in> set pure_operations"
    and "is_pure_rejection_code c"
    and rows: "commands db1 = commands db @ [claimed_row ctx b at]"
    and run: "commit_rejection b c at db1 = Ok (out, db')"
  shows "settles E ctx b kind db out db'"
proof -
  let ?row = "reject_row c at (claimed_row ctx b at)"
  have "binding_command_id b \<notin> cmd_id ` set (commands db)"
    using assms(1) by (simp add: read_command_None)
  from commit_rejection_fresh [OF this _ rows, of c at] run
  have "out = TerminalRejected c" and db': "commands db' = commands db @ [?row]"
    by (auto simp add: claimed_row_def)
  moreover have "settles E ctx b kind db (TerminalRejected c) db'"
    using assms(1) db' rejected_row_valid [OF assms(2-5)]
    by (rule_tac settles.rejected [where row = ?row])
      (simp_all add: reject_row_def claimed_row_def binding_matches_def parse_safe_code_def)
  ultimately show ?thesis by simp
qed

lemma creative_operations_iff:
  "operation \<in> set creative_operations \<longleftrightarrow> operation \<in> set [PROJECT_CREATE_V1, PROJECT_SPEC_REVISE_V1,
    SUBJECT_CREATE_V1, WORK_CREATE_V1, WORK_REVISE_V1, TAKE_CREATE_V1, TAKE_TRANSITION_V1, TAKE_REOPEN_V1]"
  by (simp add: creative_operations_def operation_ids)

lemma settles_completion:
  assumes "read_command db b = None"
    and op: "binding_operation_id b \<in> set creative_operations"
    and rows: "commands db1 = commands db @ [claimed_row ctx b at]"
    and run: "complete_versioned E b primary payload at db1 = Ok (out, db')"
  shows "settles E ctx b (result_kind payload) db out db'"
proof -
  let ?row = "complete_row E primary payload at (claimed_row ctx b at)"
  have "binding_command_id b \<notin> cmd_id ` set (commands db)"
    using assms(1) by (simp add: read_command_None)
  from update_command_fresh [OF this _ rows, of "\<lambda>row. cmd_state row = ''CLAIMED''"
      "complete_row E primary payload at"]
  have upd: "update_command (\<lambda>row. cmd_id row = binding_command_id b \<and> cmd_state row = ''CLAIMED'')
      (complete_row E primary payload at) db1 = (1, db1\<lparr>commands := commands db @ [?row]\<rparr>)"
    by (simp add: claimed_row_def)
  have "read_command (db1\<lparr>commands := commands db @ [?row]\<rparr>) b = Some ?row"
    using assms(1) by (intro read_command_append) (simp_all add: complete_row_def claimed_row_def)
  with upd run obtain r where r: "validate_command_row E ?row = Ok ?row"
      "replay_creative_result E db' ?row = Ok r" "out = Applied r" "db' = db1\<lparr>commands := commands db @ [?row]\<rparr>"
    by (auto simp add: complete_versioned_def and_then_ok_iff dest: validate_command_row_ok)
  have "replay_result E db' ?row = Ok r"
    using r(2) op by (simp add: replay_result_def complete_row_def claimed_row_def)
  with r assms(1) have "settles E ctx b (result_kind payload) db (Applied r) db'"
    by (intro settles.applied [where row = ?row])
      (simp_all add: complete_row_def claimed_row_def binding_matches_def)
  with r(3) show ?thesis by simp
qed

section \<open>The contract of a single-transaction command\<close>

locale pure_command =
  fixes E :: store_env
    and ctx :: store_context
    and b :: command_binding
    and kind :: string
    and admissible :: bool
    and run :: "database \<Rightarrow> asset_store_error + (mutation_outcome \<times> database)"
  assumes run_existing: "replay_existing E ctx b kind db = Ok (Some out) \<Longrightarrow> run db = Ok (out, db)"
    and run_refused: "replay_existing E ctx b kind db = Err e \<Longrightarrow> run db = Err e"
    and run_fresh: "admissible \<Longrightarrow> replay_existing E ctx b kind db = Ok None \<Longrightarrow>
      run db = Ok (out, db') \<Longrightarrow> settles E ctx b kind db out db'"
begin

lemma run_cases:
  assumes "admissible" "run db = Ok (out, db')"
  obtains (replayed) "replay_existing E ctx b kind db = Ok (Some out)" "db' = db"
    | (settled) "settles E ctx b kind db out db'"
proof (cases "replay_existing E ctx b kind db")
  case (Inl e)
  then show thesis using run_refused assms(2) by simp
next
  case (Inr found)
  show thesis
  proof (cases found)
    case None
    then show thesis using run_fresh assms Inr settled by simp
  next
    case (Some out')
    then show thesis using run_existing [of db out'] assms(2) Inr replayed by simp
  qed
qed

lemma run_again:
  assumes "admissible" "run db = Ok (out, db')"
  shows "run db' = Ok (as_replay out, db')"
  using assms
proof (cases rule: run_cases)
  case replayed
  then show ?thesis using run_existing replay_existing_outcome by metis
next
  case settled
  then show ?thesis using run_existing settles_replays by blast
qed

lemma run_keeps_rows:
  assumes "admissible" "run db = Ok (out, db')" "row \<in> set (commands db)"
  shows "row \<in> set (commands db')"
  using assms(1,2)
proof (cases rule: run_cases)
  case settled
  then show ?thesis using settles_appends assms(3) by fastforce
qed (use assms(3) in simp)

lemma run_journal:
  assumes "admissible" "journal_wf E db" "run db = Ok (out, db')"
  shows "journal_wf E db'"
  using assms(1,3)
proof (cases rule: run_cases)
  case settled
  then obtain row where row: "commands db' = commands db @ [row]" "validate_command_row E row = Ok row"
    "cmd_id row = binding_command_id b"
    using settles_appends by blast
  moreover have "read_command db b = None"
    using settled by (auto elim: settlesE)
  ultimately show ?thesis
    using assms(2) by (auto simp add: journal_wf_def read_command_None)
qed (use assms(2) in simp)

lemma run_foreign:
  assumes "read_command db b = Some row" "\<not> binding_matches row b (owner_uid ctx)"
  shows "run db = Err Store_Conflict"
  using run_refused assms by (simp add: replay_existing_def)

end

end
