(* ===== verification/Event_Payload.thy ===== *)
theory Event_Payload
  imports Asset_Domain
begin

text \<open>
  The event records of \<open>mengxia-events\<close> and their tag-length-value payloads.  The
  encoder \<open>payload_from_fields\<close> and the cursor loop of \<open>payload_decode\<close> follow the
  code; \<open>tlv\<close> and \<open>fields_wf\<close> describe the language both agree on.
\<close>

datatype aggregate_ref =
    AggregateAsset bytes | AggregateAssetRevision bytes | AggregateBlob sha256_digest
  | AggregateLocation bytes | AggregateProject bytes | AggregateProjectSpecRevision bytes
  | AggregateSubject bytes | AggregateWorkItem bytes | AggregateWorkRevision bytes
  | AggregateTake bytes

datatype event_payload_error = InvalidPayload

type_synonym event_field = "byte \<times> bytes"

definition follows :: "byte option \<Rightarrow> byte \<Rightarrow> bool" where
  "follows previous tag = (case previous of None \<Rightarrow> True | Some p \<Rightarrow> p < tag)"

fun from_fields_loop ::
  "bytes \<Rightarrow> byte option \<Rightarrow> event_field list \<Rightarrow> event_payload_error + bytes" where
  "from_fields_loop encoded previous [] = Ok encoded"
| "from_fields_loop encoded previous ((tag, value) # fs) =
     (if tag = 0 \<or> \<not> follows previous tag \<or> value = [] \<or> length value > 65535
      then Err InvalidPayload
      else let encoded' = encoded @ [tag] @ u16_to_be_bytes (word_of_nat (length value)) @ value in
        if length encoded' > 2048 then Err InvalidPayload
        else from_fields_loop encoded' (Some tag) fs)"

definition payload_from_fields :: "event_field list \<Rightarrow> event_payload_error + bytes option" where
  "payload_from_fields fs =
     and_then (from_fields_loop [] None fs) (\<lambda>encoded.
       Ok (if encoded = [] then None else Some encoded))"

function decode_loop :: "bytes \<Rightarrow> nat \<Rightarrow> byte option \<Rightarrow> event_payload_error + unit" where
  "decode_loop bs cursor previous =
    (if cursor < length bs then
       (let tag = bs ! cursor in
        case get_range bs (cursor + 1) (cursor + 3) of
          None \<Rightarrow> Err InvalidPayload
        | Some l \<Rightarrow>
          (let len = unat (u16_from_be_bytes l) in
           if tag = 0 \<or> \<not> follows previous tag \<or> len = 0 \<or> cursor + (3 + len) > length bs
           then Err InvalidPayload
           else decode_loop bs (cursor + (3 + len)) (Some tag)))
     else Ok ())"
  by pat_completeness auto
termination
  by (relation "measure (\<lambda>(bs, cursor, _). length bs - cursor)") auto

declare decode_loop.simps [simp del]

definition payload_decode :: "bytes \<Rightarrow> event_payload_error + bytes" where
  "payload_decode bs =
    (if bs = [] \<or> length bs > 2048 then Err InvalidPayload
     else and_then (decode_loop bs 0 None) (\<lambda>_. Ok bs))"

record domain_event_record =
  event_id :: uuid
  event_type :: string
  event_aggregate :: aggregate_ref
  event_aggregate_revision :: "revision_no option"
  event_payload :: "bytes option"
  event_occurred_at :: timestamp

definition asset_registered_event ::
  "uuid \<Rightarrow> bytes \<Rightarrow> revision_no \<Rightarrow> timestamp \<Rightarrow> domain_event_record" where
  "asset_registered_event eid asset revision at =
    \<lparr>event_id = eid, event_type = ''asset.registered.v1'', event_aggregate = AggregateAsset asset,
     event_aggregate_revision = Some revision, event_payload = None, event_occurred_at = at\<rparr>"

definition asset_revision_created_event ::
  "uuid \<Rightarrow> bytes \<Rightarrow> revision_no \<Rightarrow> timestamp \<Rightarrow> domain_event_record" where
  "asset_revision_created_event eid arid revision at =
    \<lparr>event_id = eid, event_type = ''asset.revision.created.v1'',
     event_aggregate = AggregateAssetRevision arid,
     event_aggregate_revision = Some revision, event_payload = None, event_occurred_at = at\<rparr>"

definition blob_location_recorded_event ::
  "uuid \<Rightarrow> sha256_digest \<Rightarrow> revision_no \<Rightarrow> timestamp \<Rightarrow> domain_event_record" where
  "blob_location_recorded_event eid digest revision at =
    \<lparr>event_id = eid, event_type = ''blob.location.recorded.v1'',
     event_aggregate = AggregateBlob digest,
     event_aggregate_revision = Some revision, event_payload = None, event_occurred_at = at\<rparr>"

record provenance_event_record =
  prov_event_id :: uuid
  prov_event_type :: string
  prov_asset_revision_id :: bytes
  prov_blob_digest :: "sha256_digest option"
  prov_occurred_at :: timestamp

definition asset_ingested_copy ::
  "uuid \<Rightarrow> bytes \<Rightarrow> sha256_digest \<Rightarrow> timestamp \<Rightarrow> provenance_event_record" where
  "asset_ingested_copy eid arid digest at =
    \<lparr>prov_event_id = eid, prov_event_type = ''asset.ingested.copy.v1'',
     prov_asset_revision_id = arid, prov_blob_digest = Some digest, prov_occurred_at = at\<rparr>"

definition asset_revision_derived ::
  "uuid \<Rightarrow> bytes \<Rightarrow> timestamp \<Rightarrow> provenance_event_record" where
  "asset_revision_derived eid arid at =
    \<lparr>prov_event_id = eid, prov_event_type = ''asset.revision.derived.v1'',
     prov_asset_revision_id = arid, prov_blob_digest = None, prov_occurred_at = at\<rparr>"

section \<open>The payload language\<close>

definition tlv_field :: "event_field \<Rightarrow> bytes" where
  "tlv_field = (\<lambda>(tag, value). tag # u16_to_be_bytes (word_of_nat (length value)) @ value)"

definition tlv :: "event_field list \<Rightarrow> bytes" where
  "tlv fs = concat (map tlv_field fs)"

fun fields_wf :: "byte option \<Rightarrow> event_field list \<Rightarrow> bool" where
  "fields_wf previous [] = True"
| "fields_wf previous ((tag, value) # fs) =
     (tag \<noteq> 0 \<and> follows previous tag \<and> value \<noteq> [] \<and> length value \<le> 65535
      \<and> fields_wf (Some tag) fs)"

lemma tlv_simps [simp]:
  "tlv [] = []"
  "tlv ((tag, value) # fs) =
     tag # u16_to_be_bytes (word_of_nat (length value)) @ value @ tlv fs"
  by (simp_all add: tlv_def tlv_field_def)

lemma from_fields_loop_iff:
  "length acc \<le> 2048 \<Longrightarrow> from_fields_loop acc prev fs = Ok b \<longleftrightarrow>
    fields_wf prev fs \<and> b = acc @ tlv fs \<and> length b \<le> 2048"
  by (induction acc prev fs rule: from_fields_loop.induct) (auto simp add: Let_def)

lemma payload_from_fields_iff:
  "payload_from_fields fs = Ok (Some b) \<longleftrightarrow>
    fs \<noteq> [] \<and> fields_wf None fs \<and> b = tlv fs \<and> length b \<le> 2048"
  by (cases fs; cases "hd fs")
    (auto simp add: payload_from_fields_def and_then_ok_iff from_fields_loop_iff)

lemma length_field_small: "length value \<le> 65535 \<Longrightarrow> unat (word_of_nat (length value) :: u16) = length value"
  by (simp add: unat_word_of_nat_small)

lemma tlv_head:
  assumes "drop c bs = tlv ((tag, value) # fs)" "length value \<le> 65535"
  shows "c < length bs" "bs ! c = tag"
    "get_range bs (c + 1) (c + 3) = Some (u16_to_be_bytes (word_of_nat (length value)))"
    "c + (3 + length value) \<le> length bs" "drop (c + (3 + length value)) bs = tlv fs"
proof -
  show c: "c < length bs"
    using assms(1) by (cases "c < length bs") simp_all
  from assms(1) have bs: "bs = take c bs @ tlv ((tag, value) # fs)"
    by (metis append_take_drop_id)
  have len: "length (take c bs) = c" using c by simp
  have total: "length bs = c + (3 + length value) + length (tlv fs)"
    by (subst bs) (simp add: len del: length_take)
  then show "c + (3 + length value) \<le> length bs" by simp
  show "bs ! c = tag" by (subst bs) (simp add: nth_append len del: length_take)
  have d1: "drop (c + 1) bs = u16_to_be_bytes (word_of_nat (length value)) @ value @ tlv fs"
  proof -
    have "drop (c + 1) bs = tl (drop c bs)" by (simp add: drop_Suc tl_drop)
    with assms(1) show ?thesis by simp
  qed
  show "get_range bs (c + 1) (c + 3) = Some (u16_to_be_bytes (word_of_nat (length value)))"
    using total d1 by (simp add: get_range_def)
  have "drop (c + (3 + length value)) bs = drop (2 + length value) (drop (c + 1) bs)"
    by (simp only: drop_drop) (rule arg_cong [of _ _ "\<lambda>k. drop k bs"], simp)
  also have "\<dots> = tlv fs"
    unfolding d1 by simp
  finally show "drop (c + (3 + length value)) bs = tlv fs" .
qed

lemma decode_loop_complete:
  "drop c bs = tlv fs \<Longrightarrow> fields_wf prev fs \<Longrightarrow> decode_loop bs c prev = Ok ()"
proof (induction fs arbitrary: c prev)
  case Nil
  then show ?case by (simp add: decode_loop.simps)
next
  case (Cons f fs)
  obtain tag v where f: "f = (tag, v)" by (cases f)
  from Cons.prems f have wf: "tag \<noteq> 0" "follows prev tag" "v \<noteq> []" "length v \<le> 65535"
      "fields_wf (Some tag) fs" and d: "drop c bs = tlv ((tag, v) # fs)"
    by simp_all
  note head = tlv_head [OF d wf(4)]
  have "decode_loop bs (c + (3 + length v)) (Some tag) = Ok ()"
    by (rule Cons.IH [OF head(5) wf(5)])
  with head wf show ?case
    by (subst decode_loop.simps) (simp add: length_field_small not_less)
qed

lemma split_field:
  assumes "c < length bs"
  shows "drop c bs = bs ! c # take 2 (drop (c + 1) bs) @ take n (drop (c + 3) bs)
    @ drop (c + (3 + n)) bs"
proof -
  have e: "drop 2 (drop (c + 1) bs) = drop (c + 3) bs"
    "drop n (drop (c + 3) bs) = drop (c + (3 + n)) bs"
    by (simp_all only: drop_drop) (simp_all add: ac_simps numeral_3_eq_3)
  have "drop c bs = bs ! c # drop (c + 1) bs"
    using assms by (simp add: Cons_nth_drop_Suc)
  also have "drop (c + 1) bs = take 2 (drop (c + 1) bs) @ drop (c + 3) bs"
    by (metis append_take_drop_id e(1))
  also have "drop (c + 3) bs = take n (drop (c + 3) bs) @ drop (c + (3 + n)) bs"
    by (metis append_take_drop_id e(2))
  finally show ?thesis .
qed

lemma decode_loop_sound:
  "decode_loop bs c prev = Ok u \<Longrightarrow> c \<le> length bs \<Longrightarrow>
    \<exists>fs. fields_wf prev fs \<and> drop c bs = tlv fs"
proof (induction bs c prev rule: decode_loop.induct)
  case (1 bs c prev)
  show ?case
  proof (cases "c < length bs")
    case False
    then show ?thesis by (intro exI [of _ "[]"]) simp
  next
    case True
    let ?tag = "bs ! c" and ?l = "take 2 (drop (c + 1) bs)"
    let ?n = "unat (u16_from_be_bytes ?l)"
    from "1.prems" True have r: "get_range bs (c + 1) (c + 3) = Some ?l"
      and ok: "?tag \<noteq> 0" "follows prev ?tag" "?n \<noteq> 0" "c + (3 + ?n) \<le> length bs"
      and rec: "decode_loop bs (c + (3 + ?n)) (Some ?tag) = Ok u"
      by (subst (asm) decode_loop.simps;
          auto simp add: get_range_def Let_def split: if_splits)+
    from "1.IH" [OF True refl r refl] ok rec obtain fs
      where fs: "fields_wf (Some ?tag) fs" "drop (c + (3 + ?n)) bs = tlv fs"
      by auto
    let ?v = "take ?n (drop (c + 3) bs)"
    have lv: "length ?v = ?n" using ok(4) by simp
    with ok(3) have v: "?v \<noteq> []" by (metis list.size(3))
    have n: "?n \<le> 65535" using unat_bound [of "u16_from_be_bytes ?l"] by simp
    have "u16_to_be_bytes (word_of_nat (length ?v)) = ?l"
      unfolding lv using r by (simp add: u16_to_from_be_bytes get_range_def split: if_splits)
    moreover have "drop c bs = ?tag # ?l @ ?v @ drop (c + (3 + ?n)) bs"
      using True by (rule split_field)
    ultimately have "drop c bs = tlv ((?tag, ?v) # fs)"
      unfolding tlv_simps fs(2) by argo
    moreover have "fields_wf prev ((?tag, ?v) # fs)"
      unfolding fields_wf.simps lv using ok v n fs(1) by blast
    ultimately show ?thesis by blast
  qed
qed

lemma tlv_not_empty [simp]: "tlv fs = [] \<longleftrightarrow> fs = []" "[] = tlv fs \<longleftrightarrow> fs = []"
  by (cases fs; cases "hd fs"; auto)+

lemma payload_decode_iff:
  "payload_decode bs = Ok b \<longleftrightarrow>
    b = bs \<and> length bs \<le> 2048 \<and> (\<exists>fs. fs \<noteq> [] \<and> fields_wf None fs \<and> bs = tlv fs)"
proof -
  have "decode_loop bs 0 None = Ok () \<longleftrightarrow> (\<exists>fs. fields_wf None fs \<and> bs = tlv fs)"
    using decode_loop_sound [of bs 0 None] decode_loop_complete [of 0 bs] by auto
  then show ?thesis
    by (auto simp add: payload_decode_def and_then_ok_iff)
qed

lemma tlv_inject:
  "fields_wf p fs \<Longrightarrow> fields_wf q gs \<Longrightarrow> tlv fs = tlv gs \<Longrightarrow> fs = gs"
proof (induction fs arbitrary: p q gs)
  case Nil
  then show ?case by simp
next
  case (Cons f fs)
  obtain tag v where f: "f = (tag, v)" by (cases f)
  from Cons.prems f have "gs \<noteq> []" by auto
  then obtain tag' v' gs' where g: "gs = (tag', v') # gs'"
    by (cases gs; cases "hd gs") auto
  from Cons.prems f g have lens: "length v \<le> 65535" "length v' \<le> 65535" by simp_all
  have "u16_to_be_bytes (word_of_nat (length v)) = u16_to_be_bytes (word_of_nat (length v'))"
    and body: "v @ tlv fs = v' @ tlv gs'" and tag: "tag = tag'"
    using Cons.prems(3) f g by (simp_all add: append_eq_append_conv)
  then have "length v = length v'"
    by (metis length_field_small lens u16_from_to_be_bytes)
  with body have "v = v'" "tlv fs = tlv gs'" by simp_all
  with Cons.IH [of "Some tag" "Some tag'" gs'] Cons.prems f g tag show ?case by simp
qed

text \<open>C15. The payload decoder accepts exactly the byte strings the encoder produces from
  a non-empty list of fields with strictly increasing non-zero tags, and every accepted
  payload has exactly one such list of fields.\<close>

theorem payload_decode_exact:
  "payload_decode bs = Ok bs \<longleftrightarrow> (\<exists>!fs. payload_from_fields fs = Ok (Some bs))"
proof
  assume "payload_decode bs = Ok bs"
  then obtain fs where "payload_from_fields fs = Ok (Some bs)"
    by (auto simp add: payload_decode_iff payload_from_fields_iff)
  moreover have "gs = fs" if "payload_from_fields gs = Ok (Some bs)" for gs
    using that calculation tlv_inject [of None gs None fs] by (simp add: payload_from_fields_iff)
  ultimately show "\<exists>!fs. payload_from_fields fs = Ok (Some bs)" by (rule ex1I)
next
  assume "\<exists>!fs. payload_from_fields fs = Ok (Some bs)"
  then obtain fs where "payload_from_fields fs = Ok (Some bs)" by (rule ex1E)
  then show "payload_decode bs = Ok bs"
    by (auto simp add: payload_decode_iff payload_from_fields_iff)
qed

end
