(* ===== verification/Creative_Store.thy ===== *)
theory Creative_Store
  imports Command_Replay Event_Payload
begin

text \<open>
  The creative ledger of the library: projects, subjects, work items and takes
  (\<open>crates/mengxia-store-sqlite/src/creative_repository.rs\<close>).  Every operation is one
  transaction: it answers a repeated command from the journal, otherwise samples fresh
  identities and a clock, claims the command, checks its guards in the order of the source
  and either commits a rejection or commits its rows together with its events.
\<close>

section \<open>Sampled values\<close>

text \<open>The value source hands out identities call by call; a call may fail.\<close>

record value_source =
  next_uuid_v7 :: "nat \<Rightarrow> asset_store_error + bytes"
  source_now :: "asset_store_error + timestamp"
  source_checkpoint :: "asset_store_error + unit"

definition generated_id :: "store_env \<Rightarrow> value_source \<Rightarrow> nat \<Rightarrow> asset_store_error + uuid" where
  "generated_id E vs k =
    and_then (next_uuid_v7 vs k) (\<lambda>raw.
      map_err (\<lambda>_. Store_IdGenerationUnavailable) (id_from_bytes (env_uuid E) raw))"

fun generated_ids :: "store_env \<Rightarrow> value_source \<Rightarrow> nat \<Rightarrow> nat \<Rightarrow> asset_store_error + uuid list" where
  "generated_ids E vs k 0 = Ok []"
| "generated_ids E vs k (Suc n) =
    and_then (generated_id E vs k) (\<lambda>i.
    and_then (generated_ids E vs (Suc k) n) (\<lambda>is. Ok (i # is)))"

definition distinct_ids :: "bytes list \<Rightarrow> asset_store_error + unit" where
  "distinct_ids values = ensure (\<not> has_repeat values) Store_IdGenerationUnavailable"

definition sampled_at :: "value_source \<Rightarrow> asset_store_error + timestamp" where
  "sampled_at vs = and_then (source_now vs) (\<lambda>at. and_then (source_checkpoint vs) (\<lambda>_. Ok at))"

section \<open>Rows of the ledger\<close>

definition insert_project_specification ::
  "bytes \<Rightarrow> bytes \<Rightarrow> u32 \<Rightarrow> bytes \<Rightarrow> project_specification \<Rightarrow> database \<Rightarrow> asset_store_error + database"
where
  "insert_project_specification specification_id project_id sequence command_id specification db =
    and_then (insert_row
        (\<lambda>r r'. ps_id r = ps_id r' \<or> ps_project_id r = ps_project_id r' \<and> ps_sequence r = ps_sequence r')
        \<lparr>ps_id = specification_id, ps_project_id = project_id, ps_sequence = uint sequence,
         ps_specification = specification, ps_command_id = command_id\<rparr>
        (project_spec_revisions db))
      (\<lambda>rows. Ok (db\<lparr>project_spec_revisions := rows\<rparr>))"

definition insert_event :: "event_row \<Rightarrow> database \<Rightarrow> asset_store_error + database" where
  "insert_event e db =
    and_then (insert_row
        (\<lambda>r r'. ev_id r = ev_id r' \<or> ev_commit_sequence r = ev_commit_sequence r') e (domain_events db))
      (\<lambda>rows. Ok (db\<lparr>domain_events := rows\<rparr>))"

definition insert_domain_event ::
  "bytes \<Rightarrow> int \<Rightarrow> command_binding \<Rightarrow> string \<Rightarrow> string \<Rightarrow> bytes \<Rightarrow> u64 \<Rightarrow> timestamp \<Rightarrow> database \<Rightarrow>
    asset_store_error + database" where
  "insert_domain_event eid sequence b etype aggregate_kind aggregate_id aggregate_revision at db =
    insert_event
      \<lparr>ev_id = eid, ev_commit_sequence = sequence, ev_command_id = binding_command_id b,
       ev_type = etype, ev_aggregate_kind = aggregate_kind, ev_aggregate_id = aggregate_id,
       ev_aggregate_revision = revision_bytes aggregate_revision, ev_payload = None,
       ev_payload_sha256 = None, ev_occurred_at = stamp at\<rparr> db"

definition insert_payload_event ::
  "store_env \<Rightarrow> bytes \<Rightarrow> int \<Rightarrow> command_binding \<Rightarrow> string \<Rightarrow> bytes \<Rightarrow> u64 \<Rightarrow> bytes option \<Rightarrow> timestamp \<Rightarrow>
    database \<Rightarrow> asset_store_error + database" where
  "insert_payload_event E eid sequence b etype aggregate_id aggregate_revision payload_value at db =
    and_then (case payload_value of
        None \<Rightarrow> Ok None
      | Some v \<Rightarrow> map_err (\<lambda>_. Store_Internal) (payload_from_fields [(1, v)])) (\<lambda>payload.
    insert_event
      \<lparr>ev_id = eid, ev_commit_sequence = sequence, ev_command_id = binding_command_id b,
       ev_type = etype, ev_aggregate_kind = ''TAKE'', ev_aggregate_id = aggregate_id,
       ev_aggregate_revision = revision_bytes aggregate_revision, ev_payload = payload,
       ev_payload_sha256 = map_option (env_sha256 E) payload, ev_occurred_at = stamp at\<rparr> db)"

definition relationship_clash :: "relationship_row \<Rightarrow> relationship_row \<Rightarrow> bool" where
  "relationship_clash r r' =
    (rel_id r = rel_id r'
     \<or> rel_kind r = rel_kind r' \<and> rel_source_kind r = rel_source_kind r'
        \<and> rel_source_id r = rel_source_id r' \<and> rel_target_kind r = rel_target_kind r'
        \<and> rel_target_id r = rel_target_id r'
     \<or> rel_kind r \<in> set [''TAKE_REOPENS'', ''TAKE_SUPERSEDES''] \<and> rel_kind r' = rel_kind r
        \<and> rel_source_kind r = ''TAKE'' \<and> rel_source_kind r' = ''TAKE''
        \<and> rel_source_id r = rel_source_id r')"

definition insert_relationship_row :: "relationship_row \<Rightarrow> database \<Rightarrow> asset_store_error + database" where
  "insert_relationship_row r db =
    (if rel_source_id r = rel_target_id r \<and> rel_source_kind r = rel_target_kind r then Err Store_Internal
     else and_then (insert_row relationship_clash r (relationships db))
       (\<lambda>rows. Ok (db\<lparr>relationships := rows\<rparr>)))"

definition insert_relationship ::
  "bytes \<Rightarrow> string \<Rightarrow> bytes \<Rightarrow> bytes \<Rightarrow> command_binding \<Rightarrow> database \<Rightarrow> asset_store_error + database" where
  "insert_relationship relationship_id kind source_id target_id b db =
    insert_relationship_row
      \<lparr>rel_id = relationship_id, rel_kind = kind, rel_source_kind = ''TAKE'', rel_source_id = source_id,
       rel_target_kind = ''TAKE'', rel_target_id = target_id, rel_command_id = binding_command_id b\<rparr> db"

section \<open>Skeleton of an operation\<close>

definition unless_replayed ::
  "store_env \<Rightarrow> store_context \<Rightarrow> command_binding \<Rightarrow> string \<Rightarrow> database \<Rightarrow>
    asset_store_error + (mutation_outcome \<times> database) \<Rightarrow>
    asset_store_error + (mutation_outcome \<times> database)" where
  "unless_replayed E ctx b kind db fresh =
    and_then (replay_existing E ctx b kind db) (\<lambda>found.
      case found of Some out \<Rightarrow> Ok (out, db) | None \<Rightarrow> fresh)"

definition or_exhausted ::
  "command_binding \<Rightarrow> timestamp \<Rightarrow> database \<Rightarrow> asset_store_error + 'a \<Rightarrow>
    ('a \<Rightarrow> asset_store_error + (mutation_outcome \<times> database)) \<Rightarrow>
    asset_store_error + (mutation_outcome \<times> database)" where
  "or_exhausted b at db m k =
    (case m of
       Inr x \<Rightarrow> k x
     | Inl e \<Rightarrow> (if e = Store_RevisionExhausted then commit_rejection b RevisionExhausted at db else Err e))"

section \<open>Projects and subjects\<close>

record create_project_command =
  cp_binding :: command_binding
  cp_name :: utext
  cp_specification :: project_specification
  cp_values :: value_source

definition create_project_command_new :: "create_project_command \<Rightarrow> asset_store_error + create_project_command" where
  "create_project_command_new q = and_then (require_operation (cp_binding q) PROJECT_CREATE_V1) (\<lambda>_. Ok q)"

definition insert_project :: "project_row \<Rightarrow> database \<Rightarrow> asset_store_error + database" where
  "insert_project r db =
    and_then (insert_row
        (\<lambda>r r'. pr_id r = pr_id r' \<or> pr_creation_sequence r = pr_creation_sequence r') r (projects db))
      (\<lambda>rows. Ok (db\<lparr>projects := rows\<rparr>))"

definition create_project ::
  "store_env \<Rightarrow> store_context \<Rightarrow> create_project_command \<Rightarrow> database \<Rightarrow>
    asset_store_error + (mutation_outcome \<times> database)" where
  "create_project E ctx q db =
    (let b = cp_binding q; vs = cp_values q in
     unless_replayed E ctx b ''PROJECT'' db (
     and_then (generated_id E vs 0) (\<lambda>project_id.
     and_then (generated_id E vs 1) (\<lambda>spec_id.
     and_then (generated_id E vs 2) (\<lambda>eid.
     and_then (distinct_ids [project_id, spec_id, eid]) (\<lambda>_.
     and_then (sampled_at vs) (\<lambda>at.
     and_then (insert_claim ctx b at db) (\<lambda>db.
     or_exhausted b at db (allocate_event_sequences 1 db) (\<lambda>(sequence, db).
     and_then (insert_domain_event eid sequence b ''project.created.v1'' ''PROJECT'' project_id 1 at db) (\<lambda>db.
     and_then (insert_project
        \<lparr>pr_id = project_id, pr_name = cp_name q, pr_current_spec = spec_id,
         pr_revision = revision_bytes 1, pr_creation_sequence = sequence,
         pr_command_id = binding_command_id b, pr_updated_at = stamp at\<rparr> db) (\<lambda>db.
     and_then (insert_project_specification spec_id project_id 1 (binding_command_id b)
        (cp_specification q) db) (\<lambda>db.
     complete_versioned E b project_id (ProjectPayload spec_id 1 1) at db))))))))))))"

record revise_project_spec_command =
  rps_binding :: command_binding
  rps_project_id :: bytes
  rps_expected_revision :: revision_no
  rps_specification :: project_specification
  rps_values :: value_source

definition revise_project_spec_command_new ::
  "store_env \<Rightarrow> revise_project_spec_command \<Rightarrow> asset_store_error + revise_project_spec_command" where
  "revise_project_spec_command_new E q =
    and_then (require_operation (rps_binding q) PROJECT_SPEC_REVISE_V1) (\<lambda>_.
    and_then (map_err (\<lambda>_. Store_Validation) (id_from_bytes (env_uuid E) (rps_project_id q))) (\<lambda>_. Ok q))"

definition u32_try_from_u64 :: "u64 \<Rightarrow> u32 option" where
  "u32_try_from_u64 v = (if unat v < 2 ^ 32 then Some (word_of_nat (unat v)) else None)"

definition revise_project_spec ::
  "store_env \<Rightarrow> store_context \<Rightarrow> revise_project_spec_command \<Rightarrow> database \<Rightarrow>
    asset_store_error + (mutation_outcome \<times> database)" where
  "revise_project_spec E ctx q db =
    (let b = rps_binding q; vs = rps_values q in
     unless_replayed E ctx b ''PROJECT_SPEC_REVISION'' db (
     and_then (generated_id E vs 0) (\<lambda>spec_id.
     and_then (generated_id E vs 1) (\<lambda>eid.
     and_then (distinct_ids [spec_id, eid]) (\<lambda>_.
     and_then (sampled_at vs) (\<lambda>at.
     and_then (insert_claim ctx b at db) (\<lambda>db.
     case find (\<lambda>p. pr_id p = rps_project_id q) (projects db) of
       None \<Rightarrow> commit_rejection b NotFound at db
     | Some p \<Rightarrow>
       and_then (parse_revision (pr_revision p)) (\<lambda>current.
       if current \<noteq> rps_expected_revision q then commit_rejection b Conflict at db
       else case checked_add current 1 of
         None \<Rightarrow> commit_rejection b RevisionExhausted at db
       | Some next \<Rightarrow>
         (case u32_try_from_u64 next of
           None \<Rightarrow> commit_rejection b RevisionExhausted at db
         | Some sequence \<Rightarrow>
           and_then (insert_project_specification spec_id (rps_project_id q) sequence
              (binding_command_id b) (rps_specification q) db) (\<lambda>db.
           or_exhausted b at db (allocate_event_sequences 1 db) (\<lambda>(event_sequence, db).
           let hit = (\<lambda>p. pr_id p = rps_project_id q \<and> pr_revision p = revision_bytes current) in
           if count_rows hit (projects db) \<noteq> 1 then Err Store_StorageCorruption
           else and_then (insert_domain_event eid event_sequence b ''project.spec.revised.v1''
                ''PROJECT_SPEC_REVISION'' spec_id next at
                (db\<lparr>projects := update_rows hit (\<lambda>p. p\<lparr>pr_current_spec := spec_id,
                   pr_revision := revision_bytes next, pr_updated_at := stamp at\<rparr>) (projects db)\<rparr>)) (\<lambda>db.
             complete_versioned E b spec_id
               (ProjectSpecRevisionPayload (rps_project_id q) next sequence) at db))))))))))))"

record create_subject_command =
  cs_binding :: command_binding
  cs_kind :: string
  cs_name :: utext
  cs_values :: value_source

definition create_subject_command_new :: "create_subject_command \<Rightarrow> asset_store_error + create_subject_command" where
  "create_subject_command_new q = and_then (require_operation (cs_binding q) SUBJECT_CREATE_V1) (\<lambda>_. Ok q)"

definition insert_subject :: "subject_row \<Rightarrow> database \<Rightarrow> asset_store_error + database" where
  "insert_subject r db =
    and_then (insert_row
        (\<lambda>r r'. su_id r = su_id r' \<or> su_creation_sequence r = su_creation_sequence r') r (subjects db))
      (\<lambda>rows. Ok (db\<lparr>subjects := rows\<rparr>))"

definition create_subject ::
  "store_env \<Rightarrow> store_context \<Rightarrow> create_subject_command \<Rightarrow> database \<Rightarrow>
    asset_store_error + (mutation_outcome \<times> database)" where
  "create_subject E ctx q db =
    (let b = cs_binding q; vs = cs_values q in
     unless_replayed E ctx b ''SUBJECT'' db (
     and_then (generated_id E vs 0) (\<lambda>subject_id.
     and_then (generated_id E vs 1) (\<lambda>eid.
     and_then (distinct_ids [subject_id, eid]) (\<lambda>_.
     and_then (sampled_at vs) (\<lambda>at.
     and_then (insert_claim ctx b at db) (\<lambda>db.
     or_exhausted b at db (allocate_event_sequences 1 db) (\<lambda>(sequence, db).
     and_then (insert_domain_event eid sequence b ''subject.created.v1'' ''SUBJECT'' subject_id 1 at db) (\<lambda>db.
     and_then (insert_subject
        \<lparr>su_id = subject_id, su_kind = cs_kind q, su_name = cs_name q, su_revision = revision_bytes 1,
         su_creation_sequence = sequence, su_command_id = binding_command_id b\<rparr> db) (\<lambda>db.
     complete_versioned E b subject_id (SubjectPayload 1) at db))))))))))"

section \<open>Work items\<close>

definition validate_work_references :: "database \<Rightarrow> work_specification \<Rightarrow> bool" where
  "validate_work_references db specification =
    (list_all (\<lambda>i. list_ex (\<lambda>s. su_id s = i) (subjects db)) (subject_ids specification)
     \<and> list_all (\<lambda>i. list_ex (\<lambda>a. as_id a = i) (assets db)) (asset_ids specification))"

fun insert_work_edges ::
  "string \<Rightarrow> string \<Rightarrow> bytes \<Rightarrow> command_binding \<Rightarrow> bytes list \<Rightarrow> bytes list \<Rightarrow> database \<Rightarrow>
    asset_store_error + (bytes list \<times> database)" where
  "insert_work_edges kind target_kind wrid b [] relationship_ids db = Ok (relationship_ids, db)"
| "insert_work_edges kind target_kind wrid b (t # ts) [] db = Err Store_Internal"
| "insert_work_edges kind target_kind wrid b (t # ts) (i # is) db =
    and_then (insert_relationship_row
        \<lparr>rel_id = i, rel_kind = kind, rel_source_kind = ''WORK_REVISION'', rel_source_id = wrid,
         rel_target_kind = target_kind, rel_target_id = t, rel_command_id = binding_command_id b\<rparr> db)
      (\<lambda>db. insert_work_edges kind target_kind wrid b ts is db)"

definition insert_work_revision ::
  "bytes \<Rightarrow> bytes \<Rightarrow> u32 \<Rightarrow> command_binding \<Rightarrow> work_specification \<Rightarrow> bytes list \<Rightarrow> database \<Rightarrow>
    asset_store_error + database" where
  "insert_work_revision wrid work_item_id sequence b specification relationship_ids db =
    and_then (insert_row
        (\<lambda>r r'. wr_id r = wr_id r' \<or> wr_work_item_id r = wr_work_item_id r' \<and> wr_sequence r = wr_sequence r')
        \<lparr>wr_id = wrid, wr_work_item_id = work_item_id, wr_sequence = uint sequence,
         wr_json = work_json specification, wr_command_id = binding_command_id b\<rparr>
        (work_revisions db)) (\<lambda>rows.
    and_then (insert_work_edges ''WORK_SUBJECT'' ''SUBJECT'' wrid b (subject_ids specification)
        relationship_ids (db\<lparr>work_revisions := rows\<rparr>)) (\<lambda>(rest, db).
    and_then (insert_work_edges ''WORK_ASSET'' ''ASSET'' wrid b (asset_ids specification) rest db) (\<lambda>(rest, db).
      if rest \<noteq> [] then Err Store_Internal else Ok db)))"

record create_work_command =
  cw_binding :: command_binding
  cw_project_id :: bytes
  cw_kind :: work_kind
  cw_code :: utext
  cw_specification :: work_specification
  cw_values :: value_source

definition create_work_command_new :: "create_work_command \<Rightarrow> asset_store_error + create_work_command" where
  "create_work_command_new q = and_then (require_operation (cw_binding q) WORK_CREATE_V1) (\<lambda>_. Ok q)"

definition sample_work_ids ::
  "store_env \<Rightarrow> value_source \<Rightarrow> nat \<Rightarrow> asset_store_error + (uuid \<times> uuid \<times> uuid \<times> uuid list)" where
  "sample_work_ids E vs relationship_count =
    and_then (generated_id E vs 0) (\<lambda>work_item_id.
    and_then (generated_id E vs 1) (\<lambda>work_revision_id.
    and_then (generated_id E vs 2) (\<lambda>eid.
    and_then (generated_ids E vs 3 relationship_count) (\<lambda>relationship_ids.
    and_then (distinct_ids ([work_item_id, work_revision_id, eid] @ relationship_ids)) (\<lambda>_.
      Ok (work_item_id, work_revision_id, eid, relationship_ids))))))"

definition insert_work_item :: "work_item_row \<Rightarrow> database \<Rightarrow> asset_store_error + database" where
  "insert_work_item r db =
    and_then (insert_row
        (\<lambda>r r'. wi_id r = wi_id r' \<or> wi_creation_sequence r = wi_creation_sequence r'
          \<or> wi_project_id r = wi_project_id r' \<and> wi_kind r = wi_kind r' \<and> wi_code r = wi_code r')
        r (work_items db))
      (\<lambda>rows. Ok (db\<lparr>work_items := rows\<rparr>))"

definition create_work ::
  "store_env \<Rightarrow> store_context \<Rightarrow> create_work_command \<Rightarrow> database \<Rightarrow>
    asset_store_error + (mutation_outcome \<times> database)" where
  "create_work E ctx q db =
    (let b = cw_binding q; vs = cw_values q; spec = cw_specification q in
     unless_replayed E ctx b ''WORK_ITEM'' db (
     and_then (sample_work_ids E vs (length (subject_ids spec) + length (asset_ids spec)))
       (\<lambda>(work_id, wrid, eid, relationship_ids).
     and_then (sampled_at vs) (\<lambda>at.
     and_then (insert_claim ctx b at db) (\<lambda>db.
     if \<not> list_ex (\<lambda>p. pr_id p = cw_project_id q) (projects db) \<or> \<not> validate_work_references db spec
       then commit_rejection b NotFound at db
     else if list_ex (\<lambda>w. wi_project_id w = cw_project_id q \<and> wi_kind w = work_kind_as_str (cw_kind q)
         \<and> wi_code w = cw_code q) (work_items db)
       then commit_rejection b Conflict at db
     else or_exhausted b at db (allocate_event_sequences 1 db) (\<lambda>(event_sequence, db).
       and_then (insert_domain_event eid event_sequence b ''work.created.v1'' ''WORK_ITEM'' work_id 1 at db) (\<lambda>db.
       and_then (insert_work_item
          \<lparr>wi_id = work_id, wi_project_id = cw_project_id q, wi_kind = work_kind_as_str (cw_kind q),
           wi_code = cw_code q, wi_current_revision = wrid, wi_revision = revision_bytes 1,
           wi_creation_sequence = event_sequence, wi_command_id = binding_command_id b,
           wi_updated_at = stamp at\<rparr> db) (\<lambda>db.
       and_then (insert_work_revision wrid work_id 1 b spec relationship_ids db) (\<lambda>db.
         complete_versioned E b work_id (WorkItemPayload wrid 1 1) at db)))))))))"

record revise_work_command =
  rw_binding :: command_binding
  rw_project_id :: bytes
  rw_work_item_id :: bytes
  rw_expected_revision :: revision_no
  rw_specification :: work_specification
  rw_values :: value_source

definition revise_work_command_new :: "revise_work_command \<Rightarrow> asset_store_error + revise_work_command" where
  "revise_work_command_new q = and_then (require_operation (rw_binding q) WORK_REVISE_V1) (\<lambda>_. Ok q)"

definition revise_work_rows ::
  "store_env \<Rightarrow> revise_work_command \<Rightarrow> bytes \<Rightarrow> bytes \<Rightarrow> bytes list \<Rightarrow> timestamp \<Rightarrow> u64 \<Rightarrow> u64 \<Rightarrow> u32 \<Rightarrow>
    database \<Rightarrow> asset_store_error + (mutation_outcome \<times> database)" where
  "revise_work_rows E q wrid eid relationship_ids at current next sequence db =
    (let b = rw_binding q;
         hit = (\<lambda>w. wi_id w = rw_work_item_id q \<and> wi_project_id w = rw_project_id q
                 \<and> wi_revision w = revision_bytes current) in
     and_then (insert_work_revision wrid (rw_work_item_id q) sequence b (rw_specification q)
        relationship_ids db) (\<lambda>db.
     if count_rows hit (work_items db) \<noteq> 1 then Err Store_StorageCorruption
     else let db = db\<lparr>work_items := update_rows hit (\<lambda>w. w\<lparr>wi_current_revision := wrid,
            wi_revision := revision_bytes next, wi_updated_at := stamp at\<rparr>) (work_items db)\<rparr> in
       or_exhausted b at db (allocate_event_sequences 1 db) (\<lambda>(event_sequence, db).
       and_then (insert_domain_event eid event_sequence b ''work.revised.v1'' ''WORK_REVISION'' wrid next at db) (\<lambda>db.
         complete_versioned E b wrid (WorkRevisionPayload (rw_work_item_id q) next sequence) at db))))"

definition revise_work ::
  "store_env \<Rightarrow> store_context \<Rightarrow> revise_work_command \<Rightarrow> database \<Rightarrow>
    asset_store_error + (mutation_outcome \<times> database)" where
  "revise_work E ctx q db =
    (let b = rw_binding q; vs = rw_values q; spec = rw_specification q in
     unless_replayed E ctx b ''WORK_REVISION'' db (
     and_then (generated_id E vs 0) (\<lambda>wrid.
     and_then (generated_id E vs 1) (\<lambda>eid.
     and_then (generated_ids E vs 2 (length (subject_ids spec) + length (asset_ids spec))) (\<lambda>relationship_ids.
     and_then (distinct_ids ([wrid, eid] @ relationship_ids)) (\<lambda>_.
     and_then (sampled_at vs) (\<lambda>at.
     and_then (insert_claim ctx b at db) (\<lambda>db.
     case find (\<lambda>w. wi_id w = rw_work_item_id q \<and> wi_project_id w = rw_project_id q) (work_items db) of
       None \<Rightarrow> commit_rejection b NotFound at db
     | Some w \<Rightarrow>
       and_then (parse_revision (wi_revision w)) (\<lambda>current.
       if current \<noteq> rw_expected_revision q then commit_rejection b Conflict at db
       else if \<not> validate_work_references db spec then commit_rejection b NotFound at db
       else case checked_add current 1 of
         None \<Rightarrow> commit_rejection b RevisionExhausted at db
       | Some next \<Rightarrow>
         (case u32_try_from_u64 next of
           None \<Rightarrow> commit_rejection b RevisionExhausted at db
         | Some sequence \<Rightarrow>
           revise_work_rows E q wrid eid relationship_ids at current next sequence db))))))))))"

section \<open>Takes\<close>

definition take_context_exists :: "database \<Rightarrow> bytes \<Rightarrow> bytes \<Rightarrow> bytes \<Rightarrow> bool" where
  "take_context_exists db project_id work_item_id work_revision_id =
    list_ex (\<lambda>w. list_ex (\<lambda>wr. wr_work_item_id wr = wi_id w \<and> wi_project_id w = project_id
      \<and> wi_id w = work_item_id \<and> wr_id wr = work_revision_id) (work_revisions db)) (work_items db)"

definition asset_exists :: "database \<Rightarrow> bytes \<Rightarrow> bool" where
  "asset_exists db aid = list_ex (\<lambda>a. as_id a = aid) (assets db)"

definition maximum :: "int list \<Rightarrow> int option" where
  "maximum xs = (case xs of [] \<Rightarrow> None | x # ys \<Rightarrow> Some (fold max ys x))"

definition next_take_ordinal :: "database \<Rightarrow> bytes \<Rightarrow> asset_store_error + u32" where
  "next_take_ordinal db work_revision_id =
    (let m = maximum (map tk_ordinal (filter (\<lambda>t. tk_work_revision_id t = work_revision_id) (takes db))) in
     case u32_try_from (case m of None \<Rightarrow> 0 | Some v \<Rightarrow> v) of
       None \<Rightarrow> Err Store_RevisionExhausted
     | Some v \<Rightarrow>
       (case checked_add v 1 of
          None \<Rightarrow> Err Store_RevisionExhausted
        | Some n \<Rightarrow> (if n \<noteq> 0 then Ok n else Err Store_RevisionExhausted)))"

definition read_take ::
  "database \<Rightarrow> bytes \<Rightarrow> bytes \<Rightarrow> asset_store_error + (u32 \<times> take_state \<times> bytes \<times> revision_no) option" where
  "read_take db take_id work_revision_id =
    (case find (\<lambda>t. tk_id t = take_id \<and> tk_work_revision_id t = work_revision_id) (takes db) of
       None \<Rightarrow> Ok None
     | Some t \<Rightarrow>
       and_then (ok_or Store_StorageCorruption (u32_try_from (tk_ordinal t))) (\<lambda>ordinal.
       and_then (map_err (\<lambda>_. Store_StorageCorruption) (take_state_parse (tk_state t))) (\<lambda>st.
       and_then (ensure (length (tk_primary_asset_id t) = 16) Store_StorageCorruption) (\<lambda>_.
       and_then (parse_revision (tk_revision t)) (\<lambda>revision.
         Ok (Some (ordinal, st, tk_primary_asset_id t, revision)))))))"

text \<open>The partial unique index \<open>takes_one_selected_idx\<close>.\<close>

definition one_selected :: "take_row list \<Rightarrow> bool" where
  "one_selected rows = distinct (map tk_work_revision_id (filter (\<lambda>t. tk_state t = ''SELECTED'') rows))"

definition insert_take ::
  "bytes \<Rightarrow> bytes \<Rightarrow> u32 \<Rightarrow> take_state \<Rightarrow> bytes \<Rightarrow> int \<Rightarrow> command_binding \<Rightarrow> timestamp \<Rightarrow> database \<Rightarrow>
    asset_store_error + database" where
  "insert_take take_id work_revision_id ordinal st primary_asset_id sequence b at db =
    and_then (insert_row
        (\<lambda>r r'. tk_id r = tk_id r'
          \<or> tk_work_revision_id r = tk_work_revision_id r' \<and> tk_ordinal r = tk_ordinal r'
          \<or> tk_creation_sequence r = tk_creation_sequence r'
          \<or> tk_work_revision_id r = tk_work_revision_id r' \<and> tk_state r = ''SELECTED''
             \<and> tk_state r' = ''SELECTED'')
        \<lparr>tk_id = take_id, tk_work_revision_id = work_revision_id, tk_ordinal = uint ordinal,
         tk_state = take_state_as_str st, tk_primary_asset_id = primary_asset_id,
         tk_revision = revision_bytes 1, tk_creation_sequence = sequence,
         tk_command_id = binding_command_id b, tk_updated_at = stamp at\<rparr> (takes db))
      (\<lambda>rows. Ok (db\<lparr>takes := rows\<rparr>))"

definition update_takes ::
  "(take_row \<Rightarrow> bool) \<Rightarrow> take_state \<Rightarrow> u64 \<Rightarrow> timestamp \<Rightarrow> database \<Rightarrow> asset_store_error + (nat \<times> database)" where
  "update_takes hit st revision at db =
    (let rows = update_rows hit (\<lambda>t. t\<lparr>tk_state := take_state_as_str st,
        tk_revision := revision_bytes revision, tk_updated_at := stamp at\<rparr>) (takes db) in
     if one_selected rows then Ok (count_rows hit (takes db), db\<lparr>takes := rows\<rparr>) else Err Store_Internal)"

record create_take_command =
  ct_binding :: command_binding
  ct_project_id :: bytes
  ct_work_item_id :: bytes
  ct_work_revision_id :: bytes
  ct_primary_asset_id :: bytes
  ct_values :: value_source

definition create_take_command_new :: "create_take_command \<Rightarrow> asset_store_error + create_take_command" where
  "create_take_command_new q = and_then (require_operation (ct_binding q) TAKE_CREATE_V1) (\<lambda>_. Ok q)"

definition create_take ::
  "store_env \<Rightarrow> store_context \<Rightarrow> create_take_command \<Rightarrow> database \<Rightarrow>
    asset_store_error + (mutation_outcome \<times> database)" where
  "create_take E ctx q db =
    (let b = ct_binding q; vs = ct_values q in
     unless_replayed E ctx b ''TAKE'' db (
     and_then (generated_id E vs 0) (\<lambda>take_id.
     and_then (generated_id E vs 1) (\<lambda>eid.
     and_then (distinct_ids [take_id, eid]) (\<lambda>_.
     and_then (sampled_at vs) (\<lambda>at.
     and_then (insert_claim ctx b at db) (\<lambda>db.
     if \<not> take_context_exists db (ct_project_id q) (ct_work_item_id q) (ct_work_revision_id q)
         \<or> \<not> asset_exists db (ct_primary_asset_id q)
       then commit_rejection b NotFound at db
     else or_exhausted b at db (next_take_ordinal db (ct_work_revision_id q)) (\<lambda>ordinal.
       or_exhausted b at db (allocate_event_sequences 1 db) (\<lambda>(event_sequence, db).
       and_then (insert_domain_event eid event_sequence b ''take.created.v1'' ''TAKE'' take_id 1 at db) (\<lambda>db.
       and_then (insert_take take_id (ct_work_revision_id q) ordinal Candidate (ct_primary_asset_id q)
          event_sequence b at db) (\<lambda>db.
         complete_versioned E b take_id
           (TakePayload 1 ordinal Candidate (ct_primary_asset_id q) None) at db)))))))))))"

record transition_take_command =
  tt_binding :: command_binding
  tt_project_id :: bytes
  tt_work_item_id :: bytes
  tt_work_revision_id :: bytes
  tt_take_id :: bytes
  tt_expected_revision :: revision_no
  tt_transition :: take_transition
  tt_reason :: "bytes option"
  tt_related_take :: "(bytes \<times> revision_no) option"
  tt_values :: value_source

definition transition_take_command_new :: "transition_take_command \<Rightarrow> asset_store_error + transition_take_command" where
  "transition_take_command_new q =
    and_then (require_operation (tt_binding q) TAKE_TRANSITION_V1) (\<lambda>_.
    let shape_valid = (case tt_transition q of
        Shortlist \<Rightarrow> tt_reason q = None \<and> tt_related_take q = None
      | Approve \<Rightarrow> tt_reason q = None \<and> tt_related_take q = None
      | Reject \<Rightarrow> tt_reason q \<noteq> None \<and> tt_related_take q = None
      | Select \<Rightarrow> tt_reason q = None
      | Supersede \<Rightarrow> tt_reason q = None \<and> tt_related_take q \<noteq> None) in
    if shape_valid then Ok q else Err Store_Validation)"

text \<open>The take a transition replaces or is replaced by: a rejection code, or the related take
  with the selected take it supersedes (its identity, its revision and its next revision).\<close>

definition select_replacement ::
  "transition_take_command \<Rightarrow> database \<Rightarrow>
    asset_store_error + (error_code + (bytes option \<times> (bytes \<times> u64 \<times> u64) option))" where
  "select_replacement q db =
    (case (find (\<lambda>t. tk_work_revision_id t = tt_work_revision_id q \<and> tk_state t = ''SELECTED''
            \<and> tk_id t \<noteq> tt_take_id q) (takes db), tt_related_take q) of
       (None, None) \<Rightarrow> Ok (Inr (None, None))
     | (Some t, Some (supplied_id, supplied_revision)) \<Rightarrow>
         and_then (ensure (length (tk_id t) = 16) Store_StorageCorruption) (\<lambda>_.
         and_then (parse_revision (tk_revision t)) (\<lambda>selected_revision.
         if tk_id t \<noteq> supplied_id \<or> selected_revision \<noteq> supplied_revision then Ok (Inl Conflict)
         else case checked_add selected_revision 1 of
           None \<Rightarrow> Ok (Inl RevisionExhausted)
         | Some superseded_revision \<Rightarrow>
             Ok (Inr (Some supplied_id, Some (supplied_id, selected_revision, superseded_revision)))))
     | _ \<Rightarrow> Ok (Inl InvalidTransition))"

definition supersede_replacement ::
  "transition_take_command \<Rightarrow> database \<Rightarrow>
    asset_store_error + (error_code + (bytes option \<times> (bytes \<times> u64 \<times> u64) option))" where
  "supersede_replacement q db =
    (case tt_related_take q of
       None \<Rightarrow> Err Store_Internal
     | Some (replacement_id, replacement_revision) \<Rightarrow>
         and_then (read_take db replacement_id (tt_work_revision_id q)) (\<lambda>replacement.
           case replacement of
             None \<Rightarrow> Ok (Inl NotFound)
           | Some (_, _, _, stored_revision) \<Rightarrow>
             (if replacement_id = tt_take_id q \<or> stored_revision \<noteq> replacement_revision
              then Ok (Inl Conflict) else Ok (Inr (Some replacement_id, None)))))"

definition replacement_of ::
  "transition_take_command \<Rightarrow> database \<Rightarrow>
    asset_store_error + (error_code + (bytes option \<times> (bytes \<times> u64 \<times> u64) option))" where
  "replacement_of q db =
    (if tt_transition q = Select then select_replacement q db
     else if tt_transition q = Supersede then supersede_replacement q db
     else Ok (Inr (None, None)))"

definition supersede_rows ::
  "store_env \<Rightarrow> transition_take_command \<Rightarrow> bytes \<Rightarrow> bytes \<Rightarrow> int \<Rightarrow> timestamp \<Rightarrow> bytes option \<Rightarrow>
    (bytes \<times> u64 \<times> u64) option \<Rightarrow> database \<Rightarrow> asset_store_error + database" where
  "supersede_rows E q first_event relationship_id first_sequence at related selected db =
    (let b = tt_binding q in
     case selected of
       Some (selected_id, selected_revision, superseded_revision) \<Rightarrow>
         and_then (update_takes (\<lambda>t. tk_id t = selected_id \<and> tk_revision t = revision_bytes selected_revision
             \<and> tk_state t = ''SELECTED'') Superseded superseded_revision at db) (\<lambda>(changed, db).
         if changed \<noteq> 1 then Err Store_StorageCorruption
         else and_then (insert_payload_event E first_event first_sequence b ''take.superseded.v1'' selected_id
             superseded_revision (Some (tt_take_id q)) at db) (\<lambda>db.
           insert_relationship relationship_id ''TAKE_SUPERSEDES'' (tt_take_id q) selected_id b db))
     | None \<Rightarrow>
         (if tt_transition q = Supersede then
            and_then (ok_or Store_Internal related) (\<lambda>replacement.
              insert_relationship relationship_id ''TAKE_SUPERSEDES'' replacement (tt_take_id q) b db)
          else Ok db))"

definition transition_event :: "transition_take_command \<Rightarrow> bytes option \<Rightarrow> string \<times> bytes option" where
  "transition_event q related =
    (case tt_transition q of
       Shortlist \<Rightarrow> (''take.shortlisted.v1'', None)
     | Select \<Rightarrow> (''take.selected.v1'', related)
     | Approve \<Rightarrow> (''take.approved.v1'', None)
     | Reject \<Rightarrow> (''take.rejected.v1'', tt_reason q)
     | Supersede \<Rightarrow> (''take.superseded.v1'', related))"

definition transition_rows ::
  "store_env \<Rightarrow> transition_take_command \<Rightarrow> bytes \<Rightarrow> bytes \<Rightarrow> bytes \<Rightarrow> timestamp \<Rightarrow> u32 \<Rightarrow> take_state \<Rightarrow>
    bytes \<Rightarrow> u64 \<Rightarrow> u64 \<Rightarrow> bytes option \<Rightarrow> (bytes \<times> u64 \<times> u64) option \<Rightarrow> int \<Rightarrow> database \<Rightarrow>
    asset_store_error + (mutation_outcome \<times> database)" where
  "transition_rows E q first_event second_event relationship_id at ordinal target primary_asset_id
      revision next related selected first_sequence db =
    (let b = tt_binding q in
     and_then (supersede_rows E q first_event relationship_id first_sequence at related selected db) (\<lambda>db.
     and_then (update_takes (\<lambda>t. tk_id t = tt_take_id q \<and> tk_revision t = revision_bytes revision)
        target next at db) (\<lambda>(changed, db).
     if changed \<noteq> 1 then Err Store_StorageCorruption
     else let (etype, payload) = transition_event q related in
       and_then (insert_payload_event E (if selected \<noteq> None then second_event else first_event)
          (if selected \<noteq> None then first_sequence + 1 else first_sequence) b etype (tt_take_id q) next
          payload at db) (\<lambda>db.
       complete_versioned E b (tt_take_id q)
         (TakePayload next ordinal target primary_asset_id related) at db))))"

definition transition_take ::
  "store_env \<Rightarrow> store_context \<Rightarrow> transition_take_command \<Rightarrow> database \<Rightarrow>
    asset_store_error + (mutation_outcome \<times> database)" where
  "transition_take E ctx q db =
    (let b = tt_binding q; vs = tt_values q in
     unless_replayed E ctx b ''TAKE'' db (
     and_then (generated_id E vs 0) (\<lambda>first_event.
     and_then (generated_id E vs 1) (\<lambda>second_event.
     and_then (generated_id E vs 2) (\<lambda>relationship_id.
     and_then (distinct_ids [first_event, second_event, relationship_id]) (\<lambda>_.
     and_then (sampled_at vs) (\<lambda>at.
     and_then (insert_claim ctx b at db) (\<lambda>db.
     if \<not> take_context_exists db (tt_project_id q) (tt_work_item_id q) (tt_work_revision_id q)
       then commit_rejection b NotFound at db
     else and_then (read_take db (tt_take_id q) (tt_work_revision_id q)) (\<lambda>current.
       case current of
         None \<Rightarrow> commit_rejection b NotFound at db
       | Some (ordinal, st, primary_asset_id, revision) \<Rightarrow>
         (if revision \<noteq> tt_expected_revision q then commit_rejection b Conflict at db
          else case transition st (tt_transition q) of
            Inl _ \<Rightarrow> commit_rejection b InvalidTransition at db
          | Inr target \<Rightarrow>
            (if tt_transition q = Shortlist \<and> \<not> asset_exists db primary_asset_id
               then commit_rejection b NotFound at db
             else case checked_add revision 1 of
               None \<Rightarrow> commit_rejection b RevisionExhausted at db
             | Some next \<Rightarrow>
               and_then (replacement_of q db) (\<lambda>decision.
                 case decision of
                   Inl code \<Rightarrow> commit_rejection b code at db
                 | Inr (related, selected) \<Rightarrow>
                   or_exhausted b at db
                     (allocate_event_sequences (if selected \<noteq> None then 2 else 1) db)
                     (\<lambda>(first_sequence, db).
                       transition_rows E q first_event second_event relationship_id at ordinal target
                         primary_asset_id revision next related selected first_sequence db)))))))))))))"

record reopen_take_command =
  ro_binding :: command_binding
  ro_project_id :: bytes
  ro_work_item_id :: bytes
  ro_work_revision_id :: bytes
  ro_terminal_take_id :: bytes
  ro_expected_terminal_revision :: revision_no
  ro_new_primary_asset_id :: bytes
  ro_values :: value_source

definition reopen_take_command_new :: "reopen_take_command \<Rightarrow> asset_store_error + reopen_take_command" where
  "reopen_take_command_new q = and_then (require_operation (ro_binding q) TAKE_REOPEN_V1) (\<lambda>_. Ok q)"

definition reopen_take ::
  "store_env \<Rightarrow> store_context \<Rightarrow> reopen_take_command \<Rightarrow> database \<Rightarrow>
    asset_store_error + (mutation_outcome \<times> database)" where
  "reopen_take E ctx q db =
    (let b = ro_binding q; vs = ro_values q in
     unless_replayed E ctx b ''TAKE'' db (
     and_then (generated_id E vs 0) (\<lambda>take_id.
     and_then (generated_id E vs 1) (\<lambda>eid.
     and_then (generated_id E vs 2) (\<lambda>relationship_id.
     and_then (distinct_ids [take_id, eid, relationship_id]) (\<lambda>_.
     and_then (sampled_at vs) (\<lambda>at.
     and_then (insert_claim ctx b at db) (\<lambda>db.
     if \<not> take_context_exists db (ro_project_id q) (ro_work_item_id q) (ro_work_revision_id q)
         \<or> \<not> asset_exists db (ro_new_primary_asset_id q)
       then commit_rejection b NotFound at db
     else and_then (read_take db (ro_terminal_take_id q) (ro_work_revision_id q)) (\<lambda>terminal.
       case terminal of
         None \<Rightarrow> commit_rejection b NotFound at db
       | Some (_, old_state, old_asset, old_revision) \<Rightarrow>
         (if old_revision \<noteq> ro_expected_terminal_revision q then commit_rejection b Conflict at db
          else if \<not> is_terminal old_state \<or> old_asset = ro_new_primary_asset_id q
            then commit_rejection b InvalidTransition at db
          else or_exhausted b at db (next_take_ordinal db (ro_work_revision_id q)) (\<lambda>ordinal.
            or_exhausted b at db (allocate_event_sequences 1 db) (\<lambda>(event_sequence, db).
            and_then (insert_payload_event E eid event_sequence b ''take.reopened.v1'' take_id 1
               (Some (ro_terminal_take_id q)) at db) (\<lambda>db.
            and_then (insert_take take_id (ro_work_revision_id q) ordinal Candidate
               (ro_new_primary_asset_id q) event_sequence b at db) (\<lambda>db.
            and_then (insert_relationship relationship_id ''TAKE_REOPENS'' take_id (ro_terminal_take_id q) b db) (\<lambda>db.
              complete_versioned E b take_id
                (TakePayload 1 ordinal Candidate (ro_new_primary_asset_id q)
                  (Some (ro_terminal_take_id q))) at db)))))))))))))))"

section \<open>Every operation settles its command\<close>

text \<open>A computation settles when each result it commits is a settled row for the command.
  The claim is the last row of the journal until the command settles.\<close>

definition settling ::
  "store_env \<Rightarrow> store_context \<Rightarrow> command_binding \<Rightarrow> string \<Rightarrow> database \<Rightarrow>
    asset_store_error + (mutation_outcome \<times> database) \<Rightarrow> bool" where
  "settling E ctx b kind db m = (\<forall>out db'. m = Ok (out, db') \<longrightarrow> settles E ctx b kind db out db')"

definition claims ::
  "store_env \<Rightarrow> store_context \<Rightarrow> command_binding \<Rightarrow> string \<Rightarrow> timestamp \<Rightarrow> database \<Rightarrow> database \<Rightarrow> bool" where
  "claims E ctx b kind at db db1 =
    (read_command db b = None \<and> binding_wf E ctx b \<and> clock_ok E at
     \<and> (binding_operation_id b, kind) \<in> set pure_operations
     \<and> commands db1 = commands db @ [claimed_row ctx b at])"

named_theorems settling_intros "closure of the settling computations"

lemma settling_Err [settling_intros]: "settling E ctx b kind db (Err e)"
  by (simp add: settling_def)

lemma settling_and_then [settling_intros]:
  "(\<And>x. m = Ok x \<Longrightarrow> settling E ctx b kind db (k x)) \<Longrightarrow> settling E ctx b kind db (and_then m k)"
  by (auto simp add: settling_def and_then_ok_iff)

lemma settling_rejection:
  "claims E ctx b kind at db db1 \<Longrightarrow> is_pure_rejection_code c \<Longrightarrow>
    settling E ctx b kind db (commit_rejection b c at db1)"
  unfolding settling_def claims_def using settles_rejection by blast

lemma settling_or_exhausted:
  "claims E ctx b kind at db db1 \<Longrightarrow> (\<And>x. m = Ok x \<Longrightarrow> settling E ctx b kind db (k x)) \<Longrightarrow>
    settling E ctx b kind db (or_exhausted b at db1 m k)"
  by (auto simp add: or_exhausted_def settling_Err split: sum.splits intro!: settling_rejection)

lemma settling_complete:
  "claims E ctx b kind at db db1 \<Longrightarrow> binding_operation_id b \<in> set creative_operations \<Longrightarrow>
    result_kind payload = kind \<Longrightarrow>
    settling E ctx b kind db (complete_versioned E b primary payload at db1)"
  unfolding settling_def claims_def using settles_completion by blast

lemma claims_cong: "claims E ctx b kind at db db1 \<Longrightarrow> commands db2 = commands db1 \<Longrightarrow>
    claims E ctx b kind at db db2"
  by (simp add: claims_def)

lemma allocate_commands: "allocate_event_sequences n db = Ok (s, db') \<Longrightarrow> commands db' = commands db"
  by (auto simp add: allocate_event_sequences_def split: if_splits)

lemma insert_event_commands: "insert_event e db = Ok db' \<Longrightarrow> commands db' = commands db"
  by (auto simp add: insert_event_def and_then_ok_iff)

lemma insert_domain_event_commands:
  "insert_domain_event i s b et k a r at db = Ok db' \<Longrightarrow> commands db' = commands db"
  by (auto simp add: insert_domain_event_def intro: insert_event_commands)

lemma insert_payload_event_commands:
  "insert_payload_event E i s b et a r v at db = Ok db' \<Longrightarrow> commands db' = commands db"
  by (auto simp add: insert_payload_event_def and_then_ok_iff intro: insert_event_commands)

lemma insert_relationship_row_commands:
  "insert_relationship_row r db = Ok db' \<Longrightarrow> commands db' = commands db"
  by (auto simp add: insert_relationship_row_def and_then_ok_iff split: if_splits)

lemma insert_relationship_commands:
  "insert_relationship i k s t b db = Ok db' \<Longrightarrow> commands db' = commands db"
  by (auto simp add: insert_relationship_def intro: insert_relationship_row_commands)

lemma insert_work_edges_commands:
  "insert_work_edges k tk w b ts is db = Ok (rest, db') \<Longrightarrow> commands db' = commands db"
  by (induction k tk w b ts "is" db rule: insert_work_edges.induct)
    (auto simp add: and_then_ok_iff dest: insert_relationship_row_commands)

lemma insert_work_revision_commands:
  "insert_work_revision w i s b spec ids db = Ok db' \<Longrightarrow> commands db' = commands db"
  by (auto simp add: insert_work_revision_def and_then_ok_iff split: if_splits
      dest!: insert_work_edges_commands)

lemma insert_row_table_commands:
  "insert_project_specification i p s c spec db = Ok db' \<Longrightarrow> commands db' = commands db"
  "insert_project r db = Ok db1 \<Longrightarrow> commands db1 = commands db"
  "insert_subject sr db = Ok db2 \<Longrightarrow> commands db2 = commands db"
  "insert_work_item wr db = Ok db3 \<Longrightarrow> commands db3 = commands db"
  "insert_take ti w n st a q b at db = Ok db4 \<Longrightarrow> commands db4 = commands db"
  "update_takes hit ts v at db = Ok (m, db5) \<Longrightarrow> commands db5 = commands db"
  by (auto simp add: insert_project_specification_def insert_project_def insert_subject_def
      insert_work_item_def insert_take_def update_takes_def Let_def and_then_ok_iff split: if_splits)

lemma supersede_rows_commands:
  "supersede_rows E q fe ri fs at related selected db = Ok db' \<Longrightarrow> commands db' = commands db"
  by (auto simp add: supersede_rows_def Let_def and_then_ok_iff split: option.splits prod.splits if_splits
      dest!: insert_row_table_commands insert_payload_event_commands insert_relationship_commands)

lemmas keeps_commands =
  allocate_commands insert_domain_event_commands insert_payload_event_commands
  insert_relationship_commands insert_work_revision_commands insert_row_table_commands
  supersede_rows_commands

text \<open>A request the ports can build: a well-formed binding for its own operation and a clock
  whose instants the store can read back.\<close>

definition request_ok ::
  "store_env \<Rightarrow> store_context \<Rightarrow> command_binding \<Rightarrow> string \<Rightarrow> value_source \<Rightarrow> bool" where
  "request_ok E ctx b operation vs =
    (binding_wf E ctx b \<and> binding_operation_id b = operation
     \<and> (case source_now vs of Inl _ \<Rightarrow> True | Inr at \<Rightarrow> clock_ok E at))"

lemma replay_existing_None: "replay_existing E ctx b kind db = Ok None \<Longrightarrow> read_command db b = None"
  by (auto simp add: replay_existing_def and_then_ok_iff split: option.splits if_splits)

lemma claims_start:
  assumes "request_ok E ctx b operation vs" "replay_existing E ctx b kind db = Ok None"
    and "(operation, kind) \<in> set pure_operations"
    and "sampled_at vs = Ok at" "insert_claim ctx b at db = Ok db1" "commands db2 = commands db1"
  shows "claims E ctx b kind at db db2"
  using assms insert_claim_fresh [OF replay_existing_None [OF assms(2)], of ctx at]
  by (auto simp add: claims_def request_ok_def sampled_at_def and_then_ok_iff replay_existing_None)

lemma operation_kinds:
  "(PROJECT_CREATE_V1, ''PROJECT'') \<in> set pure_operations"
  "(PROJECT_SPEC_REVISE_V1, ''PROJECT_SPEC_REVISION'') \<in> set pure_operations"
  "(SUBJECT_CREATE_V1, ''SUBJECT'') \<in> set pure_operations"
  "(WORK_CREATE_V1, ''WORK_ITEM'') \<in> set pure_operations"
  "(WORK_REVISE_V1, ''WORK_REVISION'') \<in> set pure_operations"
  "(TAKE_CREATE_V1, ''TAKE'') \<in> set pure_operations"
  "(TAKE_TRANSITION_V1, ''TAKE'') \<in> set pure_operations"
  "(TAKE_REOPEN_V1, ''TAKE'') \<in> set pure_operations"
  by (simp_all add: pure_operations_def)

lemma creative_operation:
  "request_ok E ctx b operation vs \<Longrightarrow> operation \<in> set creative_operations \<Longrightarrow>
    binding_operation_id b \<in> set creative_operations"
  by (simp add: request_ok_def)

lemmas settling_rules =
  settling_and_then settling_Err settling_rejection settling_or_exhausted settling_complete

lemma creative_kinds:
  "PROJECT_CREATE_V1 \<in> set creative_operations" "PROJECT_SPEC_REVISE_V1 \<in> set creative_operations"
  "SUBJECT_CREATE_V1 \<in> set creative_operations" "WORK_CREATE_V1 \<in> set creative_operations"
  "WORK_REVISE_V1 \<in> set creative_operations" "TAKE_CREATE_V1 \<in> set creative_operations"
  "TAKE_TRANSITION_V1 \<in> set creative_operations" "TAKE_REOPEN_V1 \<in> set creative_operations"
  by (simp_all add: creative_operations_def operation_ids)

lemma create_project_settling:
  assumes ok: "request_ok E ctx (cp_binding q) PROJECT_CREATE_V1 (cp_values q)"
    and fresh: "replay_existing E ctx (cp_binding q) ''PROJECT'' db = Ok None"
  shows "settling E ctx (cp_binding q) ''PROJECT'' db (create_project E ctx q db)"
proof -
  note start = claims_start [OF ok fresh operation_kinds(1)]
  note op = creative_operation [OF ok creative_kinds(1)]
  show ?thesis
    unfolding create_project_def unless_replayed_def Let_def fresh and_then_simps option.case
    by (auto intro!: settling_rules dest!: keeps_commands split: option.splits sum.splits)
      (rule op | (rule start, assumption, assumption, simp))+
qed

lemma revise_project_spec_settling:
  assumes ok: "request_ok E ctx (rps_binding q) PROJECT_SPEC_REVISE_V1 (rps_values q)"
    and fresh: "replay_existing E ctx (rps_binding q) ''PROJECT_SPEC_REVISION'' db = Ok None"
  shows "settling E ctx (rps_binding q) ''PROJECT_SPEC_REVISION'' db (revise_project_spec E ctx q db)"
proof -
  note start = claims_start [OF ok fresh operation_kinds(2)]
  note op = creative_operation [OF ok creative_kinds(2)]
  show ?thesis
    unfolding revise_project_spec_def unless_replayed_def Let_def fresh and_then_simps option.case
    by (auto intro!: settling_rules dest!: keeps_commands split: option.splits sum.splits)
      (rule op | (rule start, assumption, assumption, simp))+
qed

lemma create_subject_settling:
  assumes ok: "request_ok E ctx (cs_binding q) SUBJECT_CREATE_V1 (cs_values q)"
    and fresh: "replay_existing E ctx (cs_binding q) ''SUBJECT'' db = Ok None"
  shows "settling E ctx (cs_binding q) ''SUBJECT'' db (create_subject E ctx q db)"
proof -
  note start = claims_start [OF ok fresh operation_kinds(3)]
  note op = creative_operation [OF ok creative_kinds(3)]
  show ?thesis
    unfolding create_subject_def unless_replayed_def Let_def fresh and_then_simps option.case
    by (auto intro!: settling_rules dest!: keeps_commands split: option.splits sum.splits)
      (rule op | (rule start, assumption, assumption, simp))+
qed

lemma create_work_settling:
  assumes ok: "request_ok E ctx (cw_binding q) WORK_CREATE_V1 (cw_values q)"
    and fresh: "replay_existing E ctx (cw_binding q) ''WORK_ITEM'' db = Ok None"
  shows "settling E ctx (cw_binding q) ''WORK_ITEM'' db (create_work E ctx q db)"
proof -
  note start = claims_start [OF ok fresh operation_kinds(4)]
  note op = creative_operation [OF ok creative_kinds(4)]
  show ?thesis
    unfolding create_work_def unless_replayed_def Let_def fresh and_then_simps option.case
    by (auto intro!: settling_rules dest!: keeps_commands split: option.splits sum.splits)
      (rule op | (rule start, assumption, assumption, simp))+
qed

lemma revise_work_settling:
  assumes ok: "request_ok E ctx (rw_binding q) WORK_REVISE_V1 (rw_values q)"
    and fresh: "replay_existing E ctx (rw_binding q) ''WORK_REVISION'' db = Ok None"
  shows "settling E ctx (rw_binding q) ''WORK_REVISION'' db (revise_work E ctx q db)"
proof -
  note start = claims_start [OF ok fresh operation_kinds(5)]
  note op = creative_operation [OF ok creative_kinds(5)]
  show ?thesis
    unfolding revise_work_def revise_work_rows_def unless_replayed_def Let_def fresh and_then_simps option.case
    by (auto intro!: settling_rules dest!: keeps_commands split: option.splits sum.splits)
      (rule op | (rule start, assumption, assumption, simp))+
qed

lemma create_take_settling:
  assumes ok: "request_ok E ctx (ct_binding q) TAKE_CREATE_V1 (ct_values q)"
    and fresh: "replay_existing E ctx (ct_binding q) ''TAKE'' db = Ok None"
  shows "settling E ctx (ct_binding q) ''TAKE'' db (create_take E ctx q db)"
proof -
  note start = claims_start [OF ok fresh operation_kinds(6)]
  note op = creative_operation [OF ok creative_kinds(6)]
  show ?thesis
    unfolding create_take_def unless_replayed_def Let_def fresh and_then_simps option.case
    by (auto intro!: settling_rules dest!: keeps_commands split: option.splits sum.splits)
      (rule op | (rule start, assumption, assumption, simp))+
qed

lemma replacement_code: "replacement_of q db = Ok (Inl c) \<Longrightarrow> is_pure_rejection_code c"
  by (auto simp add: replacement_of_def select_replacement_def supersede_replacement_def
      and_then_ok_iff split: option.splits prod.splits if_splits)

lemma transition_rows_settling:
  assumes "claims E ctx (tt_binding q) ''TAKE'' at db db1"
    and "binding_operation_id (tt_binding q) \<in> set creative_operations"
  shows "settling E ctx (tt_binding q) ''TAKE'' db (transition_rows E q fe se ri at ordinal target asset
    revision next related selected sequence db1)"
  unfolding transition_rows_def Let_def
  by (auto intro!: settling_rules simp add: assms(2) dest!: keeps_commands split: prod.splits)
    (rule claims_cong [OF assms(1)], simp)+

lemma transition_take_settling:
  assumes ok: "request_ok E ctx (tt_binding q) TAKE_TRANSITION_V1 (tt_values q)"
    and fresh: "replay_existing E ctx (tt_binding q) ''TAKE'' db = Ok None"
  shows "settling E ctx (tt_binding q) ''TAKE'' db (transition_take E ctx q db)"
proof -
  note start = claims_start [OF ok fresh operation_kinds(7)]
  note op = creative_operation [OF ok creative_kinds(7)]
  show ?thesis
    unfolding transition_take_def unless_replayed_def Let_def fresh and_then_simps option.case
    by (auto intro!: settling_rules transition_rows_settling simp del: is_pure_rejection_code.simps
        dest!: keeps_commands replacement_code split: option.splits sum.splits prod.splits)
      (rule op | assumption | (rule start, assumption, assumption, simp) | simp)+
qed

lemma reopen_take_settling:
  assumes ok: "request_ok E ctx (ro_binding q) TAKE_REOPEN_V1 (ro_values q)"
    and fresh: "replay_existing E ctx (ro_binding q) ''TAKE'' db = Ok None"
  shows "settling E ctx (ro_binding q) ''TAKE'' db (reopen_take E ctx q db)"
proof -
  note start = claims_start [OF ok fresh operation_kinds(8)]
  note op = creative_operation [OF ok creative_kinds(8)]
  show ?thesis
    unfolding reopen_take_def unless_replayed_def Let_def fresh and_then_simps option.case
    by (auto intro!: settling_rules dest!: keeps_commands split: option.splits sum.splits)
      (rule op | (rule start, assumption, assumption, simp))+
qed

section \<open>The contract of every operation\<close>

lemma unless_replayed_simps [simp]:
  "replay_existing E ctx b kind db = Ok (Some out) \<Longrightarrow> unless_replayed E ctx b kind db fresh = Ok (out, db)"
  "replay_existing E ctx b kind db = Err e \<Longrightarrow> unless_replayed E ctx b kind db fresh = Err e"
  by (simp_all add: unless_replayed_def)

lemma settlingD: "settling E ctx b kind db m \<Longrightarrow> m = Ok (out, db') \<Longrightarrow> settles E ctx b kind db out db'"
  by (simp add: settling_def)

interpretation project_creation: pure_command E ctx "cp_binding q" "''PROJECT''"
    "request_ok E ctx (cp_binding q) PROJECT_CREATE_V1 (cp_values q)" "create_project E ctx q" for E ctx q
  by unfold_locales (auto simp add: create_project_def Let_def intro: settlingD [OF create_project_settling])

interpretation spec_revision: pure_command E ctx "rps_binding q" "''PROJECT_SPEC_REVISION''"
    "request_ok E ctx (rps_binding q) PROJECT_SPEC_REVISE_V1 (rps_values q)" "revise_project_spec E ctx q" for E ctx q
  by unfold_locales (auto simp add: revise_project_spec_def Let_def intro: settlingD [OF revise_project_spec_settling])

interpretation subject_creation: pure_command E ctx "cs_binding q" "''SUBJECT''"
    "request_ok E ctx (cs_binding q) SUBJECT_CREATE_V1 (cs_values q)" "create_subject E ctx q" for E ctx q
  by unfold_locales (auto simp add: create_subject_def Let_def intro: settlingD [OF create_subject_settling])

interpretation work_creation: pure_command E ctx "cw_binding q" "''WORK_ITEM''"
    "request_ok E ctx (cw_binding q) WORK_CREATE_V1 (cw_values q)" "create_work E ctx q" for E ctx q
  by unfold_locales (auto simp add: create_work_def Let_def intro: settlingD [OF create_work_settling])

interpretation work_revision: pure_command E ctx "rw_binding q" "''WORK_REVISION''"
    "request_ok E ctx (rw_binding q) WORK_REVISE_V1 (rw_values q)" "revise_work E ctx q" for E ctx q
  by unfold_locales (auto simp add: revise_work_def Let_def intro: settlingD [OF revise_work_settling])

interpretation take_creation: pure_command E ctx "ct_binding q" "''TAKE''"
    "request_ok E ctx (ct_binding q) TAKE_CREATE_V1 (ct_values q)" "create_take E ctx q" for E ctx q
  by unfold_locales (auto simp add: create_take_def Let_def intro: settlingD [OF create_take_settling])

interpretation take_transition: pure_command E ctx "tt_binding q" "''TAKE''"
    "request_ok E ctx (tt_binding q) TAKE_TRANSITION_V1 (tt_values q)" "transition_take E ctx q" for E ctx q
  by unfold_locales (auto simp add: transition_take_def Let_def intro: settlingD [OF transition_take_settling])

interpretation take_reopening: pure_command E ctx "ro_binding q" "''TAKE''"
    "request_ok E ctx (ro_binding q) TAKE_REOPEN_V1 (ro_values q)" "reopen_take E ctx q" for E ctx q
  by unfold_locales (auto simp add: reopen_take_def Let_def intro: settlingD [OF reopen_take_settling])

text \<open>The unit of work of the creative ledger: one request of each operation.\<close>

datatype creative_request =
    CreateProject create_project_command
  | ReviseProjectSpec revise_project_spec_command
  | CreateSubject create_subject_command
  | CreateWork create_work_command
  | ReviseWork revise_work_command
  | CreateTake create_take_command
  | TransitionTake transition_take_command
  | ReopenTake reopen_take_command

fun execute_creative ::
  "store_env \<Rightarrow> store_context \<Rightarrow> creative_request \<Rightarrow> database \<Rightarrow>
    asset_store_error + (mutation_outcome \<times> database)" where
  "execute_creative E ctx (CreateProject q) db = create_project E ctx q db"
| "execute_creative E ctx (ReviseProjectSpec q) db = revise_project_spec E ctx q db"
| "execute_creative E ctx (CreateSubject q) db = create_subject E ctx q db"
| "execute_creative E ctx (CreateWork q) db = create_work E ctx q db"
| "execute_creative E ctx (ReviseWork q) db = revise_work E ctx q db"
| "execute_creative E ctx (CreateTake q) db = create_take E ctx q db"
| "execute_creative E ctx (TransitionTake q) db = transition_take E ctx q db"
| "execute_creative E ctx (ReopenTake q) db = reopen_take E ctx q db"

fun creative_binding :: "creative_request \<Rightarrow> command_binding" where
  "creative_binding (CreateProject q) = cp_binding q"
| "creative_binding (ReviseProjectSpec q) = rps_binding q"
| "creative_binding (CreateSubject q) = cs_binding q"
| "creative_binding (CreateWork q) = cw_binding q"
| "creative_binding (ReviseWork q) = rw_binding q"
| "creative_binding (CreateTake q) = ct_binding q"
| "creative_binding (TransitionTake q) = tt_binding q"
| "creative_binding (ReopenTake q) = ro_binding q"

fun creative_values :: "creative_request \<Rightarrow> value_source" where
  "creative_values (CreateProject q) = cp_values q"
| "creative_values (ReviseProjectSpec q) = rps_values q"
| "creative_values (CreateSubject q) = cs_values q"
| "creative_values (CreateWork q) = cw_values q"
| "creative_values (ReviseWork q) = rw_values q"
| "creative_values (CreateTake q) = ct_values q"
| "creative_values (TransitionTake q) = tt_values q"
| "creative_values (ReopenTake q) = ro_values q"

fun creative_operation_id :: "creative_request \<Rightarrow> string" where
  "creative_operation_id (CreateProject q) = PROJECT_CREATE_V1"
| "creative_operation_id (ReviseProjectSpec q) = PROJECT_SPEC_REVISE_V1"
| "creative_operation_id (CreateSubject q) = SUBJECT_CREATE_V1"
| "creative_operation_id (CreateWork q) = WORK_CREATE_V1"
| "creative_operation_id (ReviseWork q) = WORK_REVISE_V1"
| "creative_operation_id (CreateTake q) = TAKE_CREATE_V1"
| "creative_operation_id (TransitionTake q) = TAKE_TRANSITION_V1"
| "creative_operation_id (ReopenTake q) = TAKE_REOPEN_V1"

fun creative_kind :: "creative_request \<Rightarrow> string" where
  "creative_kind (CreateProject q) = ''PROJECT''"
| "creative_kind (ReviseProjectSpec q) = ''PROJECT_SPEC_REVISION''"
| "creative_kind (CreateSubject q) = ''SUBJECT''"
| "creative_kind (CreateWork q) = ''WORK_ITEM''"
| "creative_kind (ReviseWork q) = ''WORK_REVISION''"
| "creative_kind (CreateTake q) = ''TAKE''"
| "creative_kind (TransitionTake q) = ''TAKE''"
| "creative_kind (ReopenTake q) = ''TAKE''"

text \<open>The constructors of the ports only build requests whose operation is their own.\<close>

fun creative_new :: "store_env \<Rightarrow> creative_request \<Rightarrow> bool" where
  "creative_new E (CreateProject q) = is_ok (create_project_command_new q)"
| "creative_new E (ReviseProjectSpec q) = is_ok (revise_project_spec_command_new E q)"
| "creative_new E (CreateSubject q) = is_ok (create_subject_command_new q)"
| "creative_new E (CreateWork q) = is_ok (create_work_command_new q)"
| "creative_new E (ReviseWork q) = is_ok (revise_work_command_new q)"
| "creative_new E (CreateTake q) = is_ok (create_take_command_new q)"
| "creative_new E (TransitionTake q) = is_ok (transition_take_command_new q)"
| "creative_new E (ReopenTake q) = is_ok (reopen_take_command_new q)"

lemma creative_new_operation:
  "creative_new E r \<Longrightarrow> binding_operation_id (creative_binding r) = creative_operation_id r"
  by (cases r) (auto simp add: is_ok_iff and_then_ok_iff require_operation_def create_project_command_new_def
      revise_project_spec_command_new_def create_subject_command_new_def create_work_command_new_def
      revise_work_command_new_def create_take_command_new_def transition_take_command_new_def
      reopen_take_command_new_def split: if_splits)

definition creative_ok :: "store_env \<Rightarrow> store_context \<Rightarrow> creative_request \<Rightarrow> bool" where
  "creative_ok E ctx r = request_ok E ctx (creative_binding r) (creative_operation_id r) (creative_values r)"

interpretation creative: pure_command E ctx "creative_binding r" "creative_kind r"
    "creative_ok E ctx r" "execute_creative E ctx r" for E ctx r
proof unfold_locales
  fix db out
  assume "replay_existing E ctx (creative_binding r) (creative_kind r) db = Ok (Some out)"
  then show "execute_creative E ctx r db = Ok (out, db)"
    by (cases r) (simp_all add: project_creation.run_existing spec_revision.run_existing subject_creation.run_existing
        work_creation.run_existing work_revision.run_existing take_creation.run_existing
        take_transition.run_existing take_reopening.run_existing)
next
  fix db e
  assume "replay_existing E ctx (creative_binding r) (creative_kind r) db = Err e"
  then show "execute_creative E ctx r db = Err e"
    by (cases r) (simp_all add: project_creation.run_refused spec_revision.run_refused subject_creation.run_refused
        work_creation.run_refused work_revision.run_refused take_creation.run_refused
        take_transition.run_refused take_reopening.run_refused)
next
  fix db out db'
  assume "creative_ok E ctx r" "replay_existing E ctx (creative_binding r) (creative_kind r) db = Ok None"
    "execute_creative E ctx r db = Ok (out, db')"
  then show "settles E ctx (creative_binding r) (creative_kind r) db out db'"
    by (cases r) (simp_all add: creative_ok_def project_creation.run_fresh spec_revision.run_fresh subject_creation.run_fresh
        work_creation.run_fresh work_revision.run_fresh take_creation.run_fresh
        take_transition.run_fresh take_reopening.run_fresh)
qed

end
