(* ===== verification/Creative_Ledger.thy ===== *)
theory Creative_Ledger
  imports Creative_Store
begin

text \<open>
  What the creative ledger guarantees over any history of requests: repeating a command is
  harmless, the journal stays readable, and the event log has no gap and no duplicate.
\<close>

section \<open>The event log\<close>

text \<open>The log of a database: which command wrote which commit sequence, and the allocator.\<close>

definition event_log :: "database \<Rightarrow> (int \<times> bytes) list \<times> int" where
  "event_log db = (map (\<lambda>e. (ev_commit_sequence e, ev_command_id e)) (domain_events db), last_sequence db)"

definition gap_free :: "database \<Rightarrow> bool" where
  "gap_free db = (0 \<le> last_sequence db \<and> map ev_commit_sequence (domain_events db) = [1..last_sequence db])"

definition events_journalled :: "database \<Rightarrow> bool" where
  "events_journalled db = list_all (\<lambda>e. ev_command_id e \<in> set (map cmd_id (commands db))) (domain_events db)"

definition appends_events :: "command_binding \<Rightarrow> database \<Rightarrow> database \<Rightarrow> bool" where
  "appends_events b db db' =
    (\<exists>n \<in> {0, 1, 2}. event_log db' =
      (fst (event_log db) @ map (\<lambda>k. (snd (event_log db) + k, binding_command_id b)) [1..n],
       snd (event_log db) + n))"

lemma allocate_log:
  "allocate_event_sequences n db = Ok (s, db') \<Longrightarrow>
    s = snd (event_log db) + 1 \<and> event_log db' = (fst (event_log db), snd (event_log db) + n)"
  by (auto simp add: allocate_event_sequences_def event_log_def split: if_splits)

lemma insert_event_log:
  "insert_event e db = Ok db' \<Longrightarrow>
    event_log db' = (fst (event_log db) @ [(ev_commit_sequence e, ev_command_id e)], snd (event_log db))"
  by (auto simp add: insert_event_def and_then_ok_iff insert_row_ok_iff event_log_def)

lemma insert_domain_event_log:
  "insert_domain_event i s b et k a r at db = Ok db' \<Longrightarrow>
    event_log db' = (fst (event_log db) @ [(s, binding_command_id b)], snd (event_log db))"
  by (auto simp add: insert_domain_event_def dest: insert_event_log)

lemma insert_payload_event_log:
  "insert_payload_event E i s b et a r v at db = Ok db' \<Longrightarrow>
    event_log db' = (fst (event_log db) @ [(s, binding_command_id b)], snd (event_log db))"
  by (auto simp add: insert_payload_event_def and_then_ok_iff dest!: insert_event_log)

lemma insert_relationship_row_log: "insert_relationship_row r db = Ok db' \<Longrightarrow> event_log db' = event_log db"
  by (auto simp add: insert_relationship_row_def and_then_ok_iff event_log_def split: if_splits)

lemma insert_relationship_log: "insert_relationship i k s t b db = Ok db' \<Longrightarrow> event_log db' = event_log db"
  by (auto simp add: insert_relationship_def intro: insert_relationship_row_log)

lemma insert_work_edges_log:
  "insert_work_edges k tk w b ts is db = Ok (rest, db') \<Longrightarrow> event_log db' = event_log db"
  by (induction k tk w b ts "is" db rule: insert_work_edges.induct)
    (auto simp add: and_then_ok_iff dest: insert_relationship_row_log)

lemma event_log_update [simp]:
  "event_log (db\<lparr>work_revisions := wrs\<rparr>) = event_log db"
  "event_log (db\<lparr>work_items := wis\<rparr>) = event_log db"
  "event_log (db\<lparr>projects := ps\<rparr>) = event_log db"
  "event_log (db\<lparr>commands := cs\<rparr>) = event_log db"
  "event_log (db\<lparr>takes := ts\<rparr>) = event_log db"
  by (simp_all add: event_log_def)

lemma insert_work_revision_log:
  "insert_work_revision w i s b spec ids db = Ok db' \<Longrightarrow> event_log db' = event_log db"
  by (auto simp add: insert_work_revision_def and_then_ok_iff split: if_splits
      dest!: insert_work_edges_log)

lemma insert_row_table_log:
  "insert_project_specification i p s c spec db = Ok db' \<Longrightarrow> event_log db' = event_log db"
  "insert_project r db = Ok db1 \<Longrightarrow> event_log db1 = event_log db"
  "insert_subject sr db = Ok db2 \<Longrightarrow> event_log db2 = event_log db"
  "insert_work_item wr db = Ok db3 \<Longrightarrow> event_log db3 = event_log db"
  "insert_take ti w n st a q b at db = Ok db4 \<Longrightarrow> event_log db4 = event_log db"
  "update_takes hit ts v at db = Ok (m, db5) \<Longrightarrow> event_log db5 = event_log db"
  "insert_claim ctx b at db = Ok db6 \<Longrightarrow> event_log db6 = event_log db"
  by (auto simp add: insert_project_specification_def insert_project_def insert_subject_def
      insert_work_item_def insert_take_def update_takes_def insert_claim_def Let_def and_then_ok_iff
      event_log_def split: if_splits)

lemma complete_versioned_log:
  "complete_versioned E b i p at db = Ok (out, db') \<Longrightarrow> event_log db' = event_log db"
  by (auto simp add: complete_versioned_def update_command_def and_then_ok_iff event_log_def
      split: if_splits)

lemma commit_rejection_log: "commit_rejection b c at db = Ok (out, db') \<Longrightarrow> event_log db' = event_log db"
  by (auto simp add: commit_rejection_def update_command_def event_log_def)

text \<open>Each result a computation commits extends the log of its start by consecutive events of
  its own command.\<close>

definition logging ::
  "command_binding \<Rightarrow> database \<Rightarrow> asset_store_error + (mutation_outcome \<times> database) \<Rightarrow> bool" where
  "logging b db m = (\<forall>out db'. m = Ok (out, db') \<longrightarrow> appends_events b db db')"

lemma appends_none: "event_log db' = event_log db \<Longrightarrow> appends_events b db db'"
  by (simp add: appends_events_def)

lemma appends_iff:
  "appends_events b db db' \<longleftrightarrow>
    event_log db' = event_log db \<or>
    event_log db' = (fst (event_log db) @ [(snd (event_log db) + 1, binding_command_id b)], snd (event_log db) + 1) \<or>
    event_log db' = (fst (event_log db) @ [(snd (event_log db) + 1, binding_command_id b),
      (2 + snd (event_log db), binding_command_id b)], snd (event_log db) + 2)"
  by (auto simp add: appends_events_def upto.simps add.commute)

lemma logging_Err: "logging b db (Err e)"
  by (simp add: logging_def)

lemma logging_and_then: "(\<And>x. m = Ok x \<Longrightarrow> logging b db (k x)) \<Longrightarrow> logging b db (and_then m k)"
  by (auto simp add: logging_def and_then_ok_iff)

lemma logging_rejection: "event_log db1 = event_log db \<Longrightarrow> logging b db (commit_rejection b c at db1)"
  by (auto simp add: logging_def dest!: commit_rejection_log intro: appends_none)

lemma logging_complete: "appends_events b db db1 \<Longrightarrow> logging b db (complete_versioned E b i p at db1)"
  by (auto simp add: logging_def appends_events_def dest!: complete_versioned_log)

lemma logging_or_exhausted:
  "event_log db1 = event_log db \<Longrightarrow> (\<And>x. m = Ok x \<Longrightarrow> logging b db (k x)) \<Longrightarrow>
    logging b db (or_exhausted b at db1 m k)"
  by (auto simp add: or_exhausted_def logging_Err split: sum.splits intro!: logging_rejection)

lemma logging_unless_replayed:
  "logging b db fresh \<Longrightarrow> logging b db (unless_replayed E ctx b kind db fresh)"
  by (auto simp add: logging_def unless_replayed_def and_then_ok_iff intro: appends_none split: option.splits)

lemmas logging_rules =
  logging_unless_replayed logging_and_then logging_Err logging_rejection logging_or_exhausted logging_complete

lemmas keeps_log =
  allocate_log insert_domain_event_log insert_payload_event_log insert_relationship_log
  insert_work_revision_log insert_row_table_log

lemma supersede_rows_log:
  "supersede_rows E q fe ri s at related selected db = Ok db' \<Longrightarrow>
    event_log db' = (fst (event_log db) @ (if selected = None then [] else [(s, binding_command_id (tt_binding q))]),
      snd (event_log db))"
  by (auto simp add: supersede_rows_def Let_def and_then_ok_iff split: option.splits prod.splits if_splits
      dest!: insert_row_table_log insert_payload_event_log insert_relationship_log)

lemma transition_rows_logging:
  assumes "event_log db1 = (fst (event_log db), snd (event_log db) + (if selected \<noteq> None then 2 else 1))"
    and "s = snd (event_log db) + 1"
  shows "logging (tt_binding q) db
    (transition_rows E q fe se ri at ordinal target asset revision next related selected s db1)"
  unfolding transition_rows_def Let_def
  using assms
  by (auto simp add: appends_iff intro!: logging_rules dest!: keeps_log supersede_rows_log
      split: prod.splits if_splits)

lemma creative_logging:
  "logging (cp_binding q1) db (create_project E ctx q1 db)"
  "logging (rps_binding q2) db (revise_project_spec E ctx q2 db)"
  "logging (cs_binding q3) db (create_subject E ctx q3 db)"
  "logging (cw_binding q4) db (create_work E ctx q4 db)"
  "logging (rw_binding q5) db (revise_work E ctx q5 db)"
  "logging (ct_binding q6) db (create_take E ctx q6 db)"
  "logging (ro_binding q8) db (reopen_take E ctx q8 db)"
  unfolding create_project_def revise_project_spec_def create_subject_def create_work_def
    revise_work_def revise_work_rows_def create_take_def reopen_take_def Let_def
  by (auto simp add: appends_iff intro!: logging_rules dest!: keeps_log split: option.splits prod.splits)

lemma transition_take_logging: "logging (tt_binding q) db (transition_take E ctx q db)"
  unfolding transition_take_def Let_def
  by (auto intro!: logging_rules transition_rows_logging dest!: keeps_log
      split: option.splits prod.splits sum.splits)

lemma execute_creative_logging: "logging (creative_binding r) db (execute_creative E ctx r db)"
  by (cases r) (simp_all add: creative_logging transition_take_logging)

lemma event_log_fst: "map ev_commit_sequence (domain_events db) = map fst (fst (event_log db))"
    "map ev_command_id (domain_events db) = map snd (fst (event_log db))"
    "last_sequence db = snd (event_log db)"
  by (simp_all add: event_log_def comp_def)

lemma upto_extend:
  "0 \<le> l \<Longrightarrow> [1..l + 1] = [1..l] @ [l + 1]" "0 \<le> l \<Longrightarrow> [1..l + 2] = [1..l] @ [l + 1, 2 + l]"
  using upto_rec2 [of 1 "l + 1"] upto_rec2 [of 1 "l + 2"] by (simp_all add: add.commute)

lemma appends_gap_free: "appends_events b db db' \<Longrightarrow> gap_free db \<Longrightarrow> gap_free db'"
  by (auto simp add: appends_iff gap_free_def event_log_fst upto_extend)

section \<open>Histories of the ledger\<close>

text \<open>One step executes one admissible request and commits; a request that fails leaves the
  database as it was and is no step.\<close>

inductive ledger_step :: "store_env \<Rightarrow> store_context \<Rightarrow> database \<Rightarrow> database \<Rightarrow> bool" for E ctx where
  commits: "ledger_step E ctx db db'"
    if "creative_ok E ctx r" "execute_creative E ctx r db = Ok (out, db')"

inductive_cases ledger_stepE: "ledger_step E ctx db db'"

definition ledger_wf :: "store_env \<Rightarrow> database \<Rightarrow> bool" where
  "ledger_wf E db = (journal_wf E db \<and> gap_free db \<and> events_journalled db)"

lemma events_journalled_log:
  "events_journalled db \<longleftrightarrow> (\<forall>c \<in> snd ` set (fst (event_log db)). c \<in> set (map cmd_id (commands db)))"
  by (auto simp add: events_journalled_def list_all_iff event_log_def)

lemma appends_journalled:
  assumes "appends_events b db db'" "events_journalled db" "settles E ctx b kind db out db'"
  shows "events_journalled db'"
proof -
  obtain row where "commands db' = commands db @ [row]" "cmd_id row = binding_command_id b"
    using settles_appends [OF assms(3)] by blast
  then show ?thesis
    using assms(1,2) unfolding events_journalled_log by (auto simp add: appends_iff)
qed

text \<open>The contract of a command that also writes to the log: on top of the contract of the
  journal, the events it adds are its own and consecutive. It then keeps the ledger well-formed.\<close>

locale logged_command = pure_command +
  assumes run_logged: "logging b db (run db)"
begin

lemma run_ledger:
  assumes "admissible" "run db = Ok (out, db')" "ledger_wf E db"
  shows "ledger_wf E db'"
proof -
  have log: "appends_events b db db'" using run_logged [of db] assms(2) by (simp add: logging_def)
  have "journal_wf E db'" using run_journal [OF assms(1) _ assms(2)] assms(3) by (simp add: ledger_wf_def)
  moreover have "gap_free db'" using appends_gap_free log assms(3) by (simp add: ledger_wf_def)
  moreover have "events_journalled db'"
    using assms(1,2) by (cases rule: run_cases)
      (use assms(3) appends_journalled [OF log] in \<open>auto simp add: ledger_wf_def\<close>)
  ultimately show ?thesis by (simp add: ledger_wf_def)
qed

end

interpretation creative_log: logged_command E ctx "creative_binding r" "creative_kind r"
    "creative_ok E ctx r" "execute_creative E ctx r" for E ctx r
  by unfold_locales (rule execute_creative_logging)

lemma ledger_step_wf: "ledger_step E ctx db db' \<Longrightarrow> ledger_wf E db \<Longrightarrow> ledger_wf E db'"
  using creative_log.run_ledger by (blast elim!: ledger_stepE)

lemma ledger_history_wf: "(ledger_step E ctx)\<^sup>*\<^sup>* db db' \<Longrightarrow> ledger_wf E db \<Longrightarrow> ledger_wf E db'"
  by (induction rule: rtranclp_induct) (blast dest: ledger_step_wf)+

section \<open>A concrete library\<close>

text \<open>A small instance of the crates and of a request, on which the theorems are exercised.\<close>

definition sample_id :: "nat \<Rightarrow> bytes" where
  "sample_id n = [1, 2, 3, 4, 5, 6, 7, 8, 9, 10, 11, 12, 13, 14, 15, word_of_nat n]"

definition sample_env :: store_env where
  "sample_env = \<lparr>env_uuid = \<lparr>is_nil = (\<lambda>bs. list_all (\<lambda>b. b = 0) bs), get_variant = (\<lambda>_. RFC4122),
     get_version = (\<lambda>_. Some SortRand), from_unix_timestamp_millis = (\<lambda>_ r. r)\<rparr>,
     env_year_of = (\<lambda>_. Some 2026), env_sha256 = (\<lambda>_. replicate 32 7)\<rparr>"

definition sample_ctx :: store_context where
  "sample_ctx = \<lparr>owner_uid = 501, context_runtime_id = sample_id 200\<rparr>"

definition sample_at :: timestamp where
  "sample_at = \<lparr>unix_seconds = 1777000100, subsec_nanoseconds = 0\<rparr>"

definition sample_values :: "nat \<Rightarrow> value_source" where
  "sample_values base = \<lparr>next_uuid_v7 = (\<lambda>k. Ok (sample_id (base + k))), source_now = Ok sample_at,
     source_checkpoint = Ok ()\<rparr>"

definition sample_command :: "nat \<Rightarrow> string \<Rightarrow> command_binding" where
  "sample_command n operation = \<lparr>binding_command_id = sample_id n, binding_operation_id = operation,
     binding_digest = replicate 32 9\<rparr>"

definition empty_database :: database where
  "empty_database = \<lparr>commands = [], last_sequence = 0, domain_events = [], assets = [],
     asset_revisions = [], asset_revision_parents = [], representations = [], resources = [],
     resource_members = [], blobs = [], locations = [], provenance_events = [], subjects = [],
     projects = [], project_spec_revisions = [], work_items = [], work_revisions = [], takes = [],
     relationships = []\<rparr>"

definition sample_subject :: "nat \<Rightarrow> create_subject_command" where
  "sample_subject n = \<lparr>cs_binding = sample_command n SUBJECT_CREATE_V1, cs_kind = ''person'',
     cs_name = [72, 105], cs_values = sample_values 10\<rparr>"

lemmas sample_defs =
  sample_env_def sample_ctx_def sample_at_def sample_values_def sample_command_def sample_id_def
  empty_database_def sample_subject_def

lemma sample_id_ok: "id_from_bytes (env_uuid sample_env) (sample_id n) = Ok (sample_id n)"
  by (simp add: sample_env_def sample_id_def id_from_bytes_def)

lemma sample_id_wf: "id_wf (env_uuid sample_env) (sample_id n)"
  by (simp add: id_wf_def sample_env_def sample_id_def id_from_bytes_def)

lemma sample_clock_ok: "clock_ok sample_env sample_at"
  by (simp add: clock_ok_def persisted_timestamp_def stamp_def sample_env_def sample_at_def
      u32_try_from_def from_unix_seconds_nanos_def)

lemma sample_request_ok: "creative_ok sample_env sample_ctx (CreateSubject (sample_subject n))"
  using sample_id_wf sample_clock_ok
  by (simp add: creative_ok_def request_ok_def binding_wf_def sample_subject_def sample_command_def
      sample_ctx_def sample_values_def)

section \<open>Commands that go through\<close>

lemma clock_ok_stamp: "clock_ok E at \<Longrightarrow> persisted_timestamp E (stamp at) = Ok at"
  by (cases at) (auto simp add: clock_ok_def is_ok_iff persisted_timestamp_def stamp_def u32_try_from_def
      from_unix_seconds_nanos_def and_then_ok_iff map_err_ok_iff unsigned_of_nat take_bit_nat_eq_self split: if_splits option.splits)

text \<open>What is left of a completion once the row of the command is known to be readable: the
  check of the payload against the domain tables.\<close>

lemma complete_versioned_checked:
  assumes "read_command db b = None" "binding_wf E ctx b" "clock_ok E at"
    and "(binding_operation_id b, result_kind payload) \<in> set pure_operations"
    and "id_wf (env_uuid E) primary" "result_payload_wf (env_uuid E) payload"
    and "commands db1 = commands db @ [claimed_row ctx b at]"
    and "check_payload (db1\<lparr>commands := commands db @ [complete_row E primary payload at (claimed_row ctx b at)]\<rparr>)
      (complete_row E primary payload at (claimed_row ctx b at)) primary payload = Ok r" "r \<noteq> 0"
  shows "complete_versioned E b primary payload at db1 =
    Ok (Applied (VersionedResult primary payload at),
      db1\<lparr>commands := commands db @ [complete_row E primary payload at (claimed_row ctx b at)]\<rparr>)"
proof -
  let ?row = "complete_row E primary payload at (claimed_row ctx b at)"
  have "id_bytes (cmd_result_id ?row) = Ok primary" "cmd_result_kind ?row = Some (result_kind payload)"
    "cmd_result_payload ?row = Some (payload_encode payload)"
    "persisted_timestamp E (cmd_updated_at ?row) = Ok at"
    using assms(5) clock_ok_stamp [OF assms(3)]
    by (simp_all add: complete_row_def id_bytes_def id_wf_def)
  moreover have "result_payload_decode (env_uuid E) (result_kind payload) (payload_encode payload) = Ok payload"
    using assms(6) result_codec.decode_ok_iff by blast
  ultimately show ?thesis
    using complete_versioned_fresh [OF assms(1-7)] assms(8,9)
    by (simp add: replay_creative_result_def Let_def)
qed

lemma ledger_foreign_events:
  "ledger_wf E db \<Longrightarrow> read_command db b = None \<Longrightarrow> ev \<in> set (domain_events db) \<Longrightarrow>
    ev_command_id ev \<noteq> binding_command_id b"
  by (force simp add: ledger_wf_def events_journalled_def list_all_iff read_command_None)

lemma ledger_sequences:
  assumes "ledger_wf E db" "ev \<in> set (domain_events db)"
  shows "ev_commit_sequence ev \<le> last_sequence db"
proof -
  have "ev_commit_sequence ev \<in> set [1..last_sequence db]"
    using assms unfolding ledger_wf_def gap_free_def by (metis image_eqI list.set_map)
  then show ?thesis by simp
qed

text \<open>The state in which a new subject is written: fresh ids, a command nobody claimed, and a
  log whose allocator still has a sequence.\<close>

definition subject_ready :: "store_env \<Rightarrow> create_subject_command \<Rightarrow> uuid \<Rightarrow> uuid \<Rightarrow> timestamp \<Rightarrow> database \<Rightarrow> bool" where
  "subject_ready E q i e at db =
    (read_command db (cs_binding q) = None \<and> last_sequence db < EVENT_SEQUENCE_MAX
     \<and> generated_id E (cs_values q) 0 = Ok i \<and> generated_id E (cs_values q) 1 = Ok e \<and> i \<noteq> e
     \<and> id_wf (env_uuid E) i \<and> source_now (cs_values q) = Ok at \<and> source_checkpoint (cs_values q) = Ok ()
     \<and> e \<notin> ev_id ` set (domain_events db) \<and> i \<notin> su_id ` set (subjects db)
     \<and> list_all (\<lambda>s. su_creation_sequence s \<le> last_sequence db) (subjects db))"

lemma create_subject_applies:
  assumes ok: "request_ok E ctx (cs_binding q) SUBJECT_CREATE_V1 (cs_values q)"
    and wf: "ledger_wf E db" and ready: "subject_ready E q i e at db"
  shows "\<exists>db'. create_subject E ctx q db = Ok (Applied (VersionedResult i (SubjectPayload 1) at), db')"
proof -
  let ?b = "cs_binding q" and ?s = "last_sequence db + 1"
  let ?event = "\<lparr>ev_id = e, ev_commit_sequence = ?s, ev_command_id = binding_command_id ?b,
     ev_type = ''subject.created.v1'', ev_aggregate_kind = ''SUBJECT'', ev_aggregate_id = i,
     ev_aggregate_revision = revision_bytes 1, ev_payload = None, ev_payload_sha256 = None,
     ev_occurred_at = stamp at\<rparr>"
  let ?subject = "\<lparr>su_id = i, su_kind = cs_kind q, su_name = cs_name q, su_revision = revision_bytes 1,
     su_creation_sequence = ?s, su_command_id = binding_command_id ?b\<rparr>"
  let ?db = "db\<lparr>commands := commands db @ [claimed_row ctx ?b at], last_sequence := ?s,
     domain_events := domain_events db @ [?event], subjects := subjects db @ [?subject]\<rparr>"
  have fresh: "read_command db ?b = None" using ready by (simp add: subject_ready_def)
  note own = ledger_foreign_events [OF wf fresh]
  have free: "\<not> list_ex (\<lambda>r. cmd_id r = binding_command_id ?b) (commands db)"
    "\<not> list_ex (\<lambda>r. ev_id r = e \<or> ev_commit_sequence r = ?s) (domain_events db)"
    "\<not> list_ex (\<lambda>r. su_id r = i \<or> su_creation_sequence r = ?s) (subjects db)"
    using ready fresh ledger_sequences [OF wf]
    by (force simp add: list_ex_iff list_all_iff subject_ready_def read_command_None)+
  have run: "create_subject E ctx q db = complete_versioned E ?b i (SubjectPayload 1) at ?db"
    using ready free
    by (simp add: create_subject_def unless_replayed_def replay_existing_def subject_ready_def Let_def
        distinct_ids_def sampled_at_def insert_claim_def claimed_row_def insert_row_def
        or_exhausted_def allocate_event_sequences_def insert_domain_event_def insert_event_def insert_subject_def)
  have payload: "check_payload (?db\<lparr>commands := rows\<rparr>) row i (SubjectPayload 1) = Ok 1"
    if "cmd_id row = binding_command_id ?b" for rows row
  proof -
    have "find (\<lambda>s. su_id s = i) (subjects db) = None"
      using ready by (auto simp add: subject_ready_def find_None_iff)
    moreover have "count_rows (\<lambda>ev. ev_command_id ev = binding_command_id ?b \<and> ev_type ev = ''subject.created.v1''
        \<and> ev_aggregate_kind ev = ''SUBJECT'' \<and> ev_aggregate_id ev = i
        \<and> ev_aggregate_revision ev = revision_bytes 1) (domain_events db) = 0"
      using own by (simp add: count_rows_def)
    ultimately show ?thesis
      using that by (simp add: check_subject_def find_append count_events_def)
  qed
  have "complete_versioned E ?b i (SubjectPayload 1) at ?db =
      Ok (Applied (VersionedResult i (SubjectPayload 1) at),
        ?db\<lparr>commands := commands db @ [complete_row E i (SubjectPayload 1) at (claimed_row ctx ?b at)]\<rparr>)"
    using ok ready
    by (intro complete_versioned_checked [OF _ _ _ _ _ _ _ payload])
      (simp_all add: request_ok_def subject_ready_def pure_operations_def complete_row_def claimed_row_def)
  then show ?thesis unfolding run by blast
qed

lemma empty_wf: "ledger_wf E empty_database"
  by (simp add: ledger_wf_def empty_database_def journal_wf_def gap_free_def events_journalled_def)

lemma sample_ready:
  "subject_ready sample_env (sample_subject n) (sample_id 10) (sample_id 11) sample_at empty_database"
  by (simp add: subject_ready_def sample_subject_def sample_values_def generated_id_def empty_database_def
      read_command_def EVENT_SEQUENCE_MAX_def sample_id_ok sample_id_wf)
    (simp add: sample_id_def)

lemma sample_runs: "\<exists>out db'. execute_creative sample_env sample_ctx (CreateSubject (sample_subject n)) empty_database = Ok (out, db')"
  using create_subject_applies [OF _ empty_wf sample_ready] sample_request_ok [of n]
  by (fastforce simp add: creative_ok_def sample_subject_def)

text \<open>C6. A creative command is idempotent: when it has committed an outcome, running it
  again with the same request leaves the database untouched and answers the outcome of the
  first run as a replay; no second set of rows, event or sequence is spent.\<close>

theorem creative_idempotent:
  assumes "creative_ok E ctx r" "execute_creative E ctx r db = Ok (out, db')"
  shows "execute_creative E ctx r db' = Ok (as_replay out, db')"
  using assms by (rule creative.run_again)

lemma creative_idempotent_witness:
  "\<exists>out db'. execute_creative sample_env sample_ctx (CreateSubject (sample_subject 1)) empty_database = Ok (out, db')
    \<and> execute_creative sample_env sample_ctx (CreateSubject (sample_subject 1)) db' = Ok (as_replay out, db')"
  using sample_runs [of 1] creative_idempotent [OF sample_request_ok [of 1]] by blast





end
