(* ===== verification/Take_Selection.thy ===== *)
theory Take_Selection
  imports Creative_Ledger
begin

text \<open>The take transitions of \<open>creative_repository.rs\<close>, lines 1059-1301, against the two partial
  unique indexes of the schema.  The index on selected takes is never met, because the source
  supersedes the selected take first.  The index on outgoing supersessions can be met: the
  source does not look for an earlier supersession by the same replacement.\<close>

section \<open>Selecting a take\<close>

definition selected_takes :: "take_row list \<Rightarrow> (bytes \<times> bytes) set" where
  "selected_takes rows = (\<lambda>t. (tk_id t, tk_work_revision_id t)) ` {t \<in> set rows. tk_state t = ''SELECTED''}"

lemma in_selected_takes:
  "(i, w) \<in> selected_takes rows \<longleftrightarrow>
    (\<exists>t \<in> set rows. tk_id t = i \<and> tk_work_revision_id t = w \<and> tk_state t = ''SELECTED'')"
  by (auto simp add: selected_takes_def)

lemma one_selected_iff:
  assumes "distinct (map tk_id rows)"
  shows "one_selected rows \<longleftrightarrow>
    (\<forall>i j w. (i, w) \<in> selected_takes rows \<longrightarrow> (j, w) \<in> selected_takes rows \<longrightarrow> i = j)"
proof -
  let ?sel = "{t \<in> set rows. tk_state t = ''SELECTED''}"
  have "distinct rows" and inj: "inj_on tk_id (set rows)"
    using assms by (simp_all add: distinct_map)
  then have "one_selected rows \<longleftrightarrow> inj_on tk_work_revision_id ?sel"
    by (simp add: one_selected_def distinct_map)
  also have "\<dots> \<longleftrightarrow> (\<forall>t \<in> ?sel. \<forall>u \<in> ?sel. tk_work_revision_id t = tk_work_revision_id u \<longrightarrow> tk_id t = tk_id u)"
    unfolding inj_on_def using inj by (auto dest: inj_onD)
  also have "\<dots> \<longleftrightarrow> (\<forall>i j w. (i, w) \<in> selected_takes rows \<longrightarrow> (j, w) \<in> selected_takes rows \<longrightarrow> i = j)"
    by (auto simp add: selected_takes_def)
  finally show ?thesis .
qed

definition move_take :: "take_state \<Rightarrow> u64 \<Rightarrow> timestamp \<Rightarrow> take_row \<Rightarrow> take_row" where
  "move_take st revision at t = t\<lparr>tk_state := take_state_as_str st, tk_revision := revision_bytes revision,
    tk_updated_at := stamp at\<rparr>"

lemma update_takes_eq:
  "update_takes hit st revision at db =
    (let rows = update_rows hit (move_take st revision at) (takes db) in
     if one_selected rows then Ok (count_rows hit (takes db), db\<lparr>takes := rows\<rparr>) else Err Store_Internal)"
  by (simp add: update_takes_def move_take_def [abs_def])

lemma update_rows_ids: "map tk_id (update_rows hit (move_take st revision at) rows) = map tk_id rows"
  by (induction rows) (simp_all add: move_take_def)

lemma take_state_selected: "take_state_as_str st = ''SELECTED'' \<longleftrightarrow> st = Selected"
  by (cases st) simp_all

lemma selected_takes_Cons:
  "selected_takes (t # rows) =
    (if tk_state t = ''SELECTED'' then insert (tk_id t, tk_work_revision_id t) (selected_takes rows)
     else selected_takes rows)"
  by (auto simp add: selected_takes_def)

lemma selected_takes_update:
  "selected_takes (update_rows hit (move_take st revision at) rows) =
    {(i, w). \<exists>t \<in> set rows. i = tk_id t \<and> w = tk_work_revision_id t
      \<and> (if hit t then st = Selected else tk_state t = ''SELECTED'')}"
proof (induction rows)
  case Nil
  then show ?case by (simp add: selected_takes_def)
next
  case (Cons t rows)
  have "selected_takes (update_rows hit (move_take st revision at) (t # rows)) =
      (if (if hit t then st = Selected else tk_state t = ''SELECTED'')
       then insert (tk_id t, tk_work_revision_id t) (selected_takes (update_rows hit (move_take st revision at) rows))
       else selected_takes (update_rows hit (move_take st revision at) rows))"
    by (simp add: selected_takes_Cons move_take_def take_state_selected)
  then show ?case unfolding Cons.IH by auto
qed

lemma read_take_row:
  assumes "read_take db i w = Ok (Some (ordinal, st, asset, revision))"
  obtains t where "t \<in> set (takes db)" "tk_id t = i" "tk_work_revision_id t = w"
    "u32_try_from (tk_ordinal t) = Some ordinal" "take_state_parse (tk_state t) = Ok st"
    "tk_primary_asset_id t = asset" "parse_revision (tk_revision t) = Ok revision"
  using assms by (auto simp add: read_take_def and_then_ok_iff split: option.splits dest!: find_row)

lemma supersede_rows_takes:
  "supersede_rows E q fe ri s at related selected db = Ok db' \<Longrightarrow>
    takes db' = (case selected of None \<Rightarrow> takes db
      | Some (i, r, n) \<Rightarrow> update_rows (\<lambda>t. tk_id t = i \<and> tk_revision t = revision_bytes r
          \<and> tk_state t = ''SELECTED'') (move_take Superseded n at) (takes db))"
  by (auto simp add: supersede_rows_def Let_def and_then_ok_iff update_takes_eq insert_relationship_def
      insert_relationship_row_def insert_payload_event_def insert_event_def
      split: option.splits prod.splits if_splits)

lemma select_replacement_clears:
  assumes ids: "distinct (map tk_id (takes db))" and one: "one_selected (takes db)"
    and rep: "select_replacement q db = Ok (Inr (related, selected))"
    and sup: "supersede_rows E q fe ri s at related selected db = Ok db1"
    and sel: "(i, tt_work_revision_id q) \<in> selected_takes (takes db1)"
  shows "i = tt_take_id q"
proof (rule ccontr)
  assume other: "i \<noteq> tt_take_id q"
  let ?w = "tt_work_revision_id q"
  show False
  proof (cases selected)
    case None
    then have "\<forall>t \<in> set (takes db). \<not> (tk_work_revision_id t = ?w \<and> tk_state t = ''SELECTED'' \<and> tk_id t \<noteq> tt_take_id q)"
      using rep by (auto simp add: select_replacement_def find_None_iff and_then_ok_iff split: option.splits if_splits)
    moreover have "takes db1 = takes db" using supersede_rows_takes [OF sup] None by simp
    ultimately show False using sel other by (auto simp add: selected_takes_def)
  next
    case (Some r)
    then obtain t n r' where t: "t \<in> set (takes db)" "tk_work_revision_id t = ?w" "tk_state t = ''SELECTED''"
        "selected = Some (tk_id t, r', n)" "parse_revision (tk_revision t) = Ok r'"
      using rep by (auto simp add: select_replacement_def and_then_ok_iff dest!: find_row
          split: option.splits prod.splits if_splits)
    let ?hit = "\<lambda>u. tk_id u = tk_id t \<and> tk_revision u = revision_bytes r' \<and> tk_state u = ''SELECTED''"
    have "takes db1 = update_rows ?hit (move_take Superseded n at) (takes db)"
      using supersede_rows_takes [OF sup] t(4) by simp
    then obtain u where u: "u \<in> set (takes db)" "i = tk_id u" "tk_work_revision_id u = ?w"
        "tk_state u = ''SELECTED''" "\<not> ?hit u"
      using sel by (auto simp add: selected_takes_update split: if_splits)
    then have "(tk_id u, ?w) \<in> selected_takes (takes db)" "(tk_id t, ?w) \<in> selected_takes (takes db)"
      using t by (force simp add: selected_takes_def)+
    then have "tk_id u = tk_id t" using one one_selected_iff [OF ids] by blast
    then have "u = t" using ids t(1) u(1) by (metis distinct_map inj_onD)
    then show False using u(5) t(3) revision_bytes_parse [OF t(5)] by simp
  qed
qed

lemma update_rows_keys:
  "map (\<lambda>t. (tk_id t, tk_work_revision_id t)) (update_rows hit (move_take st revision at) rows) =
    map (\<lambda>t. (tk_id t, tk_work_revision_id t)) rows"
  by (induction rows) (simp_all add: move_take_def)

lemma same_keys:
  assumes "map (\<lambda>t. (tk_id t, tk_work_revision_id t)) rows = map (\<lambda>t. (tk_id t, tk_work_revision_id t)) rows'"
    and "t \<in> set rows"
  obtains u where "u \<in> set rows'" "tk_id u = tk_id t" "tk_work_revision_id u = tk_work_revision_id t"
proof -
  have "(tk_id t, tk_work_revision_id t) \<in> set (map (\<lambda>t. (tk_id t, tk_work_revision_id t)) rows)"
    using assms(2) by simp
  then show thesis using that unfolding assms(1) by auto
qed

lemma supersede_rows_keys:
  assumes "supersede_rows E q fe ri s at related selected db = Ok db1"
  shows "map (\<lambda>t. (tk_id t, tk_work_revision_id t)) (takes db1) =
      map (\<lambda>t. (tk_id t, tk_work_revision_id t)) (takes db)"
    and "selected_takes (takes db1) \<subseteq> selected_takes (takes db)"
proof -
  show "map (\<lambda>t. (tk_id t, tk_work_revision_id t)) (takes db1) =
      map (\<lambda>t. (tk_id t, tk_work_revision_id t)) (takes db)"
    using supersede_rows_takes [OF assms] by (auto simp add: update_rows_keys split: option.splits prod.splits)
  show "selected_takes (takes db1) \<subseteq> selected_takes (takes db)"
  proof (cases selected)
    case (Some r)
    then show ?thesis
      using supersede_rows_takes [OF assms]
      by (cases r) (auto simp add: selected_takes_update in_selected_takes split: if_splits)
  qed (use supersede_rows_takes [OF assms] in simp)
qed

text \<open>Two candidate takes and one selected take of one work revision, after the selected
  take has superseded the first candidate.\<close>

definition sample_take :: "nat \<Rightarrow> take_state \<Rightarrow> take_row" where
  "sample_take n st = \<lparr>tk_id = sample_id n, tk_work_revision_id = sample_id 3, tk_ordinal = int n,
     tk_state = take_state_as_str st, tk_primary_asset_id = sample_id 4, tk_revision = revision_bytes 1,
     tk_creation_sequence = int n, tk_command_id = sample_id 5, tk_updated_at = stamp sample_at\<rparr>"

definition sample_takes :: database where
  "sample_takes = empty_database
    \<lparr>work_items := [\<lparr>wi_id = sample_id 2, wi_project_id = sample_id 9, wi_kind = ''shot'', wi_code = [65],
       wi_current_revision = sample_id 3, wi_revision = revision_bytes 1, wi_creation_sequence = 1,
       wi_command_id = sample_id 5, wi_updated_at = stamp sample_at\<rparr>],
     work_revisions := [\<lparr>wr_id = sample_id 3, wr_work_item_id = sample_id 2, wr_sequence = 1,
       wr_json = \<lparr>json_bytes = [123, 125], json_digest = replicate 32 8\<rparr>, wr_command_id = sample_id 5\<rparr>],
     takes := [sample_take 20 Superseded, sample_take 21 Candidate, sample_take 22 Selected],
     relationships := [\<lparr>rel_id = sample_id 6, rel_kind = ''TAKE_SUPERSEDES'', rel_source_kind = ''TAKE'',
       rel_source_id = sample_id 22, rel_target_kind = ''TAKE'', rel_target_id = sample_id 20,
       rel_command_id = sample_id 5\<rparr>]\<rparr>"

definition sample_transition :: "take_transition \<Rightarrow> transition_take_command" where
  "sample_transition tr = \<lparr>tt_binding = sample_command 7 TAKE_TRANSITION_V1, tt_project_id = sample_id 9,
     tt_work_item_id = sample_id 2, tt_work_revision_id = sample_id 3, tt_take_id = sample_id 21,
     tt_expected_revision = 1, tt_transition = tr, tt_reason = None,
     tt_related_take = Some (sample_id 22, 1), tt_values = sample_values 10\<rparr>"

lemma sample_transition_fields [simp]:
  "tt_take_id (sample_transition tr) = sample_id 21" "tt_work_revision_id (sample_transition tr) = sample_id 3"
  "tt_transition (sample_transition tr) = tr"
  by (simp_all add: sample_transition_def)

lemma sample_id_eq: "sample_id m = sample_id n \<longleftrightarrow> (word_of_nat m :: byte) = word_of_nat n"
  by (simp add: sample_id_def)

lemma sample_read: "read_take sample_takes (sample_id 21) (sample_id 3) = Ok (Some (21, Candidate, sample_id 4, 1))"
  by (simp add: read_take_def sample_takes_def sample_take_def sample_id_eq u32_try_from_def
      take_state_parse_def)
    (simp add: sample_id_def)

lemma sample_read_22: "read_take sample_takes (sample_id 22) (sample_id 3) = Ok (Some (22, Selected, sample_id 4, 1))"
  by (simp add: read_take_def sample_takes_def sample_take_def sample_id_eq u32_try_from_def
      take_state_parse_def)
    (simp add: sample_id_def)

lemma sample_select:
  "replacement_of (sample_transition Select) sample_takes = Ok (Inr (Some (sample_id 22), Some (sample_id 22, 1, 2)))"
  by (simp add: replacement_of_def select_replacement_def sample_transition_def sample_takes_def
      sample_take_def sample_id_eq checked_add_def)
    (simp add: sample_id_def)

lemma sample_takes_fields:
  "commands sample_takes = []" "last_sequence sample_takes = 0"
  "take_context_exists sample_takes (sample_id 9) (sample_id 2) (sample_id 3)"
  "hd (relationships sample_takes) \<in> set (relationships sample_takes)"
  "rel_kind (hd (relationships sample_takes)) = ''TAKE_SUPERSEDES''"
  "rel_source_kind (hd (relationships sample_takes)) = ''TAKE''"
  "rel_source_id (hd (relationships sample_takes)) = sample_id 22"
  by (simp_all add: sample_takes_def empty_database_def take_context_exists_def)

lemma sample_payload: "is_ok (payload_from_fields [(1, sample_id n)])"
  by (simp add: payload_from_fields_def sample_id_def follows_def)

lemma sample_supersede:
  "\<exists>db1. supersede_rows sample_env (sample_transition Select) (sample_id 10) (sample_id 12) 1 sample_at
    (Some (sample_id 22)) (Some (sample_id 22, 1, 2)) sample_takes = Ok db1"
  using sample_payload [of 21]
  by (auto simp add: is_ok_iff Let_def supersede_rows_def sample_transition_def sample_takes_def sample_take_def sample_id_eq empty_database_def
    update_takes_def one_selected_def insert_payload_event_def insert_event_def insert_row_def insert_relationship_def
    insert_relationship_row_def relationship_clash_def)

lemma claim_frames [simp]:
  "read_take (db\<lparr>commands := rows\<rparr>) i w = read_take db i w"
  "take_context_exists (db\<lparr>commands := rows\<rparr>) p wi w = take_context_exists db p wi w"
  by (simp_all add: read_take_def take_context_exists_def)



text \<open>C37. One replacement cannot supersede two takes, and the source does not reject the
  second attempt: with an outgoing supersession of the replacement on record, a superseding
  transition that passes every guard ends in an internal error, which the writer treats as fatal,
  instead of a recorded rejection.\<close>

theorem second_supersession_internal:
  assumes "read_command db (tt_binding q) = None"
    and ids: "generated_id E (tt_values q) 0 = Ok e" "generated_id E (tt_values q) 1 = Ok e'"
      "generated_id E (tt_values q) 2 = Ok ri" "distinct [e, e', ri]"
    and clock: "source_now (tt_values q) = Ok at" "source_checkpoint (tt_values q) = Ok ()"
    and place: "take_context_exists db (tt_project_id q) (tt_work_item_id q) (tt_work_revision_id q)"
    and take: "read_take db (tt_take_id q) (tt_work_revision_id q) =
      Ok (Some (ordinal, st, asset, tt_expected_revision q))" "transition st Supersede = Ok target"
      "checked_add (tt_expected_revision q) 1 = Some bumped"
    and replacement: "tt_transition q = Supersede" "tt_related_take q = Some (r, revision)" "r \<noteq> tt_take_id q"
      "read_take db r (tt_work_revision_id q) = Ok (Some (ordinal', st', asset', revision))"
    and "last_sequence db < EVENT_SEQUENCE_MAX"
    and earlier: "row \<in> set (relationships db)" "rel_kind row = ''TAKE_SUPERSEDES''"
      "rel_source_kind row = ''TAKE''" "rel_source_id row = r"
  shows "transition_take E ctx q db = Err Store_Internal"
proof -
  have "insert_relationship ri ''TAKE_SUPERSEDES'' r (tt_take_id q) (tt_binding q) db' = Err Store_Internal"
    if "relationships db' = relationships db" for db'
    using earlier that
    by (auto simp add: insert_relationship_def insert_relationship_row_def insert_row_def list_ex_iff
        relationship_clash_def)
  moreover have "\<not> list_ex (\<lambda>r. cmd_id r = binding_command_id (tt_binding q)) (commands db)"
    using assms(1) by (force simp add: read_command_None list_ex_iff)
  ultimately show ?thesis
    using assms
    by (simp add: transition_take_def unless_replayed_def replay_existing_def distinct_ids_def sampled_at_def
       insert_claim_def claimed_row_def Let_def replacement_of_def supersede_replacement_def transition_rows_def supersede_rows_def
       or_exhausted_def allocate_event_sequences_def insert_row_def)
qed

lemma second_supersession_internal_witness:
  "transition_take sample_env sample_ctx (sample_transition Supersede) sample_takes = Err Store_Internal"
  by (rule second_supersession_internal [where r = "sample_id 22" and revision = 1 and st = Candidate
        and row = "hd (relationships sample_takes)" and e = "sample_id 10" and e' = "sample_id 11"
        and ri = "sample_id 12" and ordinal = 21 and asset = "sample_id 4" and target = Superseded and bumped = 2
        and at = sample_at and ordinal' = 22 and st' = Selected and asset' = "sample_id 4"])
    (simp_all add: sample_transition_def sample_values_def generated_id_def sample_id_ok sample_id_eq sample_read
       sample_read_22 checked_add_def sample_takes_fields read_command_def EVENT_SEQUENCE_MAX_def)

end
