(* ===== verification/Asset_Store.thy ===== *)
theory Asset_Store
  imports Creative_Store
begin

text \<open>
  The single-transaction asset commands of
  \<open>crates/mengxia-store-sqlite/src/asset_repository.rs\<close>: creating a revision of an asset
  (lines 1511-1836), retiring and restoring an asset (1838-2009) and recording a further
  location of a blob (2011-2173), with the request types of \<open>crates/mengxia-ports\<close> they
  take.  The statement counter that the tests use to inject faults is the identity in
  production and is left out: every error of a transaction is its rollback.
\<close>

section \<open>Statements on the asset tables\<close>

definition u64_try_from :: "int \<Rightarrow> u64 option" where
  "u64_try_from v = (if 0 \<le> v \<and> v < 2 ^ 64 then Some (word_of_int v) else None)"

definition update_assets ::
  "(asset_row \<Rightarrow> bool) \<Rightarrow> (asset_row \<Rightarrow> asset_row) \<Rightarrow> database \<Rightarrow> nat \<times> database" where
  "update_assets hit f db = (count_rows hit (assets db), db\<lparr>assets := update_rows hit f (assets db)\<rparr>)"

definition insert_asset_revision :: "asset_revision_row \<Rightarrow> database \<Rightarrow> asset_store_error + database" where
  "insert_asset_revision r db =
    and_then (insert_row (\<lambda>r r'. ar_id r = ar_id r'
        \<or> ar_asset_id r = ar_asset_id r' \<and> ar_sequence r = ar_sequence r') r (asset_revisions db))
      (\<lambda>rows. Ok (db\<lparr>asset_revisions := rows\<rparr>))"

definition insert_asset_parent :: "asset_parent_row \<Rightarrow> database \<Rightarrow> asset_store_error + database" where
  "insert_asset_parent r db =
    (if ap_child r = ap_parent r then Err Store_Internal
     else and_then (insert_row (\<lambda>r r'. ap_child r = ap_child r'
        \<and> (ap_ordinal r = ap_ordinal r' \<or> ap_parent r = ap_parent r')) r (asset_revision_parents db))
      (\<lambda>rows. Ok (db\<lparr>asset_revision_parents := rows\<rparr>)))"

definition insert_representation :: "representation_row \<Rightarrow> database \<Rightarrow> asset_store_error + database" where
  "insert_representation r db =
    and_then (insert_row (\<lambda>r r'. rp_id r = rp_id r') r (representations db))
      (\<lambda>rows. Ok (db\<lparr>representations := rows\<rparr>))"

definition insert_resource :: "resource_row \<Rightarrow> database \<Rightarrow> asset_store_error + database" where
  "insert_resource r db =
    and_then (insert_row (\<lambda>r r'. rs_id r = rs_id r') r (resources db))
      (\<lambda>rows. Ok (db\<lparr>resources := rows\<rparr>))"

definition insert_resource_member :: "resource_member_row \<Rightarrow> database \<Rightarrow> asset_store_error + database" where
  "insert_resource_member r db =
    and_then (insert_row (\<lambda>r r'. rm_resource_id r = rm_resource_id r' \<and> rm_ordinal r = rm_ordinal r')
        r (resource_members db))
      (\<lambda>rows. Ok (db\<lparr>resource_members := rows\<rparr>))"

definition insert_location :: "location_row \<Rightarrow> database \<Rightarrow> asset_store_error + database" where
  "insert_location r db =
    and_then (insert_row (\<lambda>r r'. lo_id r = lo_id r'
        \<or> lo_backend_id r = lo_backend_id r' \<and> lo_locator r = lo_locator r') r (locations db))
      (\<lambda>rows. Ok (db\<lparr>locations := rows\<rparr>))"

definition insert_provenance :: "provenance_row \<Rightarrow> database \<Rightarrow> asset_store_error + database" where
  "insert_provenance r db =
    and_then (insert_row (\<lambda>r r'. pv_id r = pv_id r') r (provenance_events db))
      (\<lambda>rows. Ok (db\<lparr>provenance_events := rows\<rparr>))"

text \<open>The end of each transaction: the claim becomes a completed row, and the row just
  written is validated and replayed before the commit.\<close>

definition complete_command ::
  "store_env \<Rightarrow> command_binding \<Rightarrow> (command_row \<Rightarrow> command_row) \<Rightarrow> (command_result \<Rightarrow> bool) \<Rightarrow> database \<Rightarrow>
    asset_store_error + (mutation_outcome \<times> database)" where
  "complete_command E b f expected db =
    (let (changed, db') = update_command
        (\<lambda>row. cmd_id row = binding_command_id b \<and> cmd_state row = ''CLAIMED'') f db in
     if changed \<noteq> 1 then Err Store_StorageCorruption
     else and_then (ok_or Store_StorageCorruption (read_command db' b)) (\<lambda>row.
          and_then (validate_command_row E row) (\<lambda>row.
          and_then (replay_result E db' row) (\<lambda>r.
            if expected r then Ok (Applied r, db') else Err Store_StorageCorruption))))"

definition plain_result :: "string \<Rightarrow> bytes \<Rightarrow> timestamp \<Rightarrow> command_row \<Rightarrow> command_row" where
  "plain_result kind i at row = row\<lparr>cmd_state := ''COMPLETED'', cmd_result_kind := Some kind,
     cmd_result_id := Some i, cmd_updated_at := stamp at\<rparr>"

section \<open>Creating a revision of an asset\<close>

record create_asset_revision_command =
  car_binding :: command_binding
  car_revision :: new_asset_revision
  car_domain_event_id :: uuid
  car_provenance_event_id :: uuid
  car_operation_at :: timestamp

definition create_asset_revision_command_new ::
  "create_asset_revision_command \<Rightarrow> asset_store_error + create_asset_revision_command" where
  "create_asset_revision_command_new q =
    and_then (require_operation (car_binding q) ASSET_REVISION_CREATE_V1) (\<lambda>_. Ok q)"

text \<open>Is every member backed by an available blob in durable managed custody?  A missing blob
  answers \<open>False\<close>.\<close>

fun check_members :: "database \<Rightarrow> revision_member list \<Rightarrow> asset_store_error + bool" where
  "check_members db [] = Ok True"
| "check_members db (m # ms) =
    (let d = member_blob_digest m;
         blob_count = count_rows (\<lambda>b. bl_digest b = d) (blobs db);
         has_managed_custody = count_rows (\<lambda>b. bl_digest b = d \<and> bl_lifecycle b = ''AVAILABLE''
           \<and> list_ex (\<lambda>l. lo_blob_digest l = bl_digest b \<and> lo_custody l = ''MANAGED''
               \<and> lo_durability l = ''DURABLE'' \<and> lo_lifecycle l = ''AVAILABLE'') (locations db)) (blobs db) in
     if blob_count = 0 then Ok False
     else if blob_count \<noteq> 1 \<or> has_managed_custody \<noteq> 1 then Err Store_StorageCorruption
     else check_members db ms)"

definition revision_members :: "new_asset_revision \<Rightarrow> revision_member list" where
  "revision_members r =
    concat (map (\<lambda>rep. concat (map resource_members_of (representation_resources_of rep)))
      (new_representations r))"

fun insert_parents :: "uuid \<Rightarrow> uuid \<Rightarrow> int \<Rightarrow> uuid list \<Rightarrow> database \<Rightarrow> asset_store_error + database" where
  "insert_parents asset child ordinal [] db = Ok db"
| "insert_parents asset child ordinal (p # ps) db =
    and_then (insert_asset_parent
      \<lparr>ap_asset_id = asset, ap_child = child, ap_ordinal = ordinal, ap_parent = p\<rparr> db)
      (insert_parents asset child (ordinal + 1) ps)"

fun insert_members :: "uuid \<Rightarrow> int \<Rightarrow> revision_member list \<Rightarrow> database \<Rightarrow> asset_store_error + database" where
  "insert_members resource ordinal [] db = Ok db"
| "insert_members resource ordinal (m # ms) db =
    and_then (insert_resource_member
      \<lparr>rm_resource_id = resource, rm_ordinal = ordinal, rm_logical_name = member_logical_name m,
       rm_blob_digest = member_blob_digest m\<rparr> db)
      (insert_members resource (ordinal + 1) ms)"

fun insert_resources :: "uuid \<Rightarrow> revision_resource list \<Rightarrow> database \<Rightarrow> asset_store_error + database" where
  "insert_resources representation [] db = Ok db"
| "insert_resources representation (r # rs) db =
    and_then (insert_resource
      \<lparr>rs_id = resource_id_of r, rs_representation_id = representation, rs_kind = resource_kind_of r\<rparr> db) (\<lambda>db.
    and_then (insert_members (resource_id_of r) 0 (resource_members_of r) db)
      (insert_resources representation rs))"

fun insert_representations ::
  "uuid \<Rightarrow> revision_representation list \<Rightarrow> database \<Rightarrow> asset_store_error + database" where
  "insert_representations revision [] db = Ok db"
| "insert_representations revision (r # rs) db =
    and_then (insert_representation
      \<lparr>rp_id = representation_id_of r, rp_asset_revision_id = revision,
       rp_purpose = representation_purpose_of r\<rparr> db) (\<lambda>db.
    and_then (insert_resources (representation_id_of r) (representation_resources_of r) db)
      (insert_representations revision rs))"

definition max_sequence :: "database \<Rightarrow> uuid \<Rightarrow> int option" where
  "max_sequence db asset = maximum (map ar_sequence (filter (\<lambda>r. ar_asset_id r = asset) (asset_revisions db)))"

text \<open>The writes of the transaction, once every guard has passed.\<close>

definition create_revision_rows ::
  "store_env \<Rightarrow> create_asset_revision_command \<Rightarrow> u64 \<Rightarrow> int \<Rightarrow> database \<Rightarrow>
    asset_store_error + (mutation_outcome \<times> database)" where
  "create_revision_rows E q expected sequence db =
    (let b = car_binding q; revision = car_revision q; asset = new_asset_id revision;
         rid = new_revision_id revision; at = car_operation_at q;
         (changed, db) = update_assets (\<lambda>a. as_id a = asset \<and> as_revision a = revision_bytes expected)
           (\<lambda>a. a\<lparr>as_revision := revision_bytes (new_resulting_revision revision),
                  as_updated_at := Some (stamp at)\<rparr>) db in
     if changed \<noteq> 1 then Err Store_StorageCorruption
     else and_then (ok_or Store_Internal (max_sequence db asset)) (\<lambda>m.
       and_then (insert_asset_revision
         \<lparr>ar_id = rid, ar_asset_id = asset, ar_sequence = m + 1, ar_content_kind = new_content_kind revision,
          ar_created_at = stamp at\<rparr> db) (\<lambda>db.
       and_then (insert_parents asset rid 0 (new_parent_revision_ids revision) db) (\<lambda>db.
       and_then (insert_representations rid (new_representations revision) db) (\<lambda>db.
       and_then (insert_domain_event (car_domain_event_id q) sequence b ''asset.revision.created.v1''
         ''ASSET_REVISION'' rid (new_resulting_revision revision) at db) (\<lambda>db.
       and_then (insert_provenance
         \<lparr>pv_id = car_provenance_event_id q, pv_command_id = binding_command_id b,
          pv_type = ''asset.revision.derived.v1'', pv_asset_revision_id = rid, pv_blob_digest = None,
          pv_occurred_at = stamp at\<rparr> db) (\<lambda>db.
       complete_command E b (plain_result ''ASSET_REVISION'' rid at)
         (\<lambda>r. case r of AssetRevisionResult _ _ _ _ \<Rightarrow> True | _ \<Rightarrow> False) db)))))))"

definition create_revision_inner ::
  "store_env \<Rightarrow> store_context \<Rightarrow> create_asset_revision_command \<Rightarrow> database \<Rightarrow>
    asset_store_error + (mutation_outcome \<times> database)" where
  "create_revision_inner E ctx q db =
    (let b = car_binding q; revision = car_revision q; asset = new_asset_id revision; at = car_operation_at q in
     unless_replayed E ctx b ''ASSET_REVISION'' db (
     and_then (insert_claim ctx b at db) (\<lambda>db.
     case find (\<lambda>a. as_id a = asset \<and> as_lifecycle a = ''ACTIVE'') (assets db) of
       None \<Rightarrow> commit_rejection b NotFound at db
     | Some a \<Rightarrow>
       and_then (ensure (new_resulting_revision revision \<noteq> 0) Store_Validation) (\<lambda>_.
       let expected = new_resulting_revision revision - 1 in
       and_then (parse_revision (as_revision a)) (\<lambda>current_revision.
       and_then (ok_or Store_StorageCorruption
         (Option.bind (max_sequence db (as_id a)) u64_try_from)) (\<lambda>maximum_sequence.
       if maximum_sequence \<noteq> current_revision then Err Store_StorageCorruption
       else if current_revision \<noteq> expected then commit_rejection b Conflict at db
       else if 4294967295 \<le> expected then commit_rejection b RevisionExhausted at db
       else if list_ex (\<lambda>p. count_rows (\<lambda>r. ar_asset_id r = asset \<and> ar_id r = p) (asset_revisions db) \<noteq> 1)
           (new_parent_revision_ids revision)
         then commit_rejection b Conflict at db
       else and_then (check_members db (revision_members revision)) (\<lambda>present.
         if \<not> present then commit_rejection b NotFound at db
         else or_exhausted b at db (allocate_event_sequences 1 db) (\<lambda>(sequence, db).
           create_revision_rows E q expected sequence db))))))))"

subsection \<open>Identities sampled by the writer\<close>

record member_input =
  mi_logical_name :: utext
  mi_blob_digest :: sha256_digest

record resource_input =
  rsi_kind :: string
  rsi_members :: "member_input list"

definition resource_input_new :: "string \<Rightarrow> member_input list \<Rightarrow> asset_store_error + resource_input" where
  "resource_input_new kind members =
    (if members = [] \<or> length members > 4096 then Err Store_Validation
     else Ok \<lparr>rsi_kind = kind, rsi_members = members\<rparr>)"

record representation_input =
  rpi_purpose :: string
  rpi_resources :: "resource_input list"

definition representation_input_new ::
  "string \<Rightarrow> resource_input list \<Rightarrow> asset_store_error + representation_input" where
  "representation_input_new purpose inputs =
    (if inputs = [] \<or> length inputs > 64 then Err Store_Validation
     else Ok \<lparr>rpi_purpose = purpose, rpi_resources = inputs\<rparr>)"

record deferred_create_revision_command =
  dcr_binding :: command_binding
  dcr_asset_id :: uuid
  dcr_expected_revision :: revision_no
  dcr_parent_revision_ids :: "uuid list"
  dcr_content_kind :: string
  dcr_representations :: "representation_input list"
  dcr_values :: value_source

definition deferred_create_revision_command_new ::
  "deferred_create_revision_command \<Rightarrow> asset_store_error + deferred_create_revision_command" where
  "deferred_create_revision_command_new q =
    and_then (require_operation (dcr_binding q) ASSET_REVISION_CREATE_V1) (\<lambda>_.
    let parents = dcr_parent_revision_ids q; reps = dcr_representations q in
    if parents = [] \<or> length parents > 64 \<or> reps = [] \<or> length reps > 64
       \<or> length (btree_set parents) \<noteq> length parents
    then Err Store_Validation else Ok q)"

text \<open>One identity per resource and per representation, in the order of the request; the
  number of identities sampled so far is threaded through.\<close>

fun sample_resources ::
  "store_env \<Rightarrow> value_source \<Rightarrow> nat \<Rightarrow> resource_input list \<Rightarrow>
    asset_store_error + (revision_resource list \<times> nat)" where
  "sample_resources E vs k [] = Ok ([], k)"
| "sample_resources E vs k (r # rs) =
    and_then (generated_id E vs k) (\<lambda>i.
    and_then (map_err (\<lambda>_. Store_Validation) (revision_resource_new i (rsi_kind r)
      (map (\<lambda>m. \<lparr>member_logical_name = mi_logical_name m, member_blob_digest = mi_blob_digest m\<rparr>)
        (rsi_members r)))) (\<lambda>resource.
    and_then (sample_resources E vs (Suc k) rs) (\<lambda>(items, n). Ok (resource # items, n))))"

fun sample_representations ::
  "store_env \<Rightarrow> value_source \<Rightarrow> nat \<Rightarrow> representation_input list \<Rightarrow>
    asset_store_error + (revision_representation list \<times> nat)" where
  "sample_representations E vs k [] = Ok ([], k)"
| "sample_representations E vs k (r # rs) =
    and_then (generated_id E vs k) (\<lambda>i.
    and_then (sample_resources E vs (Suc k) (rpi_resources r)) (\<lambda>(items, n).
    and_then (map_err (\<lambda>_. Store_Validation)
      (revision_representation_new i (rpi_purpose r) items)) (\<lambda>representation.
    and_then (sample_representations E vs n rs) (\<lambda>(reps, n').
      Ok (representation # reps, n')))))"

definition sampled_graph_ids :: "revision_representation list \<Rightarrow> uuid list" where
  "sampled_graph_ids reps =
    concat (map (\<lambda>r. representation_id_of r # map resource_id_of (representation_resources_of r)) reps)"

fun parse_lifecycle :: "string \<Rightarrow> asset_store_error + asset_lifecycle" where
  "parse_lifecycle s =
    (if s = ''ACTIVE'' then Ok Active else if s = ''RETIRED'' then Ok Retired
     else Err Store_StorageCorruption)"

definition stored_asset_record :: "store_env \<Rightarrow> asset_row \<Rightarrow> asset_store_error + asset_record" where
  "stored_asset_record E a =
    and_then (map_err (\<lambda>_. Store_StorageCorruption) (token_new (as_kind a))) (\<lambda>kind.
    and_then (parse_lifecycle (as_lifecycle a)) (\<lambda>lifecycle.
    and_then (parse_revision (as_revision a)) (\<lambda>revision.
    and_then (persisted_timestamp E (as_created_at a)) (\<lambda>created_at.
      Ok \<lparr>asset_record_id = as_id a, asset_record_kind = kind, asset_record_lifecycle = lifecycle,
          asset_record_revision = revision, asset_record_created_at = created_at\<rparr>))))"

definition create_revision_deferred ::
  "store_env \<Rightarrow> store_context \<Rightarrow> deferred_create_revision_command \<Rightarrow> database \<Rightarrow>
    asset_store_error + (mutation_outcome \<times> database)" where
  "create_revision_deferred E ctx q db =
    (let b = dcr_binding q; vs = dcr_values q in
     unless_replayed E ctx b ''ASSET_REVISION'' db (
     let asset = find (\<lambda>a. as_id a = dcr_asset_id q) (assets db) in
     and_then (generated_id E vs 0) (\<lambda>revision_id.
     and_then (generated_id E vs 1) (\<lambda>eid.
     and_then (generated_id E vs 2) (\<lambda>provenance_id.
     and_then (sample_representations E vs 3 (dcr_representations q)) (\<lambda>(reps, _).
     if has_repeat ([dcr_asset_id q, revision_id, eid, provenance_id] @ sampled_graph_ids reps
         @ dcr_parent_revision_ids q)
       then Err Store_IdGenerationUnavailable
     else and_then (sampled_at vs) (\<lambda>at.
     case asset of
       None \<Rightarrow> and_then (insert_claim ctx b at db) (\<lambda>db. commit_rejection b NotFound at db)
     | Some a \<Rightarrow>
       and_then (stored_asset_record E a) (\<lambda>record.
       case create_revision record
         \<lparr>cr_expected_revision = dcr_expected_revision q, cr_revision_id = revision_id,
          cr_parent_revision_ids = dcr_parent_revision_ids q, cr_content_kind = dcr_content_kind q,
          cr_representations = reps, cr_created_at = at\<rparr> of
         Inl AssetConflict \<Rightarrow> and_then (insert_claim ctx b at db) (\<lambda>db. commit_rejection b Conflict at db)
       | Inl AssetRevisionExhausted \<Rightarrow>
           and_then (insert_claim ctx b at db) (\<lambda>db. commit_rejection b RevisionExhausted at db)
       | Inl _ \<Rightarrow> Err Store_Validation
       | Inr revision \<Rightarrow>
           and_then (create_asset_revision_command_new
             \<lparr>car_binding = b, car_revision = revision, car_domain_event_id = eid,
              car_provenance_event_id = provenance_id, car_operation_at = at\<rparr>)
             (\<lambda>command. create_revision_inner E ctx command db)))))))))"

section \<open>Retiring and restoring an asset\<close>

record asset_lifecycle_command =
  alc_binding :: command_binding
  alc_asset_id :: uuid
  alc_expected_revision :: revision_no
  alc_target :: asset_lifecycle
  alc_domain_event_id :: uuid
  alc_operation_at :: timestamp

definition lifecycle_operation_ok :: "command_binding \<Rightarrow> asset_lifecycle \<Rightarrow> bool" where
  "lifecycle_operation_ok b target =
    (binding_operation_id b = ASSET_RETIRE_V1 \<and> target = Retired
     \<or> binding_operation_id b = ASSET_RESTORE_V1 \<and> target = Active)"

definition asset_lifecycle_command_new :: "asset_lifecycle_command \<Rightarrow> asset_store_error + asset_lifecycle_command" where
  "asset_lifecycle_command_new q =
    (if lifecycle_operation_ok (alc_binding q) (alc_target q) then Ok q else Err Store_Validation)"

fun lifecycle_text :: "asset_lifecycle \<Rightarrow> string" where
  "lifecycle_text Active = ''ACTIVE''"
| "lifecycle_text Retired = ''RETIRED''"

definition change_lifecycle_rows ::
  "store_env \<Rightarrow> asset_lifecycle_command \<Rightarrow> u64 \<Rightarrow> u64 \<Rightarrow> int \<Rightarrow> database \<Rightarrow>
    asset_store_error + (mutation_outcome \<times> database)" where
  "change_lifecycle_rows E q current_revision next sequence db =
    (let b = alc_binding q; at = alc_operation_at q; target = alc_target q;
         (changed, db) = update_assets
           (\<lambda>a. as_id a = alc_asset_id q \<and> as_revision a = revision_bytes current_revision)
           (\<lambda>a. a\<lparr>as_lifecycle := lifecycle_text target, as_revision := revision_bytes next,
                  as_updated_at := Some (stamp at)\<rparr>) db in
     if changed \<noteq> 1 then Err Store_StorageCorruption
     else and_then (insert_domain_event (alc_domain_event_id q) sequence b
         (if target = Retired then ''asset.retired.v1'' else ''asset.restored.v1'') ''ASSET''
         (alc_asset_id q) next at db) (\<lambda>db.
       complete_command E b (complete_row E (alc_asset_id q) (AssetLifecyclePayload next target) at)
         (\<lambda>_. True) db))"

definition change_asset_lifecycle ::
  "store_env \<Rightarrow> store_context \<Rightarrow> asset_lifecycle_command \<Rightarrow> database \<Rightarrow>
    asset_store_error + (mutation_outcome \<times> database)" where
  "change_asset_lifecycle E ctx q db =
    (let b = alc_binding q; at = alc_operation_at q; target = alc_target q in
     unless_replayed E ctx b ''ASSET_LIFECYCLE'' db (
     and_then (insert_claim ctx b at db) (\<lambda>db.
     case find (\<lambda>a. as_id a = alc_asset_id q) (assets db) of
       None \<Rightarrow> commit_rejection b NotFound at db
     | Some a \<Rightarrow>
       and_then (parse_revision (as_revision a)) (\<lambda>current_revision.
       if current_revision \<noteq> alc_expected_revision q then commit_rejection b Conflict at db
       else if \<not> (as_lifecycle a = ''ACTIVE'' \<and> target = Retired \<or> as_lifecycle a = ''RETIRED'' \<and> target = Active)
         then commit_rejection b InvalidTransition at db
       else case checked_add current_revision 1 of
         None \<Rightarrow> commit_rejection b RevisionExhausted at db
       | Some next \<Rightarrow>
         or_exhausted b at db (allocate_event_sequences 1 db) (\<lambda>(sequence, db).
           change_lifecycle_rows E q current_revision next sequence db)))))"

record deferred_asset_lifecycle_command =
  dal_binding :: command_binding
  dal_asset_id :: uuid
  dal_expected_revision :: revision_no
  dal_target :: asset_lifecycle
  dal_values :: value_source

definition deferred_asset_lifecycle_command_new ::
  "deferred_asset_lifecycle_command \<Rightarrow> asset_store_error + deferred_asset_lifecycle_command" where
  "deferred_asset_lifecycle_command_new q =
    (if lifecycle_operation_ok (dal_binding q) (dal_target q) then Ok q else Err Store_Validation)"

definition change_asset_lifecycle_deferred ::
  "store_env \<Rightarrow> store_context \<Rightarrow> deferred_asset_lifecycle_command \<Rightarrow> database \<Rightarrow>
    asset_store_error + (mutation_outcome \<times> database)" where
  "change_asset_lifecycle_deferred E ctx q db =
    unless_replayed E ctx (dal_binding q) ''ASSET_LIFECYCLE'' db (
    and_then (generated_id E (dal_values q) 0) (\<lambda>eid.
    and_then (sampled_at (dal_values q)) (\<lambda>at.
    and_then (asset_lifecycle_command_new
      \<lparr>alc_binding = dal_binding q, alc_asset_id = dal_asset_id q,
       alc_expected_revision = dal_expected_revision q, alc_target = dal_target q,
       alc_domain_event_id = eid, alc_operation_at = at\<rparr>)
      (\<lambda>command. change_asset_lifecycle E ctx command db))))"

section \<open>Recording a location\<close>

record durable_blob =
  durable_digest :: sha256_digest
  durable_byte_length :: u64
  durable_backend_id :: utext
  durable_locator :: utext

definition str_text :: "string \<Rightarrow> utext" where
  "str_text s = map of_char s"

definition durable_blob_from_verified_local_adapter :: "sha256_digest \<Rightarrow> u64 \<Rightarrow> bytes \<Rightarrow> durable_blob" where
  "durable_blob_from_verified_local_adapter digest byte_length backend_instance_digest =
    (let digest_hex = sha256_display digest; backend_hex = sha256_display backend_instance_digest in
     \<lparr>durable_digest = digest, durable_byte_length = byte_length,
      durable_backend_id = str_text (''mengxia.local-cas.v1/'' @ backend_hex),
      durable_locator = str_text (''sha256-v1/'' @ take 2 digest_hex @ ''/'' @ take 2 (drop 2 digest_hex)
        @ ''/'' @ digest_hex @ ''.blob'')\<rparr>)"

definition validate_descriptor :: "utext \<Rightarrow> nat \<Rightarrow> asset_store_error + unit" where
  "validate_descriptor v max_len =
    (if v = [] \<or> text_len v > max_len \<or> list_ex is_control v then Err Store_Validation else Ok ())"

record record_location_command =
  rl_binding :: command_binding
  rl_durable_blob :: durable_blob
  rl_candidate_location_id :: uuid
  rl_expected_revision :: revision_no
  rl_domain_event_id :: uuid
  rl_operation_at :: timestamp

definition record_location_command_new :: "record_location_command \<Rightarrow> asset_store_error + record_location_command" where
  "record_location_command_new q =
    and_then (require_operation (rl_binding q) BLOB_LOCATION_RECORD_V1) (\<lambda>_. Ok q)"

text \<open>What the code checks of a stored blob and of a stored location before it relies on it.\<close>

definition blob_facts :: "store_env \<Rightarrow> u64 \<Rightarrow> blob_row \<Rightarrow> asset_store_error + string option" where
  "blob_facts E byte_length b =
    and_then (parse_revision (bl_revision b)) (\<lambda>revision.
    and_then (ensure (revision \<noteq> 0) Store_StorageCorruption) (\<lambda>_.
    and_then (case bl_media_type b of None \<Rightarrow> Ok None
        | Some t \<Rightarrow> map_err (\<lambda>_. Store_StorageCorruption) (and_then (media_type_new t) (\<lambda>m. Ok (Some m)))) (\<lambda>media.
    and_then (persisted_timestamp E (bl_verified_at b)) (\<lambda>_.
    and_then (ensure (bl_lifecycle b = ''AVAILABLE'' \<and> u64_try_from (bl_byte_length b) = Some byte_length)
      Store_StorageCorruption) (\<lambda>_. Ok media)))))"

definition location_facts :: "store_env \<Rightarrow> sha256_digest \<Rightarrow> location_row \<Rightarrow> asset_store_error + bytes" where
  "location_facts E digest l =
    and_then (stored_id E (Some (lo_id l))) (\<lambda>_.
    and_then (parse_revision (lo_revision l)) (\<lambda>revision.
    and_then (ensure (revision = 1) Store_StorageCorruption) (\<lambda>_.
    and_then (persisted_timestamp E (lo_verified_at l)) (\<lambda>_.
    and_then (ensure (lo_blob_digest l = digest \<and> lo_custody l = ''MANAGED'' \<and> lo_durability l = ''DURABLE''
        \<and> lo_lifecycle l = ''AVAILABLE'') Store_StorageCorruption) (\<lambda>_. Ok (lo_id l))))))"

definition find_location :: "durable_blob \<Rightarrow> database \<Rightarrow> location_row option" where
  "find_location blob db =
    find (\<lambda>l. lo_backend_id l = durable_backend_id blob \<and> lo_locator l = durable_locator blob) (locations db)"

definition managed_location :: "uuid \<Rightarrow> durable_blob \<Rightarrow> timestamp \<Rightarrow> location_row" where
  "managed_location i blob at =
    \<lparr>lo_id = i, lo_blob_digest = durable_digest blob, lo_backend_id = durable_backend_id blob,
     lo_locator = durable_locator blob, lo_custody = ''MANAGED'', lo_durability = ''DURABLE'',
     lo_lifecycle = ''AVAILABLE'', lo_revision = revision_bytes 1, lo_verified_at = stamp at\<rparr>"

definition record_location_rows ::
  "store_env \<Rightarrow> record_location_command \<Rightarrow> u64 \<Rightarrow> int \<Rightarrow> database \<Rightarrow>
    asset_store_error + (mutation_outcome \<times> database)" where
  "record_location_rows E q next sequence db =
    (let b = rl_binding q; blob = rl_durable_blob q; at = rl_operation_at q; digest = durable_digest blob in
     and_then (insert_location (managed_location (rl_candidate_location_id q) blob at) db) (\<lambda>db.
     let db = db\<lparr>blobs := update_rows (\<lambda>r. bl_digest r = digest)
        (\<lambda>r. r\<lparr>bl_revision := revision_bytes next, bl_verified_at := stamp at\<rparr>) (blobs db)\<rparr> in
     and_then (insert_domain_event (rl_domain_event_id q) sequence b ''blob.location.recorded.v1'' ''BLOB''
        digest next at db) (\<lambda>db.
     complete_command E b (plain_result ''LOCATION'' (rl_candidate_location_id q) at)
       (\<lambda>r. case r of LocationResult _ _ _ \<Rightarrow> True | _ \<Rightarrow> False) db)))"

definition record_location_transaction ::
  "store_env \<Rightarrow> store_context \<Rightarrow> record_location_command \<Rightarrow> database \<Rightarrow>
    asset_store_error + (mutation_outcome \<times> database)" where
  "record_location_transaction E ctx q db =
    (let b = rl_binding q; blob = rl_durable_blob q; at = rl_operation_at q in
     unless_replayed E ctx b ''LOCATION'' db (
     and_then (insert_claim ctx b at db) (\<lambda>db.
     case find (\<lambda>r. bl_digest r = durable_digest blob) (blobs db) of
       None \<Rightarrow> commit_rejection b NotFound at db
     | Some current \<Rightarrow>
       and_then (blob_facts E (durable_byte_length blob) current) (\<lambda>_.
       if bl_revision current \<noteq> revision_bytes (rl_expected_revision q)
         then commit_rejection b Conflict at db
       else case checked_next (rl_expected_revision q) of
         Inl _ \<Rightarrow> commit_rejection b RevisionExhausted at db
       | Inr next \<Rightarrow>
         (case find_location blob db of
           Some l \<Rightarrow> and_then (location_facts E (durable_digest blob) l) (\<lambda>_. commit_rejection b Conflict at db)
         | None \<Rightarrow>
           or_exhausted b at db (allocate_event_sequences 1 db) (\<lambda>(sequence, db).
             record_location_rows E q next sequence db))))))"

definition record_location ::
  "store_env \<Rightarrow> store_context \<Rightarrow> record_location_command \<Rightarrow> database \<Rightarrow>
    asset_store_error + (mutation_outcome \<times> database)" where
  "record_location E ctx q db =
    and_then (validate_descriptor (durable_backend_id (rl_durable_blob q)) 255) (\<lambda>_.
    and_then (validate_descriptor (durable_locator (rl_durable_blob q)) 1024) (\<lambda>_.
      record_location_transaction E ctx q db))"

section \<open>Every operation settles its command\<close>

definition operation_ok :: "store_env \<Rightarrow> store_context \<Rightarrow> command_binding \<Rightarrow> string \<Rightarrow> timestamp \<Rightarrow> bool" where
  "operation_ok E ctx b operation at =
    (binding_wf E ctx b \<and> binding_operation_id b = operation \<and> clock_ok E at)"

lemma claims_at:
  assumes "operation_ok E ctx b operation at" "(operation, kind) \<in> set pure_operations"
    and "replay_existing E ctx b kind db = Ok None"
    and "insert_claim ctx b at db = Ok db1" "commands db2 = commands db1"
  shows "claims E ctx b kind at db db2"
  using assms insert_claim_fresh [OF replay_existing_None [OF assms(3)], of ctx at]
  by (auto simp add: claims_def operation_ok_def replay_existing_None)

text \<open>A rewrite of the claimed row into a completed row of its own command.\<close>

definition completes :: "string \<Rightarrow> (command_row \<Rightarrow> command_row) \<Rightarrow> bool" where
  "completes kind f = (\<forall>row. cmd_state (f row) = ''COMPLETED'' \<and> cmd_result_kind (f row) = Some kind
     \<and> cmd_id (f row) = cmd_id row \<and> cmd_operation_id (f row) = cmd_operation_id row
     \<and> cmd_principal_kind (f row) = cmd_principal_kind row \<and> cmd_principal_uid (f row) = cmd_principal_uid row
     \<and> cmd_digest (f row) = cmd_digest row)"

lemma completes_plain: "completes kind (plain_result kind i at)"
  by (simp add: completes_def plain_result_def)

lemma completes_versioned: "result_kind payload = kind \<Longrightarrow> completes kind (complete_row E i payload at)"
  by (auto simp add: completes_def complete_row_def)

lemma checked_replay:
  "and_then (validate_command_row E row) (\<lambda>row. and_then (replay_result E db2 row) (\<lambda>r.
      if expected r then Ok (Applied r, db2) else Err e)) = Ok (out, db') \<Longrightarrow>
    \<exists>r. validate_command_row E row = Ok row \<and> replay_result E db' row = Ok r \<and> out = Applied r \<and> db' = db2"
  by (auto simp add: and_then_ok_iff dest!: validate_command_row_ok split: if_splits)

lemma settles_complete_command:
  assumes "read_command db b = None" "completes kind f"
    and rows: "commands db1 = commands db @ [claimed_row ctx b at]"
    and run: "complete_command E b f expected db1 = Ok (out, db')"
  shows "settles E ctx b kind db out db'"
proof -
  let ?row = "f (claimed_row ctx b at)"
  have "binding_command_id b \<notin> cmd_id ` set (commands db)"
    using assms(1) by (simp add: read_command_None)
  from update_command_fresh [OF this _ rows, of "\<lambda>row. cmd_state row = ''CLAIMED''" f]
  have upd: "update_command (\<lambda>row. cmd_id row = binding_command_id b \<and> cmd_state row = ''CLAIMED'')
      f db1 = (1, db1\<lparr>commands := commands db @ [?row]\<rparr>)"
    by (simp add: claimed_row_def)
  have "read_command (db1\<lparr>commands := commands db @ [?row]\<rparr>) b = Some ?row"
    using assms(1,2) by (intro read_command_append) (simp_all add: completes_def claimed_row_def)
  then have "and_then (validate_command_row E ?row) (\<lambda>row.
      and_then (replay_result E (db1\<lparr>commands := commands db @ [?row]\<rparr>) row) (\<lambda>r.
        if expected r then Ok (Applied r, db1\<lparr>commands := commands db @ [?row]\<rparr>)
        else Err Store_StorageCorruption)) = Ok (out, db')"
    using upd run by (simp add: complete_command_def)
  then obtain r where r: "validate_command_row E ?row = Ok ?row"
      "replay_result E db' ?row = Ok r" "out = Applied r" "db' = db1\<lparr>commands := commands db @ [?row]\<rparr>"
    using checked_replay by blast
  with assms(1,2) have "settles E ctx b kind db (Applied r) db'"
    by (intro settles.applied [where row = ?row])
      (simp_all add: completes_def claimed_row_def binding_matches_def)
  with r(3) show ?thesis by simp
qed

lemma settling_complete_command:
  "claims E ctx b kind at db db1 \<Longrightarrow> completes kind f \<Longrightarrow>
    settling E ctx b kind db (complete_command E b f expected db1)"
  unfolding settling_def claims_def using settles_complete_command by blast

lemma asset_table_commands:
  "update_assets hit f db = (n, db0) \<Longrightarrow> commands db0 = commands db"
  "insert_asset_revision r1 db = Ok db1 \<Longrightarrow> commands db1 = commands db"
  "insert_asset_parent r2 db = Ok db2 \<Longrightarrow> commands db2 = commands db"
  "insert_representation r3 db = Ok db3 \<Longrightarrow> commands db3 = commands db"
  "insert_resource r4 db = Ok db4 \<Longrightarrow> commands db4 = commands db"
  "insert_resource_member r5 db = Ok db5 \<Longrightarrow> commands db5 = commands db"
  "insert_location r6 db = Ok db6 \<Longrightarrow> commands db6 = commands db"
  "insert_provenance r7 db = Ok db7 \<Longrightarrow> commands db7 = commands db"
  by (auto simp add: update_assets_def insert_asset_revision_def insert_asset_parent_def
      insert_representation_def insert_resource_def insert_resource_member_def insert_location_def
      insert_provenance_def and_then_ok_iff split: if_splits)

lemma insert_parents_commands: "insert_parents a c n ps db = Ok db' \<Longrightarrow> commands db' = commands db"
  by (induction ps arbitrary: n db) (auto simp add: and_then_ok_iff dest!: asset_table_commands)

lemma insert_members_commands: "insert_members i n ms db = Ok db' \<Longrightarrow> commands db' = commands db"
  by (induction ms arbitrary: n db) (auto simp add: and_then_ok_iff dest!: asset_table_commands)

lemma insert_resources_commands: "insert_resources i rs db = Ok db' \<Longrightarrow> commands db' = commands db"
  by (induction rs arbitrary: db)
    (auto simp add: and_then_ok_iff dest!: asset_table_commands insert_members_commands)

lemma insert_representations_commands:
  "insert_representations i rs db = Ok db' \<Longrightarrow> commands db' = commands db"
  by (induction rs arbitrary: db)
    (auto simp add: and_then_ok_iff dest!: asset_table_commands insert_resources_commands)

lemmas keeps_asset_commands =
  keeps_commands asset_table_commands insert_parents_commands insert_representations_commands

lemma create_revision_rows_settling:
  assumes "claims E ctx (car_binding q) ''ASSET_REVISION'' (car_operation_at q) db db1"
  shows "settling E ctx (car_binding q) ''ASSET_REVISION'' db (create_revision_rows E q expected sequence db1)"
  unfolding create_revision_rows_def Let_def
  by (auto intro!: settling_rules settling_complete_command completes_plain
      dest!: keeps_asset_commands split: prod.splits)
    (rule claims_cong [OF assms], simp)+

lemma create_revision_inner_settling:
  assumes ok: "operation_ok E ctx (car_binding q) ASSET_REVISION_CREATE_V1 (car_operation_at q)"
    and fresh: "replay_existing E ctx (car_binding q) ''ASSET_REVISION'' db = Ok None"
  shows "settling E ctx (car_binding q) ''ASSET_REVISION'' db (create_revision_inner E ctx q db)"
proof -
  have "(ASSET_REVISION_CREATE_V1, ''ASSET_REVISION'') \<in> set pure_operations" by (simp add: pure_operations_def)
  note start = claims_at [OF ok this fresh]
  show ?thesis
    unfolding create_revision_inner_def unless_replayed_def Let_def fresh and_then_simps option.case
    by (auto intro!: settling_rules create_revision_rows_settling dest!: keeps_asset_commands
        split: option.splits sum.splits)
      ((rule start, assumption, simp) | simp)+
qed

lemma asset_operation_kinds:
  "(ASSET_REVISION_CREATE_V1, ''ASSET_REVISION'') \<in> set pure_operations"
  "(BLOB_LOCATION_RECORD_V1, ''LOCATION'') \<in> set pure_operations"
  "(ASSET_RETIRE_V1, ''ASSET_LIFECYCLE'') \<in> set pure_operations"
  "(ASSET_RESTORE_V1, ''ASSET_LIFECYCLE'') \<in> set pure_operations"
  by (simp_all add: pure_operations_def)

text \<open>What the constructors of the lifecycle commands guarantee about the operation.\<close>

definition lifecycle_ok :: "store_env \<Rightarrow> store_context \<Rightarrow> command_binding \<Rightarrow> asset_lifecycle \<Rightarrow> timestamp \<Rightarrow> bool" where
  "lifecycle_ok E ctx b target at = (binding_wf E ctx b \<and> lifecycle_operation_ok b target \<and> clock_ok E at)"

lemma lifecycle_claims:
  assumes "lifecycle_ok E ctx b target at" "replay_existing E ctx b ''ASSET_LIFECYCLE'' db = Ok None"
    and "insert_claim ctx b at db = Ok db1" "commands db2 = commands db1"
  shows "claims E ctx b ''ASSET_LIFECYCLE'' at db db2"
proof -
  have "(binding_operation_id b, ''ASSET_LIFECYCLE'') \<in> set pure_operations"
    using assms(1) asset_operation_kinds(3,4) by (auto simp add: lifecycle_ok_def lifecycle_operation_ok_def)
  moreover have "operation_ok E ctx b (binding_operation_id b) at"
    using assms(1) by (simp add: operation_ok_def lifecycle_ok_def)
  ultimately show ?thesis using claims_at assms(2-4) by blast
qed

lemma change_lifecycle_rows_settling:
  assumes "claims E ctx (alc_binding q) ''ASSET_LIFECYCLE'' (alc_operation_at q) db db1"
  shows "settling E ctx (alc_binding q) ''ASSET_LIFECYCLE'' db (change_lifecycle_rows E q r n sequence db1)"
  unfolding change_lifecycle_rows_def Let_def
  by (auto intro!: settling_rules settling_complete_command completes_versioned
      dest!: keeps_asset_commands split: prod.splits)
    ((rule claims_cong [OF assms], simp) | simp)+

lemma change_asset_lifecycle_settling:
  assumes ok: "lifecycle_ok E ctx (alc_binding q) (alc_target q) (alc_operation_at q)"
    and fresh: "replay_existing E ctx (alc_binding q) ''ASSET_LIFECYCLE'' db = Ok None"
  shows "settling E ctx (alc_binding q) ''ASSET_LIFECYCLE'' db (change_asset_lifecycle E ctx q db)"
proof -
  note start = lifecycle_claims [OF ok fresh]
  show ?thesis
    unfolding change_asset_lifecycle_def unless_replayed_def Let_def fresh and_then_simps option.case
    by (auto intro!: settling_rules change_lifecycle_rows_settling
        dest!: keeps_asset_commands split: option.splits sum.splits prod.splits)
      ((rule start, assumption, simp) | simp)+
qed

lemma record_location_rows_settling:
  assumes "claims E ctx (rl_binding q) ''LOCATION'' (rl_operation_at q) db db1"
  shows "settling E ctx (rl_binding q) ''LOCATION'' db (record_location_rows E q next sequence db1)"
  unfolding record_location_rows_def Let_def
  by (auto intro!: settling_rules settling_complete_command completes_plain dest!: keeps_asset_commands)
    (rule claims_cong [OF assms], simp)+

lemma record_location_settling:
  assumes ok: "operation_ok E ctx (rl_binding q) BLOB_LOCATION_RECORD_V1 (rl_operation_at q)"
    and fresh: "replay_existing E ctx (rl_binding q) ''LOCATION'' db = Ok None"
  shows "settling E ctx (rl_binding q) ''LOCATION'' db (record_location_transaction E ctx q db)"
proof -
  note start = claims_at [OF ok asset_operation_kinds(2) fresh]
  show ?thesis
    unfolding record_location_transaction_def unless_replayed_def Let_def fresh and_then_simps option.case
    by (auto intro!: settling_rules record_location_rows_settling dest!: keeps_asset_commands
        split: option.splits sum.splits)
      ((rule start, assumption, simp) | simp)+
qed

lemma create_revision_deferred_settling:
  assumes ok: "request_ok E ctx (dcr_binding q) ASSET_REVISION_CREATE_V1 (dcr_values q)"
    and fresh: "replay_existing E ctx (dcr_binding q) ''ASSET_REVISION'' db = Ok None"
  shows "settling E ctx (dcr_binding q) ''ASSET_REVISION'' db (create_revision_deferred E ctx q db)"
proof -
  note start = claims_start [OF ok fresh asset_operation_kinds(1)]
  have inner: "settling E ctx (dcr_binding q) ''ASSET_REVISION'' db (create_revision_inner E ctx command db)"
    if "sampled_at (dcr_values q) = Ok (car_operation_at command)" "car_binding command = dcr_binding q" for command
    using create_revision_inner_settling [of E ctx command db] ok fresh that
    by (simp add: operation_ok_def request_ok_def sampled_at_def and_then_ok_iff)
  show ?thesis
    unfolding create_revision_deferred_def unless_replayed_def Let_def fresh and_then_simps option.case
    by (auto intro!: settling_rules inner split: option.splits sum.splits prod.splits asset_error.splits
        simp add: create_asset_revision_command_new_def and_then_ok_iff)
      ((rule start, assumption, assumption, simp) | simp)+
qed

lemma change_asset_lifecycle_deferred_settling:
  assumes ok: "request_ok E ctx (dal_binding q) (binding_operation_id (dal_binding q)) (dal_values q)"
    and fresh: "replay_existing E ctx (dal_binding q) ''ASSET_LIFECYCLE'' db = Ok None"
  shows "settling E ctx (dal_binding q) ''ASSET_LIFECYCLE'' db (change_asset_lifecycle_deferred E ctx q db)"
proof -
  have inner: "settling E ctx (dal_binding q) ''ASSET_LIFECYCLE'' db (change_asset_lifecycle E ctx command db)"
    if "sampled_at (dal_values q) = Ok (alc_operation_at command)" "alc_binding command = dal_binding q"
      "lifecycle_operation_ok (dal_binding q) (alc_target command)" for command
    using change_asset_lifecycle_settling [of E ctx command db] ok fresh that
    by (simp add: lifecycle_ok_def request_ok_def sampled_at_def and_then_ok_iff)
  show ?thesis
    unfolding change_asset_lifecycle_deferred_def unless_replayed_def Let_def fresh and_then_simps option.case
    by (auto intro!: settling_rules inner simp add: asset_lifecycle_command_new_def split: if_splits)
qed

section \<open>The contract of every operation\<close>

interpretation revision_creation: pure_command E ctx "car_binding q" "''ASSET_REVISION''"
    "operation_ok E ctx (car_binding q) ASSET_REVISION_CREATE_V1 (car_operation_at q)"
    "create_revision_inner E ctx q" for E ctx q
  by unfold_locales
    (auto simp add: create_revision_inner_def Let_def intro: settlingD [OF create_revision_inner_settling])

interpretation deferred_revision_creation: pure_command E ctx "dcr_binding q" "''ASSET_REVISION''"
    "request_ok E ctx (dcr_binding q) ASSET_REVISION_CREATE_V1 (dcr_values q)"
    "create_revision_deferred E ctx q" for E ctx q
  by unfold_locales
    (auto simp add: create_revision_deferred_def Let_def intro: settlingD [OF create_revision_deferred_settling])

interpretation lifecycle_change: pure_command E ctx "alc_binding q" "''ASSET_LIFECYCLE''"
    "lifecycle_ok E ctx (alc_binding q) (alc_target q) (alc_operation_at q)"
    "change_asset_lifecycle E ctx q" for E ctx q
  by unfold_locales
    (auto simp add: change_asset_lifecycle_def Let_def intro: settlingD [OF change_asset_lifecycle_settling])

interpretation deferred_lifecycle_change: pure_command E ctx "dal_binding q" "''ASSET_LIFECYCLE''"
    "request_ok E ctx (dal_binding q) (binding_operation_id (dal_binding q)) (dal_values q)"
    "change_asset_lifecycle_deferred E ctx q" for E ctx q
  by unfold_locales
    (auto simp add: change_asset_lifecycle_deferred_def Let_def
      intro: settlingD [OF change_asset_lifecycle_deferred_settling])

interpretation location_recording: pure_command E ctx "rl_binding q" "''LOCATION''"
    "operation_ok E ctx (rl_binding q) BLOB_LOCATION_RECORD_V1 (rl_operation_at q)"
    "record_location_transaction E ctx q" for E ctx q
  by unfold_locales
    (auto simp add: record_location_transaction_def Let_def intro: settlingD [OF record_location_settling])

section \<open>Lifecycle changes and revisions\<close>

text \<open>A lifecycle change counts as a revision of the asset, but adds no row to its revisions.\<close>

lemma find_both: "find p xs = Some x \<Longrightarrow> q x \<Longrightarrow> find (\<lambda>x. p x \<and> q x) xs = Some x"
  by (induction xs) (auto split: if_splits)

lemma or_exhausted_applied:
  "or_exhausted b at db m k = Ok (Applied r, db') \<Longrightarrow> \<exists>x. m = Ok x \<and> k x = Ok (Applied r, db')"
  by (auto simp add: or_exhausted_def commit_rejection_def Let_def split: sum.splits if_splits prod.splits)

lemma commit_rejection_not_applied: "commit_rejection b c at db \<noteq> Ok (Applied r, db')"
  by (simp add: commit_rejection_def split: prod.splits)

lemma unless_replayed_applied:
  "unless_replayed E ctx b kind db m = Ok (Applied r, db') \<Longrightarrow> m = Ok (Applied r, db')"
  by (auto simp add: unless_replayed_def replay_existing_def replay_pure_def and_then_ok_iff
      split: option.splits if_splits)

lemma complete_command_tables:
  "complete_command E b f expected db = Ok (out, db') \<Longrightarrow>
    assets db' = assets db \<and> asset_revisions db' = asset_revisions db"
  by (auto simp add: complete_command_def update_command_def and_then_ok_iff Let_def split: if_splits)

lemma claim_tables: "insert_claim ctx b at db = Ok db' \<Longrightarrow> assets db' = assets db \<and> asset_revisions db' = asset_revisions db"
  by (auto simp add: insert_claim_def and_then_ok_iff)

lemma event_tables:
  "allocate_event_sequences n db = Ok (s, db') \<Longrightarrow> assets db' = assets db \<and> asset_revisions db' = asset_revisions db"
  "insert_domain_event i s b et k a r at db = Ok db1 \<Longrightarrow>
    assets db1 = assets db \<and> asset_revisions db1 = asset_revisions db"
  by (auto simp add: allocate_event_sequences_def insert_domain_event_def insert_event_def and_then_ok_iff
      split: if_splits)

lemma change_lifecycle_rows_tables:
  assumes "change_lifecycle_rows E q r n sequence db = Ok (out, db')"
  shows "assets db' = update_rows (\<lambda>a. as_id a = alc_asset_id q \<and> as_revision a = revision_bytes r)
       (\<lambda>a. a\<lparr>as_lifecycle := lifecycle_text (alc_target q), as_revision := revision_bytes n,
          as_updated_at := Some (stamp (alc_operation_at q))\<rparr>) (assets db)"
    "asset_revisions db' = asset_revisions db"
  using assms unfolding change_lifecycle_rows_def Let_def update_assets_def
  by (auto simp add: and_then_ok_iff split: if_splits dest!: complete_command_tables event_tables(2))

lemma lifecycle_applied_run:
  assumes "change_asset_lifecycle E ctx q db = Ok (Applied r, db')"
  obtains db1 a n m s db2 where "insert_claim ctx (alc_binding q) (alc_operation_at q) db = Ok db1"
    "find (\<lambda>a. as_id a = alc_asset_id q) (assets db1) = Some a" "parse_revision (as_revision a) = Ok n"
    "checked_add n 1 = Some m" "allocate_event_sequences 1 db1 = Ok (s, db2)"
    "change_lifecycle_rows E q n m s db2 = Ok (Applied r, db')"
  using unless_replayed_applied [OF assms [unfolded change_asset_lifecycle_def Let_def]]
  by (auto simp add: and_then_ok_iff commit_rejection_not_applied
      split: option.splits if_splits dest!: or_exhausted_applied)

lemma lifecycle_applied:
  assumes "change_asset_lifecycle E ctx q db = Ok (Applied r, db')"
  obtains a n where "find (\<lambda>a. as_id a = alc_asset_id q) (assets db) = Some a"
    "parse_revision (as_revision a) = Ok n" "checked_add n 1 = Some (n + 1)"
    "find (\<lambda>a. as_id a = alc_asset_id q) (assets db') =
      Some (a\<lparr>as_lifecycle := lifecycle_text (alc_target q), as_revision := revision_bytes (n + 1),
        as_updated_at := Some (stamp (alc_operation_at q))\<rparr>)"
    "asset_revisions db' = asset_revisions db"
proof -
  obtain db1 a n m s db2 where run: "insert_claim ctx (alc_binding q) (alc_operation_at q) db = Ok db1"
    and a: "find (\<lambda>a. as_id a = alc_asset_id q) (assets db1) = Some a" "parse_revision (as_revision a) = Ok n"
      "checked_add n 1 = Some m"
    and seq: "allocate_event_sequences 1 db1 = Ok (s, db2)"
    and rows: "change_lifecycle_rows E q n m s db2 = Ok (Applied r, db')"
    using lifecycle_applied_run [OF assms] .
  have m: "m = n + 1" using a(3) by (simp add: checked_add_def split: if_splits)
  have same: "assets db2 = assets db" "asset_revisions db2 = asset_revisions db" "assets db1 = assets db"
    using claim_tables [OF run] event_tables(1) [OF seq] by simp_all
  have "find (\<lambda>a. as_id a = alc_asset_id q) (assets db') =
      Some (a\<lparr>as_lifecycle := lifecycle_text (alc_target q), as_revision := revision_bytes (n + 1),
        as_updated_at := Some (stamp (alc_operation_at q))\<rparr>)"
    using a(1) revision_bytes_parse [OF a(2)] find_row [OF a(1)] same m
    unfolding change_lifecycle_rows_tables(1) [OF rows] by (simp add: find_update_rows)
  with that a same change_lifecycle_rows_tables(2) [OF rows] m show thesis by simp
qed

text \<open>The number of revisions of an asset and its revision number agree after registration and
  after every new revision.\<close>

definition in_step :: "database \<Rightarrow> uuid \<Rightarrow> bool" where
  "in_step db i =
    (case find (\<lambda>a. as_id a = i) (assets db) of
       None \<Rightarrow> False
     | Some a \<Rightarrow> (case parse_revision (as_revision a) of
         Inl _ \<Rightarrow> False
       | Inr n \<Rightarrow> Option.bind (max_sequence db i) u64_try_from = Some n))"

lemma create_revision_out_of_step:
  assumes "read_command db (car_binding q) = None" "new_resulting_revision (car_revision q) \<noteq> 0"
    and "find (\<lambda>a. as_id a = new_asset_id (car_revision q)) (assets db) = Some a" "as_lifecycle a = ''ACTIVE''"
    and "parse_revision (as_revision a) = Ok n"
    and "Option.bind (max_sequence db (new_asset_id (car_revision q))) u64_try_from \<noteq> Some n"
  shows "create_revision_inner E ctx q db = Err Store_StorageCorruption"
proof -
  let ?i = "new_asset_id (car_revision q)"
  have "find (\<lambda>a. as_id a = ?i \<and> as_lifecycle a = ''ACTIVE'') (assets db) = Some a"
    using find_both [OF assms(3), of "\<lambda>a. as_lifecycle a = ''ACTIVE''"] assms(4) by simp
  moreover have "as_id a = ?i" using find_row [OF assms(3)] by simp
  moreover have "max_sequence (db\<lparr>commands := rows\<rparr>) ?i = max_sequence db ?i" for rows
    by (simp add: max_sequence_def)
  ultimately show ?thesis
    using assms insert_claim_fresh [OF assms(1), of ctx "car_operation_at q"]
    by (cases "Option.bind (max_sequence db ?i) u64_try_from")
      (simp_all add: create_revision_inner_def unless_replayed_def replay_existing_def Let_def)
qed

end
