(* ===== verification/Asset_Ledger.thy ===== *)
theory Asset_Ledger
  imports Asset_Store Creative_Ledger
begin

text \<open>
  What the asset commands guarantee of the journal and the event log, when a lifecycle change
  goes through, and what it does to later revisions of the asset.
\<close>

section \<open>The event log\<close>

lemma complete_command_log:
  "complete_command E b f expected db = Ok (out, db') \<Longrightarrow> event_log db' = event_log db"
  by (auto simp add: complete_command_def update_command_def event_log_def and_then_ok_iff Let_def split: if_splits)

lemma logging_complete_command:
  "appends_events b db db1 \<Longrightarrow> logging b db (complete_command E b f expected db1)"
  by (auto simp add: logging_def appends_events_def dest!: complete_command_log)

lemma asset_table_log:
  "update_assets hit f db = (n, db0) \<Longrightarrow> event_log db0 = event_log db"
  "insert_asset_revision r1 db = Ok db1 \<Longrightarrow> event_log db1 = event_log db"
  "insert_asset_parent r2 db = Ok db2 \<Longrightarrow> event_log db2 = event_log db"
  "insert_representation r3 db = Ok db3 \<Longrightarrow> event_log db3 = event_log db"
  "insert_resource r4 db = Ok db4 \<Longrightarrow> event_log db4 = event_log db"
  "insert_resource_member r5 db = Ok db5 \<Longrightarrow> event_log db5 = event_log db"
  "insert_location r6 db = Ok db6 \<Longrightarrow> event_log db6 = event_log db"
  "insert_provenance r7 db = Ok db7 \<Longrightarrow> event_log db7 = event_log db"
  by (auto simp add: update_assets_def insert_asset_revision_def insert_asset_parent_def event_log_def
      insert_representation_def insert_resource_def insert_resource_member_def insert_location_def
      insert_provenance_def and_then_ok_iff split: if_splits)

lemma blobs_log: "event_log (db\<lparr>blobs := rows\<rparr>) = event_log db"
  by (simp add: event_log_def)

lemma insert_parents_log: "insert_parents a c n ps db = Ok db' \<Longrightarrow> event_log db' = event_log db"
  by (induction ps arbitrary: n db) (auto simp add: and_then_ok_iff dest!: asset_table_log)

lemma insert_members_log: "insert_members i n ms db = Ok db' \<Longrightarrow> event_log db' = event_log db"
  by (induction ms arbitrary: n db) (auto simp add: and_then_ok_iff dest!: asset_table_log)

lemma insert_resources_log: "insert_resources i rs db = Ok db' \<Longrightarrow> event_log db' = event_log db"
  by (induction rs arbitrary: db) (auto simp add: and_then_ok_iff dest!: asset_table_log insert_members_log)

lemma insert_representations_log: "insert_representations i rs db = Ok db' \<Longrightarrow> event_log db' = event_log db"
  by (induction rs arbitrary: db) (auto simp add: and_then_ok_iff dest!: asset_table_log insert_resources_log)

lemmas keeps_asset_log = keeps_log asset_table_log insert_parents_log insert_representations_log

lemma asset_rows_logging:
  assumes "event_log db1 = (fst (event_log db), snd (event_log db) + 1)" "s = snd (event_log db) + 1"
  shows "logging (car_binding q1) db (create_revision_rows E q1 expected s db1)"
    "logging (alc_binding q2) db (change_lifecycle_rows E q2 r n s db1)"
    "logging (rl_binding q3) db (record_location_rows E q3 n s db1)"
  unfolding create_revision_rows_def change_lifecycle_rows_def record_location_rows_def Let_def
  using assms
  by (auto simp add: appends_iff blobs_log intro!: logging_rules logging_complete_command
      dest!: keeps_asset_log split: prod.splits)

lemma asset_logging:
  "logging (car_binding q1) db (create_revision_inner E ctx q1 db)"
  "logging (alc_binding q2) db (change_asset_lifecycle E ctx q2 db)"
  "logging (rl_binding q3) db (record_location_transaction E ctx q3 db)"
  unfolding create_revision_inner_def change_asset_lifecycle_def record_location_transaction_def Let_def
  by (auto intro!: logging_rules asset_rows_logging dest!: keeps_asset_log
      split: option.splits sum.splits prod.splits)

lemma deferred_logging:
  "logging (dcr_binding q1) db (create_revision_deferred E ctx q1 db)"
  "logging (dal_binding q2) db (change_asset_lifecycle_deferred E ctx q2 db)"
proof -
  have "logging (dcr_binding q1) db (create_revision_inner E ctx c db)" if "car_binding c = dcr_binding q1" for c
    using asset_logging(1) [of c] that by simp
  then show "logging (dcr_binding q1) db (create_revision_deferred E ctx q1 db)"
    unfolding create_revision_deferred_def create_asset_revision_command_new_def Let_def
    by (auto intro!: logging_rules dest!: keeps_asset_log simp add: and_then_ok_iff
        split: option.splits sum.splits prod.splits asset_error.splits)
  have "logging (dal_binding q2) db (change_asset_lifecycle E ctx c db)" if "alc_binding c = dal_binding q2" for c
    using asset_logging(2) [of c] that by simp
  then show "logging (dal_binding q2) db (change_asset_lifecycle_deferred E ctx q2 db)"
    unfolding change_asset_lifecycle_deferred_def asset_lifecycle_command_new_def
    by (auto intro!: logging_rules split: if_splits)
qed

interpretation revision_creation_log: logged_command E ctx "car_binding q" "''ASSET_REVISION''"
    "operation_ok E ctx (car_binding q) ASSET_REVISION_CREATE_V1 (car_operation_at q)"
    "create_revision_inner E ctx q" for E ctx q
  by unfold_locales (rule asset_logging)

interpretation deferred_revision_creation_log: logged_command E ctx "dcr_binding q" "''ASSET_REVISION''"
    "request_ok E ctx (dcr_binding q) ASSET_REVISION_CREATE_V1 (dcr_values q)"
    "create_revision_deferred E ctx q" for E ctx q
  by unfold_locales (rule deferred_logging)

interpretation lifecycle_change_log: logged_command E ctx "alc_binding q" "''ASSET_LIFECYCLE''"
    "lifecycle_ok E ctx (alc_binding q) (alc_target q) (alc_operation_at q)"
    "change_asset_lifecycle E ctx q" for E ctx q
  by unfold_locales (rule asset_logging)

interpretation deferred_lifecycle_change_log: logged_command E ctx "dal_binding q" "''ASSET_LIFECYCLE''"
    "request_ok E ctx (dal_binding q) (binding_operation_id (dal_binding q)) (dal_values q)"
    "change_asset_lifecycle_deferred E ctx q" for E ctx q
  by unfold_locales (rule deferred_logging)

interpretation location_recording_log: logged_command E ctx "rl_binding q" "''LOCATION''"
    "operation_ok E ctx (rl_binding q) BLOB_LOCATION_RECORD_V1 (rl_operation_at q)"
    "record_location_transaction E ctx q" for E ctx q
  by unfold_locales (rule asset_logging)

section \<open>Lifecycle changes that go through\<close>

lemma complete_command_fresh:
  assumes "read_command db b = None" "commands db1 = commands db @ [claimed_row ctx b at]"
    and "cmd_id (f (claimed_row ctx b at)) = binding_command_id b"
    and "validate_command_row E (f (claimed_row ctx b at)) = Ok (f (claimed_row ctx b at))"
    and "replay_result E (db1\<lparr>commands := commands db @ [f (claimed_row ctx b at)]\<rparr>) (f (claimed_row ctx b at)) = Ok r"
    and "expected r"
  shows "complete_command E b f expected db1 = Ok (Applied r, db1\<lparr>commands := commands db @ [f (claimed_row ctx b at)]\<rparr>)"
proof -
  let ?row = "f (claimed_row ctx b at)"
  have "binding_command_id b \<notin> cmd_id ` set (commands db)"
    using assms(1) by (simp add: read_command_None)
  from update_command_fresh [OF this _ assms(2), of "\<lambda>row. cmd_state row = ''CLAIMED''" f]
  have "update_command (\<lambda>row. cmd_id row = binding_command_id b \<and> cmd_state row = ''CLAIMED'')
      f db1 = (1, db1\<lparr>commands := commands db @ [?row]\<rparr>)"
    by (simp add: claimed_row_def)
  moreover have "read_command (db1\<lparr>commands := commands db @ [?row]\<rparr>) b = Some ?row"
    using assms(1,3) by (intro read_command_append) simp_all
  ultimately show ?thesis using assms(4-6) by (simp add: complete_command_def)
qed

definition lifecycle_ready :: "store_env \<Rightarrow> asset_lifecycle_command \<Rightarrow> asset_row \<Rightarrow> database \<Rightarrow> bool" where
  "lifecycle_ready E q a db =
    (let n = alc_expected_revision q in
     read_command db (alc_binding q) = None \<and> last_sequence db < EVENT_SEQUENCE_MAX
     \<and> find (\<lambda>a. as_id a = alc_asset_id q) (assets db) = Some a \<and> as_revision a = revision_bytes n
     \<and> count_rows (\<lambda>a. as_id a = alc_asset_id q \<and> as_revision a = revision_bytes n) (assets db) = 1
     \<and> (as_lifecycle a = ''ACTIVE'' \<and> alc_target q = Retired \<or> as_lifecycle a = ''RETIRED'' \<and> alc_target q = Active)
     \<and> checked_add n 1 \<noteq> None \<and> id_wf (env_uuid E) (alc_asset_id q)
     \<and> alc_domain_event_id q \<notin> ev_id ` set (domain_events db))"

definition lifecycle_after :: "store_env \<Rightarrow> store_context \<Rightarrow> asset_lifecycle_command \<Rightarrow> database \<Rightarrow> database" where
  "lifecycle_after E ctx q db =
    (let b = alc_binding q; at = alc_operation_at q; n = alc_expected_revision q; i = alc_asset_id q;
         target = alc_target q in
     db\<lparr>last_sequence := last_sequence db + 1,
       assets := update_rows (\<lambda>a. as_id a = i \<and> as_revision a = revision_bytes n)
         (\<lambda>a. a\<lparr>as_lifecycle := lifecycle_text target, as_revision := revision_bytes (n + 1),
            as_updated_at := Some (stamp at)\<rparr>) (assets db),
       domain_events := domain_events db @ [\<lparr>ev_id = alc_domain_event_id q,
         ev_commit_sequence = last_sequence db + 1, ev_command_id = binding_command_id b,
         ev_type = (if target = Retired then ''asset.retired.v1'' else ''asset.restored.v1''),
         ev_aggregate_kind = ''ASSET'', ev_aggregate_id = i, ev_aggregate_revision = revision_bytes (n + 1),
         ev_payload = None, ev_payload_sha256 = None, ev_occurred_at = stamp at\<rparr>],
       commands := commands db @ [complete_row E i (AssetLifecyclePayload (n + 1) target) at (claimed_row ctx b at)]\<rparr>)"

lemma lifecycle_operation:
  assumes "lifecycle_ok E ctx b target at"
  shows "binding_operation_id b \<notin> set creative_operations"
    "binding_operation_id b = ASSET_RETIRE_V1 \<or> binding_operation_id b = ASSET_RESTORE_V1"
    "lifecycle_event_type (binding_operation_id b) =
      (if target = Retired then ''asset.retired.v1'' else ''asset.restored.v1'')"
  using assms
  by (auto simp add: lifecycle_ok_def lifecycle_operation_ok_def creative_operations_def lifecycle_event_type_def
      operation_ids)

lemma lifecycle_replays:
  assumes ok: "lifecycle_ok E ctx (alc_binding q) (alc_target q) (alc_operation_at q)"
    and wf: "ledger_wf E db" and ready: "lifecycle_ready E q a db"
  shows "replay_result E (lifecycle_after E ctx q db)
    (complete_row E (alc_asset_id q) (AssetLifecyclePayload (alc_expected_revision q + 1) (alc_target q))
      (alc_operation_at q) (claimed_row ctx (alc_binding q) (alc_operation_at q))) =
    Ok (VersionedResult (alc_asset_id q) (AssetLifecyclePayload (alc_expected_revision q + 1) (alc_target q))
      (alc_operation_at q))"
proof -
  let ?b = "alc_binding q" and ?n = "alc_expected_revision q" and ?i = "alc_asset_id q"
  let ?payload = "AssetLifecyclePayload (?n + 1) (alc_target q)"
  have fresh: "read_command db ?b = None" using ready by (simp add: lifecycle_ready_def Let_def)
  have "as_id a = ?i" using ready find_row by (fastforce simp add: lifecycle_ready_def Let_def)
  then have "find (\<lambda>a. as_id a = ?i) (assets (lifecycle_after E ctx q db)) =
      Some (a\<lparr>as_lifecycle := lifecycle_text (alc_target q), as_revision := revision_bytes (?n + 1),
        as_updated_at := Some (stamp (alc_operation_at q))\<rparr>)"
    using ready by (simp add: lifecycle_after_def lifecycle_ready_def Let_def find_update_rows)
  moreover have "count_rows (\<lambda>e. ev_command_id e = binding_command_id ?b \<and> R e) (domain_events db) = 0" for R
    using ledger_foreign_events [OF wf fresh] by (simp add: count_rows_0_iff)
  moreover have "result_payload_decode (env_uuid E) ''ASSET_LIFECYCLE'' (payload_encode ?payload) = Ok ?payload"
    using result_codec.decode_ok_iff [of "env_uuid E" "''ASSET_LIFECYCLE''" "payload_encode ?payload" ?payload] by simp
  moreover have "persisted_timestamp E (stamp (alc_operation_at q)) = Ok (alc_operation_at q)"
    using ok by (simp add: lifecycle_ok_def clock_ok_stamp)
  ultimately show ?thesis
    using lifecycle_operation [OF ok] ready \<open>as_id a = ?i\<close>
    by (simp add: replay_result_def replay_lifecycle_def complete_row_def claimed_row_def id_bytes_def id_wf_def
        lifecycle_ready_def Let_def del: payload_encode.simps)
      (simp add: lifecycle_after_def Let_def)
qed

lemma lifecycle_after_commands:
  "commands (lifecycle_after E ctx q db) =
    commands db @ [complete_row E (alc_asset_id q) (AssetLifecyclePayload (alc_expected_revision q + 1) (alc_target q))
      (alc_operation_at q) (claimed_row ctx (alc_binding q) (alc_operation_at q))]"
  by (simp add: lifecycle_after_def Let_def)

lemma lifecycle_run:
  assumes ready: "lifecycle_ready E q a db"
    and "\<not> list_ex (\<lambda>r. ev_id r = alc_domain_event_id q \<or> ev_commit_sequence r = last_sequence db + 1) (domain_events db)"
    and "checked_add (alc_expected_revision q) 1 = Some (alc_expected_revision q + 1)"
  obtains db1 where "change_asset_lifecycle E ctx q db =
      complete_command E (alc_binding q) (complete_row E (alc_asset_id q)
        (AssetLifecyclePayload (alc_expected_revision q + 1) (alc_target q)) (alc_operation_at q)) (\<lambda>_. True) db1"
    "commands db1 = commands db @ [claimed_row ctx (alc_binding q) (alc_operation_at q)]"
    "db1\<lparr>commands := commands (lifecycle_after E ctx q db)\<rparr> = lifecycle_after E ctx q db"
proof
  let ?db1 = "(lifecycle_after E ctx q db)\<lparr>commands := commands db @ [claimed_row ctx (alc_binding q) (alc_operation_at q)]\<rparr>"
  show "change_asset_lifecycle E ctx q db =
      complete_command E (alc_binding q) (complete_row E (alc_asset_id q)
        (AssetLifecyclePayload (alc_expected_revision q + 1) (alc_target q)) (alc_operation_at q)) (\<lambda>_. True) ?db1"
    using assms
    by (cases db)
      (auto simp add: change_asset_lifecycle_def change_lifecycle_rows_def unless_replayed_def replay_existing_def
        insert_claim_fresh Let_def lifecycle_ready_def or_exhausted_def allocate_event_sequences_def
        update_assets_def insert_domain_event_def insert_event_def insert_row_def lifecycle_after_def)
qed simp_all

lemma change_asset_lifecycle_applies:
  assumes ok: "lifecycle_ok E ctx (alc_binding q) (alc_target q) (alc_operation_at q)"
    and wf: "ledger_wf E db" and ready: "lifecycle_ready E q a db"
  shows "change_asset_lifecycle E ctx q db =
    Ok (Applied (VersionedResult (alc_asset_id q)
      (AssetLifecyclePayload (alc_expected_revision q + 1) (alc_target q)) (alc_operation_at q)),
      lifecycle_after E ctx q db)"
proof -
  let ?b = "alc_binding q" and ?at = "alc_operation_at q" and ?n = "alc_expected_revision q"
  let ?payload = "AssetLifecyclePayload (?n + 1) (alc_target q)" and ?i = "alc_asset_id q"
  let ?row = "complete_row E ?i ?payload ?at (claimed_row ctx ?b ?at)"
  let ?done = "lifecycle_after E ctx q db"
  have fresh: "read_command db ?b = None" using ready by (simp add: lifecycle_ready_def Let_def)
  have event: "\<not> list_ex (\<lambda>r. ev_id r = alc_domain_event_id q \<or> ev_commit_sequence r = last_sequence db + 1)
      (domain_events db)"
    using ready ledger_sequences [OF wf] by (force simp add: list_ex_iff lifecycle_ready_def Let_def)
  have next_revision: "checked_add ?n 1 = Some (?n + 1)"
    using ready by (auto simp add: lifecycle_ready_def Let_def checked_add_def split: if_splits)
  have "validate_command_row E ?row = Ok ?row"
    using ok asset_operation_kinds(3,4) ready
    by (intro completed_row_valid) (auto simp add: lifecycle_ok_def lifecycle_operation_ok_def lifecycle_ready_def Let_def)
  moreover have "replay_result E ?done ?row = Ok (VersionedResult ?i ?payload ?at)"
    using lifecycle_replays [OF ok wf ready] .
  moreover obtain db1 where run: "change_asset_lifecycle E ctx q db =
      complete_command E ?b (complete_row E ?i ?payload ?at) (\<lambda>_. True) db1"
    and db1: "commands db1 = commands db @ [claimed_row ctx ?b ?at]" "db1\<lparr>commands := commands ?done\<rparr> = ?done"
    using lifecycle_run [OF ready event next_revision] .
  ultimately show ?thesis
    unfolding run
    using complete_command_fresh [OF fresh db1(1), of "complete_row E ?i ?payload ?at" E
        "VersionedResult ?i ?payload ?at" "\<lambda>_. True"] db1(2)
    by (simp add: lifecycle_after_commands) (simp add: complete_row_def claimed_row_def)
qed

text \<open>C39. Retiring an asset and restoring it makes every later revision of it fail: the two
  changes advance the revision number of the asset but not the sequence of its revisions, and
  creating a revision then reports the library as corrupt, which the writer treats as fatal.\<close>

theorem restored_asset_blocked:
  assumes retire: "change_asset_lifecycle E ctx q1 db = Ok (Applied r1, db1)"
    and restore: "change_asset_lifecycle E ctx q2 db1 = Ok (Applied r2, db2)"
    and same: "alc_asset_id q1 = i" "alc_asset_id q2 = i" "new_asset_id (car_revision q) = i"
    and "alc_target q2 = Active" "in_step db i"
    and "read_command db2 (car_binding q) = None" "new_resulting_revision (car_revision q) \<noteq> 0"
  shows "create_revision_inner E ctx q db2 = Err Store_StorageCorruption"
proof -
  obtain a n where a: "find (\<lambda>a. as_id a = i) (assets db) = Some a" "parse_revision (as_revision a) = Ok n"
      "find (\<lambda>a. as_id a = i) (assets db1) = Some (a\<lparr>as_lifecycle := lifecycle_text (alc_target q1),
        as_revision := revision_bytes (n + 1), as_updated_at := Some (stamp (alc_operation_at q1))\<rparr>)"
      "asset_revisions db1 = asset_revisions db"
    using lifecycle_applied [OF retire, unfolded same(1)] by blast
  obtain a1 n1 where a1: "find (\<lambda>a. as_id a = i) (assets db1) = Some a1" "parse_revision (as_revision a1) = Ok n1"
      "find (\<lambda>a. as_id a = i) (assets db2) = Some (a1\<lparr>as_lifecycle := lifecycle_text (alc_target q2),
        as_revision := revision_bytes (n1 + 1), as_updated_at := Some (stamp (alc_operation_at q2))\<rparr>)"
      "asset_revisions db2 = asset_revisions db1"
    using lifecycle_applied [OF restore, unfolded same(2)] by blast
  have n1: "n1 + 1 = n + 2" using a1(1,2) a(3) by (auto simp add: add.assoc)
  obtain a' where a': "find (\<lambda>a. as_id a = i) (assets db2) = Some a'" "as_lifecycle a' = ''ACTIVE''"
      "parse_revision (as_revision a') = Ok (n + 2)" "asset_revisions db2 = asset_revisions db1"
    using a1(3,4) assms(6) by (simp add: n1)
  have "Option.bind (max_sequence db i) u64_try_from = Some n"
    using assms(7) a(1,2) by (simp add: in_step_def)
  moreover have "max_sequence db2 i = max_sequence db i" using a(4) a'(4) by (simp add: max_sequence_def)
  moreover have "n \<noteq> n + 2" by simp
  ultimately have "Option.bind (max_sequence db2 i) u64_try_from \<noteq> Some (n + 2)" by (simp del: add_cancel_right_right)
  then show ?thesis
    using create_revision_out_of_step [OF assms(8,9), of a' "n + 2" E ctx] a' same(3) by simp
qed

text \<open>An active asset with one revision, a request that retires it, one that restores it, and a
  request for its second revision.\<close>

definition sample_asset :: database where
  "sample_asset = empty_database\<lparr>
     assets := [\<lparr>as_id = sample_id 30, as_kind = ''image'', as_lifecycle = ''ACTIVE'', as_revision = revision_bytes 1,
       as_created_at = stamp sample_at, as_updated_at = None\<rparr>],
     asset_revisions := [\<lparr>ar_id = sample_id 31, ar_asset_id = sample_id 30, ar_sequence = 1, ar_content_kind = ''image'',
       ar_created_at = stamp sample_at\<rparr>]\<rparr>"

definition sample_retire :: asset_lifecycle_command where
  "sample_retire = \<lparr>alc_binding = sample_command 2 ASSET_RETIRE_V1, alc_asset_id = sample_id 30,
     alc_expected_revision = 1, alc_target = Retired, alc_domain_event_id = sample_id 40, alc_operation_at = sample_at\<rparr>"

definition sample_restore :: asset_lifecycle_command where
  "sample_restore = \<lparr>alc_binding = sample_command 3 ASSET_RESTORE_V1, alc_asset_id = sample_id 30,
     alc_expected_revision = 2, alc_target = Active, alc_domain_event_id = sample_id 41, alc_operation_at = sample_at\<rparr>"

definition sample_revision :: create_asset_revision_command where
  "sample_revision = \<lparr>car_binding = sample_command 4 ASSET_REVISION_CREATE_V1,
     car_revision = \<lparr>new_asset_id = sample_id 30, new_revision_id = sample_id 32, new_parent_revision_ids = [sample_id 31],
       new_content_kind = ''image'', new_representations = [], new_resulting_revision = 4, new_created_at = sample_at\<rparr>,
     car_domain_event_id = sample_id 42, car_provenance_event_id = sample_id 43, car_operation_at = sample_at\<rparr>"

definition sample_retired :: database where
  "sample_retired = lifecycle_after sample_env sample_ctx sample_retire sample_asset"

definition sample_restored :: database where
  "sample_restored = lifecycle_after sample_env sample_ctx sample_restore sample_retired"

lemma sample_lifecycle_ok:
  "lifecycle_ok sample_env sample_ctx (alc_binding sample_retire) (alc_target sample_retire) sample_at"
  "lifecycle_ok sample_env sample_ctx (alc_binding sample_restore) (alc_target sample_restore) sample_at"
  using sample_id_wf sample_clock_ok
  by (simp_all add: lifecycle_ok_def lifecycle_operation_ok_def binding_wf_def sample_retire_def sample_restore_def
      sample_command_def sample_ctx_def)

lemma sample_asset_wf: "ledger_wf sample_env sample_asset"
  using empty_wf by (simp add: sample_asset_def ledger_wf_def journal_wf_def gap_free_def events_journalled_def event_log_def)

lemma sample_retire_ready: "lifecycle_ready sample_env sample_retire (hd (assets sample_asset)) sample_asset"
  using sample_id_wf
  by (simp add: lifecycle_ready_def sample_retire_def sample_asset_def empty_database_def read_command_def
      EVENT_SEQUENCE_MAX_def checked_add_def Let_def)

lemma sample_retires:
  "change_asset_lifecycle sample_env sample_ctx sample_retire sample_asset =
    Ok (Applied (VersionedResult (sample_id 30) (AssetLifecyclePayload 2 Retired) sample_at), sample_retired)"
  using change_asset_lifecycle_applies [OF _ sample_asset_wf sample_retire_ready] sample_lifecycle_ok(1)
  by (simp add: sample_retired_def sample_retire_def)

lemma sample_retired_wf: "ledger_wf sample_env sample_retired"
  using lifecycle_change_log.run_ledger [OF _ sample_retires sample_asset_wf] sample_lifecycle_ok(1)
  by (simp add: sample_retire_def)

lemma sample_restore_ready: "lifecycle_ready sample_env sample_restore (hd (assets sample_retired)) sample_retired"
  using sample_id_wf
  by (simp add: lifecycle_ready_def sample_restore_def sample_retired_def lifecycle_after_def sample_retire_def
      sample_asset_def empty_database_def read_command_def EVENT_SEQUENCE_MAX_def checked_add_def Let_def
      complete_row_def claimed_row_def sample_command_def) (simp add: sample_id_def)

lemma sample_restores:
  "change_asset_lifecycle sample_env sample_ctx sample_restore sample_retired =
    Ok (Applied (VersionedResult (sample_id 30) (AssetLifecyclePayload 3 Active) sample_at), sample_restored)"
  using change_asset_lifecycle_applies [OF _ sample_retired_wf sample_restore_ready] sample_lifecycle_ok(2)
  by (simp add: sample_restored_def sample_restore_def)

theorem restored_asset_blocked_witness:
  "in_step sample_asset (sample_id 30) \<and> create_revision_inner sample_env sample_ctx sample_revision sample_restored =
    Err Store_StorageCorruption"
proof
  show step: "in_step sample_asset (sample_id 30)"
    by (simp add: in_step_def sample_asset_def max_sequence_def maximum_def u64_try_from_def)
  have "read_command sample_restored (car_binding sample_revision) = None"
    by (simp add: sample_restored_def sample_restore_def sample_retired_def lifecycle_after_def sample_retire_def
        sample_asset_def empty_database_def read_command_def sample_revision_def sample_command_def Let_def
        complete_row_def claimed_row_def) (simp add: sample_id_def)
  then show "create_revision_inner sample_env sample_ctx sample_revision sample_restored = Err Store_StorageCorruption"
    using restored_asset_blocked [OF sample_retires sample_restores, of "sample_id 30" sample_revision] step
    by (simp add: sample_retire_def sample_restore_def sample_revision_def)
qed

end
