(* ===== verification/External_Store.thy ===== *)
theory External_Store
  imports Asset_Ledger
begin

text \<open>
  The commands of \<open>crates/mengxia-store-sqlite/src/asset_repository.rs\<close> that span an effect
  outside the database: copying a file into the library (lines 1195-1509, with the request
  types at lines 373-621 of \<open>crates/mengxia-ports/src/lib.rs\<close>) and materializing a
  member of a resource (lines 958-1193).  Such a command is claimed in one transaction and
  settled in a later one; between the two the claim belongs to the runtime that made it.
\<close>

section \<open>Settling a claim\<close>

datatype external_claim_outcome =
    ExternalClaimed | ExternalInProgress | ExternalReplay command_result
  | ExternalTerminalRejected error_code | ExternalRecoveryRequired error_code

datatype external_disposition = DispositionRejected error_code | DispositionRecovery error_code

datatype disposition_outcome = Stored | DispositionReplay error_code

fun disposition_state :: "external_disposition \<Rightarrow> string" where
  "disposition_state (DispositionRejected _) = ''TERMINAL_REJECTED''"
| "disposition_state (DispositionRecovery _) = ''RECOVERY_REQUIRED''"

fun disposition_code :: "external_disposition \<Rightarrow> error_code" where
  "disposition_code (DispositionRejected c) = c"
| "disposition_code (DispositionRecovery c) = c"

definition dispose_row :: "string \<Rightarrow> error_code \<Rightarrow> timestamp \<Rightarrow> command_row \<Rightarrow> command_row" where
  "dispose_row st c at row = row\<lparr>cmd_state := st, cmd_safe_error_code := Some (error_code_as_str c),
     cmd_updated_at := stamp at\<rparr>"

text \<open>The row of a command that exists, is bound to the request and can be read.\<close>

definition bound_row ::
  "store_env \<Rightarrow> store_context \<Rightarrow> command_binding \<Rightarrow> database \<Rightarrow> asset_store_error + command_row" where
  "bound_row E ctx b db =
    and_then (ok_or Store_Conflict (read_command db b)) (\<lambda>row.
    and_then (ensure (binding_matches row b (owner_uid ctx)) Store_Conflict) (\<lambda>_.
      validate_command_row E row))"

definition owns_claim :: "store_context \<Rightarrow> command_row \<Rightarrow> bool" where
  "owns_claim ctx row = (cmd_state row = ''CLAIMED'' \<and> cmd_runtime_id row = context_runtime_id ctx)"

section \<open>Copying into the library\<close>

record external_ingest_claim =
  eic_binding :: command_binding
  eic_claimed_at :: timestamp

definition external_ingest_claim_new :: "external_ingest_claim \<Rightarrow> asset_store_error + external_ingest_claim" where
  "external_ingest_claim_new q =
    and_then (require_operation (eic_binding q) ASSET_INGEST_COPY_V1) (\<lambda>_. Ok q)"

record managed_registration_plan =
  plan_asset_id :: uuid
  plan_asset_kind :: string
  plan_asset_revision_id :: uuid
  plan_content_kind :: string
  plan_representation_id :: uuid
  plan_representation_purpose :: string
  plan_resource_id :: uuid
  plan_resource_kind :: string
  plan_logical_name :: utext
  plan_media_type :: "string option"
  plan_candidate_location_id :: uuid

record external_ingest_completion =
  eco_binding :: command_binding
  eco_durable_blob :: durable_blob
  eco_plan :: managed_registration_plan
  eco_domain_event_id :: uuid
  eco_provenance_event_id :: uuid
  eco_completed_at :: timestamp

definition external_ingest_completion_new ::
  "external_ingest_completion \<Rightarrow> asset_store_error + external_ingest_completion" where
  "external_ingest_completion_new q =
    and_then (require_operation (eco_binding q) ASSET_INGEST_COPY_V1) (\<lambda>_.
    let plan = eco_plan q in
    if has_repeat [plan_asset_id plan, plan_asset_revision_id plan, plan_representation_id plan,
        plan_resource_id plan, plan_candidate_location_id plan, eco_domain_event_id q, eco_provenance_event_id q]
    then Err Store_Validation else Ok q)"

record external_ingest_disposition =
  eid_binding :: command_binding
  eid_disposition :: external_disposition
  eid_observed_at :: timestamp

definition external_ingest_disposition_new ::
  "external_ingest_disposition \<Rightarrow> asset_store_error + external_ingest_disposition" where
  "external_ingest_disposition_new q =
    and_then (require_operation (eid_binding q) ASSET_INGEST_COPY_V1) (\<lambda>_.
    let accepted = (case eid_disposition q of
        DispositionRejected c \<Rightarrow> c \<in> set [ValidationError, SourceModifiedDuringIngest, StorageIoError,
          StorageCorruption, StorageConfigurationError, Backpressure, InternalError,
          IdGenerationUnavailable, DeadlineExceeded, OperationCancelled]
      | DispositionRecovery c \<Rightarrow> c \<in> set [StorageConfigurationError, StorageIoError,
          IdGenerationUnavailable, InternalError]) in
    if accepted then Ok q else Err Store_Validation)"

definition replay_external_result ::
  "store_env \<Rightarrow> database \<Rightarrow> command_row \<Rightarrow> asset_store_error + command_result" where
  "replay_external_result E db row =
    and_then (replay_result E db row) (\<lambda>r.
      case r of ManagedRegistrationResult _ _ _ _ _ _ \<Rightarrow> Ok r | _ \<Rightarrow> Err Store_StorageCorruption)"

definition external_existing ::
  "store_env \<Rightarrow> store_context \<Rightarrow> command_binding \<Rightarrow> command_row \<Rightarrow> timestamp \<Rightarrow> database \<Rightarrow>
    asset_store_error + (external_claim_outcome \<times> database)" where
  "external_existing E ctx b row at db =
    and_then (ensure (binding_matches row b (owner_uid ctx)) Store_Conflict) (\<lambda>_.
    and_then (validate_command_row E row) (\<lambda>row.
    if cmd_state row = ''CLAIMED'' then
      (if cmd_runtime_id row = context_runtime_id ctx then Ok (ExternalInProgress, db)
       else Ok (ExternalRecoveryRequired StorageConfigurationError,
         snd (update_command (\<lambda>r. cmd_id r = binding_command_id b \<and> cmd_state r = ''CLAIMED'')
           (dispose_row ''RECOVERY_REQUIRED'' StorageConfigurationError at) db)))
    else if cmd_state row = ''COMPLETED'' then
      and_then (replay_external_result E db row) (\<lambda>r. Ok (ExternalReplay r, db))
    else if cmd_state row = ''TERMINAL_REJECTED'' then
      and_then (parse_safe_code row) (\<lambda>c. Ok (ExternalTerminalRejected c, db))
    else if cmd_state row = ''RECOVERY_REQUIRED'' then
      and_then (parse_safe_code row) (\<lambda>c. Ok (ExternalRecoveryRequired c, db))
    else Err Store_StorageCorruption))"

definition claim_external ::
  "store_env \<Rightarrow> store_context \<Rightarrow> external_ingest_claim \<Rightarrow> database \<Rightarrow>
    asset_store_error + (external_claim_outcome \<times> database)" where
  "claim_external E ctx q db =
    (case read_command db (eic_binding q) of
       None \<Rightarrow> and_then (insert_claim ctx (eic_binding q) (eic_claimed_at q) db) (\<lambda>db. Ok (ExternalClaimed, db))
     | Some row \<Rightarrow> external_existing E ctx (eic_binding q) row (eic_claimed_at q) db)"

definition persist_blob ::
  "store_env \<Rightarrow> durable_blob \<Rightarrow> string option \<Rightarrow> timestamp \<Rightarrow> database \<Rightarrow> asset_store_error + database" where
  "persist_blob E blob media_type at db =
    (case find (\<lambda>b. bl_digest b = durable_digest blob) (blobs db) of
       Some b \<Rightarrow>
         and_then (blob_facts E (durable_byte_length blob) b) (\<lambda>media.
           if media \<noteq> media_type then Err Store_StorageCorruption else Ok db)
     | None \<Rightarrow>
         (if uint (durable_byte_length blob) > 9223372036854775807 then Err Store_Validation
          else and_then (insert_row (\<lambda>r r'. bl_digest r = bl_digest r')
            \<lparr>bl_digest = durable_digest blob, bl_byte_length = uint (durable_byte_length blob),
             bl_media_type = media_type, bl_lifecycle = ''AVAILABLE'', bl_revision = revision_bytes 1,
             bl_verified_at = stamp at\<rparr> (blobs db)) (\<lambda>rows. Ok (db\<lparr>blobs := rows\<rparr>))))"

definition persist_blob_and_location ::
  "store_env \<Rightarrow> durable_blob \<Rightarrow> uuid \<Rightarrow> string option \<Rightarrow> timestamp \<Rightarrow> database \<Rightarrow>
    asset_store_error + (bytes \<times> database)" where
  "persist_blob_and_location E blob candidate_location_id media_type at db =
    and_then (persist_blob E blob media_type at db) (\<lambda>db.
      case find_location blob db of
        Some l \<Rightarrow> and_then (location_facts E (durable_digest blob) l) (\<lambda>i. Ok (i, db))
      | None \<Rightarrow>
          and_then (insert_location (managed_location candidate_location_id blob at) db) (\<lambda>db.
            Ok (candidate_location_id, db)))"

definition insert_registration_graph ::
  "external_ingest_completion \<Rightarrow> database \<Rightarrow> asset_store_error + database" where
  "insert_registration_graph q db =
    (let plan = eco_plan q; at = stamp (eco_completed_at q) in
     and_then (insert_row (\<lambda>r r'. as_id r = as_id r')
       \<lparr>as_id = plan_asset_id plan, as_kind = plan_asset_kind plan, as_lifecycle = ''ACTIVE'',
        as_revision = revision_bytes 1, as_created_at = at, as_updated_at = None\<rparr> (assets db)) (\<lambda>rows.
     let db = db\<lparr>assets := rows\<rparr> in
     and_then (insert_asset_revision
       \<lparr>ar_id = plan_asset_revision_id plan, ar_asset_id = plan_asset_id plan, ar_sequence = 1,
        ar_content_kind = plan_content_kind plan, ar_created_at = at\<rparr> db) (\<lambda>db.
     and_then (insert_representation
       \<lparr>rp_id = plan_representation_id plan, rp_asset_revision_id = plan_asset_revision_id plan,
        rp_purpose = plan_representation_purpose plan\<rparr> db) (\<lambda>db.
     and_then (insert_resource
       \<lparr>rs_id = plan_resource_id plan, rs_representation_id = plan_representation_id plan,
        rs_kind = plan_resource_kind plan\<rparr> db) (\<lambda>db.
     insert_resource_member
       \<lparr>rm_resource_id = plan_resource_id plan, rm_ordinal = 0, rm_logical_name = plan_logical_name plan,
        rm_blob_digest = durable_digest (eco_durable_blob q)\<rparr> db)))))"

definition insert_registration_events ::
  "external_ingest_completion \<Rightarrow> int \<Rightarrow> database \<Rightarrow> asset_store_error + database" where
  "insert_registration_events q sequence db =
    (let plan = eco_plan q; at = eco_completed_at q; b = eco_binding q in
     and_then (insert_domain_event (eco_domain_event_id q) sequence b ''asset.registered.v1'' ''ASSET''
       (plan_asset_id plan) 1 at db)
       (insert_provenance
         \<lparr>pv_id = eco_provenance_event_id q, pv_command_id = binding_command_id b,
          pv_type = ''asset.ingested.copy.v1'', pv_asset_revision_id = plan_asset_revision_id plan,
          pv_blob_digest = Some (durable_digest (eco_durable_blob q)), pv_occurred_at = stamp at\<rparr>))"

definition registration_values :: "external_ingest_completion \<Rightarrow> register_managed_asset_values" where
  "registration_values q =
    (let plan = eco_plan q in
     \<lparr>reg_asset_id = plan_asset_id plan, reg_asset_kind = plan_asset_kind plan,
      reg_asset_revision_id = plan_asset_revision_id plan, reg_content_kind = plan_content_kind plan,
      reg_representation_id = plan_representation_id plan,
      reg_representation_purpose = plan_representation_purpose plan, reg_resource_id = plan_resource_id plan,
      reg_resource_kind = plan_resource_kind plan, reg_logical_name = plan_logical_name plan,
      reg_media_type = plan_media_type plan, reg_blob_digest = durable_digest (eco_durable_blob q),
      reg_created_at = eco_completed_at q\<rparr>)"

definition registered_row :: "uuid \<Rightarrow> bytes \<Rightarrow> timestamp \<Rightarrow> command_row \<Rightarrow> command_row" where
  "registered_row asset location at row =
    row\<lparr>cmd_state := ''COMPLETED'', cmd_result_kind := Some ''ASSET'', cmd_result_id := Some asset,
       cmd_result_location_id := Some location, cmd_safe_error_code := None, cmd_updated_at := stamp at\<rparr>"

text \<open>The writes that turn a claimed copy into a registered asset.\<close>

definition register_external ::
  "store_env \<Rightarrow> external_ingest_completion \<Rightarrow> database \<Rightarrow> asset_store_error + (mutation_outcome \<times> database)" where
  "register_external E q db =
    (let b = eco_binding q; plan = eco_plan q; at = eco_completed_at q in
     and_then (map_err (\<lambda>_. Store_Validation) (register_managed (registration_values q))) (\<lambda>_.
     and_then (persist_blob_and_location E (eco_durable_blob q) (plan_candidate_location_id plan)
       (plan_media_type plan) at db) (\<lambda>(location_id, db).
     and_then (insert_registration_graph q db) (\<lambda>db.
     and_then (allocate_event_sequences 1 db) (\<lambda>(sequence, db).
     and_then (insert_registration_events q sequence db) (\<lambda>db.
     complete_command E b (registered_row (plan_asset_id plan) location_id at)
       (\<lambda>r. case r of ManagedRegistrationResult _ _ _ _ _ _ \<Rightarrow> True | _ \<Rightarrow> False) db))))))"

definition complete_external ::
  "store_env \<Rightarrow> store_context \<Rightarrow> external_ingest_completion \<Rightarrow> database \<Rightarrow>
    asset_store_error + (mutation_outcome \<times> database)" where
  "complete_external E ctx q db =
    and_then (validate_descriptor (durable_backend_id (eco_durable_blob q)) 255) (\<lambda>_.
    and_then (validate_descriptor (durable_locator (eco_durable_blob q)) 1024) (\<lambda>_.
    and_then (bound_row E ctx (eco_binding q) db) (\<lambda>row.
    if cmd_state row = ''COMPLETED'' then
      and_then (replay_external_result E db row) (\<lambda>r. Ok (Replay r, db))
    else if cmd_state row = ''RECOVERY_REQUIRED'' then
      and_then (parse_safe_code row) (\<lambda>c. Ok (RecoveryRequired c, db))
    else if \<not> owns_claim ctx row then Err Store_Conflict
    else register_external E q db)))"

definition finish_external ::
  "store_env \<Rightarrow> store_context \<Rightarrow> external_ingest_disposition \<Rightarrow> database \<Rightarrow>
    asset_store_error + (disposition_outcome \<times> database)" where
  "finish_external E ctx q db =
    and_then (bound_row E ctx (eid_binding q) db) (\<lambda>row.
    let st = disposition_state (eid_disposition q); code = disposition_code (eid_disposition q) in
    if owns_claim ctx row then
      Ok (Stored, snd (update_command (\<lambda>r. cmd_id r = binding_command_id (eid_binding q) \<and> cmd_state r = ''CLAIMED'')
        (dispose_row st code (eid_observed_at q)) db))
    else if cmd_state row = st then
      and_then (parse_safe_code row) (\<lambda>c. if c = code then Ok (DispositionReplay code, db) else Err Store_Conflict)
    else Err Store_Conflict)"

section \<open>Materializing a member\<close>

record materialization_command =
  mc_binding :: command_binding
  mc_asset_id :: uuid
  mc_asset_revision_id :: uuid
  mc_representation_id :: uuid
  mc_resource_id :: uuid
  mc_member_ordinal :: u32

definition materialization_command_new ::
  "materialization_command \<Rightarrow> asset_store_error + materialization_command" where
  "materialization_command_new q =
    and_then (require_operation (mc_binding q) ASSET_MATERIALIZE_V1) (\<lambda>_.
      if mc_member_ordinal q > 4095 then Err Store_Validation else Ok q)"

record materialization_result =
  mr_command_id :: uuid
  mr_asset_revision_id :: uuid
  mr_representation_id :: uuid
  mr_resource_id :: uuid
  mr_member_ordinal :: u32
  mr_blob_digest :: sha256_digest
  mr_byte_length :: u64

definition materialization_result_from_store ::
  "materialization_result \<Rightarrow> asset_store_error + materialization_result" where
  "materialization_result_from_store r =
    (if mr_member_ordinal r > 4095 \<or> mr_byte_length r > 1099511627776 then Err Store_StorageCorruption
     else Ok r)"

datatype materialization_observation =
    MaterializationAbsent | MaterializationInProgress
  | RecoveryCandidate "error_code option" | MaterializationReplay materialization_result
  | MaterializationRejected error_code

record materialization_transition =
  mt_command :: materialization_command
  mt_at :: timestamp

record materialization_finish =
  mf_transition :: materialization_transition
  mf_disposition :: external_disposition

definition materialization_finish_new ::
  "materialization_finish \<Rightarrow> asset_store_error + materialization_finish" where
  "materialization_finish_new q =
    (let accepted = (case mf_disposition q of
        DispositionRejected c \<Rightarrow> c \<in> set [ValidationError, Conflict, StorageIoError,
          StorageCorruption, StorageConfigurationError, Backpressure, InternalError,
          IdGenerationUnavailable, DeadlineExceeded, OperationCancelled]
      | DispositionRecovery c \<Rightarrow> c \<in> set [StorageConfigurationError, StorageIoError,
          IdGenerationUnavailable, InternalError]) in
     if accepted then Ok q else Err Store_Validation)"

definition replay_materialization ::
  "database \<Rightarrow> command_row \<Rightarrow> materialization_command \<Rightarrow> asset_store_error + materialization_result" where
  "replay_materialization db row q =
    (if cmd_operation_id row \<noteq> ASSET_MATERIALIZE_V1 \<or> cmd_state row \<noteq> ''COMPLETED''
        \<or> cmd_result_kind row \<noteq> Some ''ASSET_REVISION'' \<or> cmd_result_id row \<noteq> Some (mc_asset_revision_id q)
        \<or> cmd_result_location_id row \<noteq> None
     then Err Store_StorageCorruption
     else and_then (ok_or Store_StorageCorruption (first_row
       [(rm_blob_digest rm, bl_byte_length b).
         a \<leftarrow> assets db, as_id a = mc_asset_id q,
         ar \<leftarrow> asset_revisions db, ar_asset_id ar = as_id a \<and> ar_id ar = mc_asset_revision_id q,
         rp \<leftarrow> representations db, rp_asset_revision_id rp = ar_id ar \<and> rp_id rp = mc_representation_id q,
         rs \<leftarrow> resources db, rs_representation_id rs = rp_id rp \<and> rs_id rs = mc_resource_id q,
         rm \<leftarrow> resource_members db, rm_resource_id rm = rs_id rs \<and> rm_ordinal rm = uint (mc_member_ordinal q),
         b \<leftarrow> blobs db, bl_digest b = rm_blob_digest rm \<and> bl_lifecycle b = ''AVAILABLE'']))
       (\<lambda>(digest, len).
       and_then (digest_of digest) (\<lambda>d.
       and_then (ok_or Store_StorageCorruption (u64_try_from len)) (\<lambda>n.
       materialization_result_from_store
         \<lparr>mr_command_id = binding_command_id (mc_binding q), mr_asset_revision_id = mc_asset_revision_id q,
          mr_representation_id = mc_representation_id q, mr_resource_id = mc_resource_id q,
          mr_member_ordinal = mc_member_ordinal q, mr_blob_digest = d, mr_byte_length = n\<rparr>))))"

definition observe_materialization ::
  "store_env \<Rightarrow> store_context \<Rightarrow> materialization_command \<Rightarrow> database \<Rightarrow>
    asset_store_error + materialization_observation" where
  "observe_materialization E ctx q db =
    (case read_command db (mc_binding q) of
       None \<Rightarrow> Ok MaterializationAbsent
     | Some row \<Rightarrow>
       and_then (ensure (binding_matches row (mc_binding q) (owner_uid ctx)) Store_Conflict) (\<lambda>_.
       and_then (validate_command_row E row) (\<lambda>row.
       if cmd_state row = ''CLAIMED'' then
         (if cmd_runtime_id row = context_runtime_id ctx then Ok MaterializationInProgress
          else Ok (RecoveryCandidate None))
       else if cmd_state row = ''RECOVERY_REQUIRED'' then
         and_then (parse_safe_code row) (\<lambda>c. Ok (RecoveryCandidate (Some c)))
       else if cmd_state row = ''COMPLETED'' then
         and_then (replay_materialization db row q) (\<lambda>r. Ok (MaterializationReplay r))
       else if cmd_state row = ''TERMINAL_REJECTED'' then
         and_then (parse_safe_code row) (\<lambda>c. Ok (MaterializationRejected c))
       else Err Store_StorageCorruption)))"

definition claim_new_materialization ::
  "store_context \<Rightarrow> materialization_transition \<Rightarrow> database \<Rightarrow> asset_store_error + database" where
  "claim_new_materialization ctx t db =
    (case read_command db (mc_binding (mt_command t)) of
       Some _ \<Rightarrow> Err Store_Conflict
     | None \<Rightarrow> insert_claim ctx (mc_binding (mt_command t)) (mt_at t) db)"

definition reclaim_row :: "store_context \<Rightarrow> timestamp \<Rightarrow> command_row \<Rightarrow> command_row" where
  "reclaim_row ctx at row = row\<lparr>cmd_runtime_id := context_runtime_id ctx, cmd_state := ''CLAIMED'',
     cmd_safe_error_code := None, cmd_updated_at := stamp at\<rparr>"

definition reacquire_materialization ::
  "store_env \<Rightarrow> store_context \<Rightarrow> materialization_transition \<Rightarrow> error_code option \<Rightarrow> database \<Rightarrow>
    asset_store_error + database" where
  "reacquire_materialization E ctx t expected db =
    (let b = mc_binding (mt_command t) in
     and_then (bound_row E ctx b db) (\<lambda>row.
     and_then (case expected of
         None \<Rightarrow> Ok (cmd_state row = ''CLAIMED'' \<and> cmd_runtime_id row \<noteq> context_runtime_id ctx)
       | Some code \<Rightarrow>
           (if cmd_state row = ''RECOVERY_REQUIRED'' \<and> is_materialization_recovery_code code
            then and_then (parse_safe_code row) (\<lambda>c. Ok (c = code)) else Ok False)) (\<lambda>accepted.
     if \<not> accepted then Err Store_Conflict
     else let (changed, db') = update_command
         (\<lambda>r. cmd_id r = binding_command_id b \<and> cmd_state r = cmd_state row \<and> cmd_runtime_id r = cmd_runtime_id row
           \<and> cmd_safe_error_code r = map_option error_code_as_str expected)
         (reclaim_row ctx (mt_at t)) db in
       if changed \<noteq> 1 then Err Store_Conflict else Ok db')))"

definition materialized_row :: "uuid \<Rightarrow> timestamp \<Rightarrow> command_row \<Rightarrow> command_row" where
  "materialized_row revision at row =
    row\<lparr>cmd_state := ''COMPLETED'', cmd_result_kind := Some ''ASSET_REVISION'', cmd_result_id := Some revision,
       cmd_safe_error_code := None, cmd_updated_at := stamp at\<rparr>"

definition complete_materialization ::
  "store_env \<Rightarrow> store_context \<Rightarrow> materialization_transition \<Rightarrow> database \<Rightarrow>
    asset_store_error + (materialization_result \<times> database)" where
  "complete_materialization E ctx t db =
    (let q = mt_command t; b = mc_binding q in
     and_then (bound_row E ctx b db) (\<lambda>row.
     if \<not> owns_claim ctx row then Err Store_Conflict
     else let (changed, db') = update_command
         (\<lambda>r. cmd_id r = binding_command_id b \<and> owns_claim ctx r)
         (materialized_row (mc_asset_revision_id q) (mt_at t)) db in
       if changed \<noteq> 1 then Err Store_StorageCorruption
       else and_then (ok_or Store_StorageCorruption (read_command db' b)) (\<lambda>row.
         and_then (validate_command_row E row) (\<lambda>completed.
         and_then (replay_materialization db' completed q) (\<lambda>r. Ok (r, db'))))))"

definition finish_materialization ::
  "store_env \<Rightarrow> store_context \<Rightarrow> materialization_finish \<Rightarrow> database \<Rightarrow>
    asset_store_error + (disposition_outcome \<times> database)" where
  "finish_materialization E ctx q db =
    (let t = mf_transition q; b = mc_binding (mt_command t);
         st = disposition_state (mf_disposition q); code = disposition_code (mf_disposition q) in
     and_then (bound_row E ctx b db) (\<lambda>row.
     if owns_claim ctx row then
       (let (changed, db') = update_command (\<lambda>r. cmd_id r = binding_command_id b \<and> owns_claim ctx r)
          (dispose_row st code (mt_at t)) db in
        if changed \<noteq> 1 then Err Store_StorageCorruption else Ok (Stored, db'))
     else if cmd_state row = st then
       and_then (parse_safe_code row) (\<lambda>c. if c = code then Ok (DispositionReplay code, db) else Err Store_Conflict)
     else Err Store_Conflict))"

section \<open>Rows of open commands\<close>

text \<open>What every readable row has, and what a row without a result has.\<close>

definition row_core :: "store_env \<Rightarrow> command_row \<Rightarrow> bool" where
  "row_core E row =
    (is_ok (stored_id E (Some (cmd_id row))) \<and> length (cmd_digest row) = 32 \<and> row_header_ok row
     \<and> is_ok (persisted_timestamp E (cmd_created_at row)))"

definition bare :: "command_row \<Rightarrow> bool" where
  "bare row =
    (cmd_result_kind row = None \<and> cmd_result_id row = None \<and> cmd_result_location_id row = None
     \<and> cmd_result_schema_version row = None \<and> cmd_result_payload row = None
     \<and> cmd_result_payload_sha256 row = None)"

fun external_operation :: "string \<Rightarrow> bool" where
  "external_operation operation = (operation \<in> set [ASSET_INGEST_COPY_V1, ASSET_MATERIALIZE_V1])"

text \<open>The codes each external operation may be settled with.\<close>

definition disposable :: "string \<Rightarrow> string \<Rightarrow> error_code \<Rightarrow> bool" where
  "disposable operation st c =
    (operation = ASSET_INGEST_COPY_V1
       \<and> (st = ''TERMINAL_REJECTED'' \<and> is_external_terminal_code c \<or> st = ''RECOVERY_REQUIRED'' \<and> is_external_recovery_code c)
     \<or> operation = ASSET_MATERIALIZE_V1
       \<and> (st = ''TERMINAL_REJECTED'' \<and> is_materialization_terminal_code c
          \<or> st = ''RECOVERY_REQUIRED'' \<and> is_materialization_recovery_code c))"

lemma validate_core:
  assumes "validate_command_row E row = Ok row'"
  shows "row' = row" "row_core E row" "is_ok (stored_id E (Some (cmd_runtime_id row)))"
    "cmd_state row \<noteq> ''COMPLETED'' \<Longrightarrow> bare row"
    "cmd_state row = ''CLAIMED'' \<Longrightarrow> cmd_safe_error_code row = None"
proof -
  from assms obtain code present where parts: "row' = row" "row_core E row" "is_ok (stored_id E (Some (cmd_runtime_id row)))"
    and code: "stored_code row = Ok code" "payload_present E row = Ok present" "validate_state E row present code = Ok ()"
    by (auto simp add: validate_command_row_def and_then_ok_iff row_core_def is_ok_iff)
  then show "row' = row" "row_core E row" "is_ok (stored_id E (Some (cmd_runtime_id row)))" by simp_all
  show "cmd_state row \<noteq> ''COMPLETED'' \<Longrightarrow> bare row"
    using code by (auto simp add: validate_state_def payload_present_def no_result_def bare_def
        split: if_splits option.splits)
  show "cmd_state row = ''CLAIMED'' \<Longrightarrow> cmd_safe_error_code row = None"
    using code by (auto simp add: validate_state_def stored_code_def and_then_ok_iff split: if_splits option.splits)
qed

lemma header_cong:
  "cmd_principal_kind row' = cmd_principal_kind row \<Longrightarrow> cmd_principal_uid row' = cmd_principal_uid row \<Longrightarrow>
    cmd_operation_id row' = cmd_operation_id row \<Longrightarrow> row_header_ok row' = row_header_ok row"
  by (simp add: row_header_ok_def)

lemma open_row_valid:
  assumes "row_core E row" "is_ok (stored_id E (Some (cmd_runtime_id row)))" "bare row"
    and "is_ok (persisted_timestamp E (cmd_updated_at row))"
    and "cmd_state row = ''CLAIMED'' \<and> cmd_safe_error_code row = None \<and> external_operation (cmd_operation_id row)
      \<or> (\<exists>c. cmd_safe_error_code row = Some (error_code_as_str c) \<and> disposable (cmd_operation_id row) (cmd_state row) c)"
  shows "validate_command_row E row = Ok row"
proof -
  have present: "payload_present E row = Ok False" using assms(3) by (simp add: payload_present_def bare_def)
  obtain code where code: "stored_code row = Ok code" "validate_state E row False code = Ok ()"
      "validate_known_command_matrix row code = Ok ()"
  proof (cases "cmd_state row = ''CLAIMED'' \<and> cmd_safe_error_code row = None \<and> external_operation (cmd_operation_id row)")
    case True
    then have "stored_code row = Ok None" "validate_state E row False None = Ok ()"
      using assms(3) by (simp_all add: stored_code_def validate_state_def no_result_def bare_def)
    moreover have "validate_known_command_matrix row None = Ok ()"
      using True by (auto simp add: validate_known_command_matrix_def external_matrix_def operation_ids)
    ultimately show thesis using that by blast
  next
    case False
    then obtain c where c: "cmd_safe_error_code row = Some (error_code_as_str c)"
        "disposable (cmd_operation_id row) (cmd_state row) c" using assms(5) by blast
    then have "stored_code row = Ok (Some c)" "validate_state E row False (Some c) = Ok ()"
      using assms(3) by (auto simp add: stored_code_def validate_state_def no_result_def bare_def disposable_def)
    moreover have "validate_known_command_matrix row (Some c) = Ok ()"
      using c(2) by (auto simp add: validate_known_command_matrix_def external_matrix_def code_is_def disposable_def
          operation_ids)
    ultimately show thesis using that by blast
  qed
  then show ?thesis
    using assms(1,2,4) present by (auto simp add: validate_command_row_def row_core_def is_ok_iff)
qed

lemma dispose_row_simps [simp]:
  "cmd_id (dispose_row st c at row) = cmd_id row" "cmd_state (dispose_row st c at row) = st"
  "cmd_operation_id (dispose_row st c at row) = cmd_operation_id row"
  "cmd_principal_uid (dispose_row st c at row) = cmd_principal_uid row"
  "cmd_runtime_id (dispose_row st c at row) = cmd_runtime_id row"
  "cmd_safe_error_code (dispose_row st c at row) = Some (error_code_as_str c)"
  by (simp_all add: dispose_row_def)

lemma row_core_cong:
  "cmd_id row' = cmd_id row \<Longrightarrow> cmd_digest row' = cmd_digest row \<Longrightarrow> cmd_created_at row' = cmd_created_at row \<Longrightarrow>
    cmd_principal_kind row' = cmd_principal_kind row \<Longrightarrow> cmd_principal_uid row' = cmd_principal_uid row \<Longrightarrow>
    cmd_operation_id row' = cmd_operation_id row \<Longrightarrow> row_core E row' = row_core E row"
  by (simp add: row_core_def row_header_ok_def)

lemma dispose_row_valid:
  assumes "validate_command_row E row = Ok row'" "cmd_state row = ''CLAIMED''"
    and "clock_ok E at" "disposable (cmd_operation_id row) st c"
  shows "validate_command_row E (dispose_row st c at row) = Ok (dispose_row st c at row)"
proof -
  have "row_core E (dispose_row st c at row)"
    using validate_core(2) [OF assms(1)] row_core_cong [of "dispose_row st c at row" row] by (simp add: dispose_row_def)
  moreover have "bare (dispose_row st c at row)"
    using validate_core(4) [OF assms(1)] assms(2) by (simp add: bare_def dispose_row_def)
  ultimately show ?thesis
    using validate_core(3) [OF assms(1)] assms(3,4)
    by (intro open_row_valid) (auto simp add: clock_ok_def dispose_row_def)
qed

lemma reclaim_row_valid:
  assumes "validate_command_row E row = Ok row'" "cmd_state row \<noteq> ''COMPLETED''"
    and "clock_ok E at" "external_operation (cmd_operation_id row)" "id_wf (env_uuid E) (context_runtime_id ctx)"
  shows "validate_command_row E (reclaim_row ctx at row) = Ok (reclaim_row ctx at row)"
proof -
  have "row_core E (reclaim_row ctx at row)"
    using validate_core(2) [OF assms(1)] row_core_cong [of "reclaim_row ctx at row" row] by (simp add: reclaim_row_def)
  moreover have "bare (reclaim_row ctx at row)"
    using validate_core(4) [OF assms(1)] assms(2) by (simp add: bare_def reclaim_row_def)
  ultimately show ?thesis
    using assms(3,4) stored_id_wf [OF assms(5)]
    by (intro open_row_valid) (auto simp add: clock_ok_def reclaim_row_def)
qed

lemma external_header:
  "external_operation (cmd_operation_id row) \<Longrightarrow> cmd_principal_kind row = ''LOCAL_OWNER_UID_V1'' \<Longrightarrow>
    u32_try_from (cmd_principal_uid row) \<noteq> None \<Longrightarrow> row_header_ok row"
  by (auto simp add: row_header_ok_def operation_ids ends_with_def operation_id_char_def is_ascii_lower_def
      is_ascii_digit_def)

lemma claimed_row_valid:
  assumes "binding_wf E ctx b" "clock_ok E at" "external_operation (binding_operation_id b)"
  shows "validate_command_row E (claimed_row ctx b at) = Ok (claimed_row ctx b at)"
proof (rule open_row_valid)
  have "row_header_ok (claimed_row ctx b at)"
    using assms(3) by (intro external_header) (simp_all add: claimed_row_def u32_try_from_uint)
  then show "row_core E (claimed_row ctx b at)"
    using assms(1,2) by (simp add: row_core_def claimed_row_def binding_wf_def stored_id_wf clock_ok_def)
qed (use assms in \<open>simp_all add: claimed_row_def bare_def binding_wf_def stored_id_wf clock_ok_def\<close>)

end
