(* ===== verification/Startup.thy ===== *)
theory Startup
  imports External_Store
begin

text \<open>
  Recovery at startup.  The store classifies the commands that an earlier runtime left
  claimed, page by page (\<open>capture_startup_mutation_boundary\<close> and
  \<open>classify_startup_mutation_page\<close>, lines 442-618 of \<open>asset_repository.rs\<close>); the service
  of \<open>crates/mengxia-app/src/asset_persistence.rs\<close>, lines 217-322, walks the pages of both
  states.  The caller's control and clock are parameters: the answer of their k-th call.
\<close>

section \<open>Control and clock\<close>

datatype ingest_stop = Cancelled | DeadlineReached
datatype ingest_directive = Continue | Stop ingest_stop

type_synonym control = "nat \<Rightarrow> ingest_directive"

fun controlled_stop_error :: "ingest_stop \<Rightarrow> asset_store_error" where
  "controlled_stop_error Cancelled = Store_OperationCancelled"
| "controlled_stop_error DeadlineReached = Store_DeadlineExceeded"

text \<open>A checkpoint consumes one answer of the control.\<close>

definition controlled_checkpoint :: "control \<Rightarrow> nat \<Rightarrow> asset_store_error + nat" where
  "controlled_checkpoint control k =
    (case control k of Continue \<Rightarrow> Ok (Suc k) | Stop stop \<Rightarrow> Err (controlled_stop_error stop))"

section \<open>Pages of commands\<close>

datatype startup_mutation_state = StartupClaimed | StartupRecoveryRequired

record startup_page_request =
  spr_boundary :: "uuid option"
  spr_state :: startup_mutation_state
  spr_after :: "uuid option"
  spr_classified_at :: timestamp

record startup_page =
  page_last_command_id :: "uuid option"
  page_recovery_required_count :: u64
  page_complete :: bool

definition startup_page_from_store :: "uuid option \<Rightarrow> u64 \<Rightarrow> bool \<Rightarrow> asset_store_error + startup_page" where
  "startup_page_from_store last_id n complete =
    (if (\<not> complete \<and> last_id = None) \<or> (n \<noteq> 0 \<and> last_id = None) \<or> n > 256
     then Err Store_StorageCorruption
     else Ok \<lparr>page_last_command_id = last_id, page_recovery_required_count = n, page_complete = complete\<rparr>)"

definition capture_startup_mutation_boundary ::
  "store_env \<Rightarrow> control \<Rightarrow> nat \<Rightarrow> database \<Rightarrow> asset_store_error + (uuid option \<times> nat)" where
  "capture_startup_mutation_boundary E control k db =
    and_then (controlled_checkpoint control k) (\<lambda>k.
    case map cmd_id (commands db) of
      [] \<Rightarrow> Ok (None, k)
    | i # is \<Rightarrow> and_then (stored_id E (Some (fold max is i))) (\<lambda>m. Ok (Some m, k)))"

fun state_text :: "startup_mutation_state \<Rightarrow> string" where
  "state_text StartupClaimed = ''CLAIMED''"
| "state_text StartupRecoveryRequired = ''RECOVERY_REQUIRED''"

definition page_rows :: "string \<Rightarrow> uuid \<Rightarrow> uuid option \<Rightarrow> database \<Rightarrow> command_row list" where
  "page_rows st boundary after db =
    take 256 (sort_key cmd_id (filter (\<lambda>row. cmd_state row = st \<and> cmd_id row \<le> boundary
      \<and> (case after of None \<Rightarrow> True | Some a \<Rightarrow> a < cmd_id row)) (commands db)))"

definition classify_row ::
  "store_env \<Rightarrow> store_context \<Rightarrow> startup_page_request \<Rightarrow> command_row \<Rightarrow> u64 \<Rightarrow> database \<Rightarrow>
    asset_store_error + (u64 \<times> database)" where
  "classify_row E ctx q raw_row n db =
    and_then (stored_id E (Some (cmd_id raw_row))) (\<lambda>_.
    and_then (validate_command_row E raw_row) (\<lambda>row.
    if cmd_principal_uid row \<noteq> uint (owner_uid ctx) \<or> cmd_state row \<noteq> state_text (spr_state q)
       \<or> cmd_operation_id row \<notin> set [ASSET_INGEST_COPY_V1, ASSET_MATERIALIZE_V1]
    then Err Store_StorageCorruption
    else case spr_state q of
      StartupClaimed \<Rightarrow>
        (if cmd_runtime_id row = context_runtime_id ctx then Err Store_StorageCorruption
         else let (changed, db') = update_command
             (\<lambda>r. cmd_id r = cmd_id row \<and> cmd_state r = ''CLAIMED'' \<and> cmd_runtime_id r = cmd_runtime_id row)
             (dispose_row ''RECOVERY_REQUIRED'' StorageConfigurationError (spr_classified_at q)) db in
           if changed \<noteq> 1 then Err Store_StorageCorruption else Ok (n, db'))
    | StartupRecoveryRequired \<Rightarrow>
        (case checked_add n 1 of None \<Rightarrow> Err Store_StorageCorruption | Some n' \<Rightarrow> Ok (n', db))))"

fun classify_rows ::
  "store_env \<Rightarrow> store_context \<Rightarrow> startup_page_request \<Rightarrow> control \<Rightarrow> command_row list \<Rightarrow> nat \<Rightarrow> u64 \<Rightarrow>
    uuid option \<Rightarrow> database \<Rightarrow> asset_store_error + (nat \<times> u64 \<times> uuid option \<times> database)" where
  "classify_rows E ctx q control [] k n last_id db = Ok (k, n, last_id, db)"
| "classify_rows E ctx q control (row # rows) k n last_id db =
    and_then (controlled_checkpoint control k) (\<lambda>k.
    and_then (classify_row E ctx q row n db) (\<lambda>(n, db).
      classify_rows E ctx q control rows k n (Some (cmd_id row)) db))"

definition classify_startup_mutation_page ::
  "store_env \<Rightarrow> store_context \<Rightarrow> startup_page_request \<Rightarrow> control \<Rightarrow> nat \<Rightarrow> database \<Rightarrow>
    asset_store_error + (startup_page \<times> nat \<times> database)" where
  "classify_startup_mutation_page E ctx q control k db =
    and_then (controlled_checkpoint control k) (\<lambda>k.
    case spr_boundary q of
      None \<Rightarrow>
        (if spr_after q \<noteq> None then Err Store_Validation
         else and_then (startup_page_from_store None 0 True) (\<lambda>page. Ok (page, k, db)))
    | Some boundary \<Rightarrow>
        (if (case spr_after q of None \<Rightarrow> False | Some after \<Rightarrow> boundary < after) then Err Store_Validation
         else let rows = page_rows (state_text (spr_state q)) boundary (spr_after q) db in
           and_then (classify_rows E ctx q control rows k 0 None db) (\<lambda>(k, n, last_id, db).
           and_then (controlled_checkpoint control k) (\<lambda>k.
           and_then (startup_page_from_store last_id n (length rows < 256 \<or> last_id = Some boundary)) (\<lambda>page.
             Ok (page, k, db))))))"

section \<open>The walk over the pages\<close>

type_synonym clock = "nat \<Rightarrow> timestamp option"

text \<open>One iteration: the checks the service makes of a page, and the position it goes on from.\<close>

definition check_page ::
  "uuid option \<Rightarrow> startup_mutation_state \<Rightarrow> uuid option \<Rightarrow> u64 \<Rightarrow> startup_page \<Rightarrow> asset_store_error + u64" where
  "check_page boundary st after count page =
    and_then (ensure (\<not> (st = StartupClaimed \<and> page_recovery_required_count page \<noteq> 0)) Store_StorageCorruption) (\<lambda>_.
    and_then (ensure (case page_last_command_id page of
        None \<Rightarrow> True
      | Some next \<Rightarrow> \<not> ((case after of None \<Rightarrow> False | Some previous \<Rightarrow> next \<le> previous)
          \<or> (case boundary of None \<Rightarrow> False | Some limit \<Rightarrow> limit < next))) Store_StorageCorruption) (\<lambda>_.
    ok_or Store_StorageCorruption (checked_add count (page_recovery_required_count page))))"

partial_function (option) classify_pages ::
  "store_env \<Rightarrow> store_context \<Rightarrow> control \<Rightarrow> clock \<Rightarrow> uuid option \<Rightarrow> startup_mutation_state \<Rightarrow> uuid option \<Rightarrow>
    nat \<Rightarrow> nat \<Rightarrow> u64 \<Rightarrow> database \<Rightarrow> (asset_store_error + (nat \<times> nat \<times> u64 \<times> database)) option" where
  "classify_pages E ctx control clock boundary st after k j count db =
    (case controlled_checkpoint control k of
       Inl e \<Rightarrow> Some (Inl e)
     | Inr k1 \<Rightarrow>
       (case clock j of
          None \<Rightarrow> Some (Inl Store_IdGenerationUnavailable)
        | Some at \<Rightarrow>
          (case classify_startup_mutation_page E ctx
              \<lparr>spr_boundary = boundary, spr_state = st, spr_after = after, spr_classified_at = at\<rparr> control k1 db of
             Inl e \<Rightarrow> Some (Inl e)
           | Inr (page, k2, db') \<Rightarrow>
             (case check_page boundary st after count page of
                Inl e \<Rightarrow> Some (Inl e)
              | Inr count' \<Rightarrow>
                (if page_complete page then Some (Inr (k2, Suc j, count', db'))
                 else case page_last_command_id page of
                   None \<Rightarrow> Some (Inl Store_StorageCorruption)
                 | Some next \<Rightarrow>
                   classify_pages E ctx control clock boundary st (Some next) k2 (Suc j) count' db')))))"

definition classify_with_clock ::
  "store_env \<Rightarrow> store_context \<Rightarrow> control \<Rightarrow> clock \<Rightarrow> database \<Rightarrow>
    (asset_store_error + (u64 \<times> database)) option" where
  "classify_with_clock E ctx control clock db =
    (case and_then (controlled_checkpoint control 0) (\<lambda>k.
       and_then (capture_startup_mutation_boundary E control k db) (\<lambda>(boundary, k).
       and_then (controlled_checkpoint control k) (\<lambda>k. Ok (boundary, k)))) of
       Inl e \<Rightarrow> Some (Inl e)
     | Inr (boundary, k) \<Rightarrow>
       (case classify_pages E ctx control clock boundary StartupClaimed None k 0 0 db of
          None \<Rightarrow> None
        | Some (Inl e) \<Rightarrow> Some (Inl e)
        | Some (Inr (k, j, count, db)) \<Rightarrow>
          (case classify_pages E ctx control clock boundary StartupRecoveryRequired None k j count db of
             None \<Rightarrow> None
           | Some (Inl e) \<Rightarrow> Some (Inl e)
           | Some (Inr (_, _, count, db)) \<Rightarrow> Some (Inr (count, db)))))"

section \<open>The walk ends\<close>

abbreviation command_ids :: "database \<Rightarrow> uuid list" where
  "command_ids db \<equiv> map cmd_id (commands db)"

lemma update_rows_command_ids:
  "(\<And>r. cmd_id (f r) = cmd_id r) \<Longrightarrow> map cmd_id (update_rows hit f rows) = map cmd_id rows"
  by (induction rows) auto

lemma classify_row_ids: "classify_row E ctx q row n db = Ok (n', db') \<Longrightarrow> command_ids db' = command_ids db"
  by (auto simp add: classify_row_def and_then_ok_iff update_command_def update_rows_command_ids Let_def
      split: if_splits startup_mutation_state.splits option.splits)

lemma classify_rows_ids:
  "classify_rows E ctx q control rows k n l db = Ok (k', n', l', db') \<Longrightarrow>
    command_ids db' = command_ids db \<and> (if rows = [] then l' = l else l' = Some (cmd_id (last rows)))"
proof (induction rows arbitrary: k n l db)
  case (Cons row rows)
  then obtain k1 n1 db1 where "classify_row E ctx q row n db = Ok (n1, db1)"
      "classify_rows E ctx q control rows k1 n1 (Some (cmd_id row)) db1 = Ok (k', n', l', db')"
    by (auto simp add: and_then_ok_iff)
  with Cons.IH classify_row_ids show ?case by fastforce
qed simp

lemma page_rows_commands: "row \<in> set (page_rows st boundary after db) \<Longrightarrow> row \<in> set (commands db)"
  unfolding page_rows_def by (auto dest: in_set_takeD)

lemma page_cases:
  assumes "classify_startup_mutation_page E ctx q control k db = Ok (page, k', db')"
  obtains (empty) "spr_boundary q = None" "db' = db" "page_last_command_id page = None" "page_complete page"
    | (rows) boundary k1 k2 n last_id where "spr_boundary q = Some boundary"
      "classify_rows E ctx q control (page_rows (state_text (spr_state q)) boundary (spr_after q) db) k1 0 None db =
        Ok (k2, n, last_id, db')"
      "page_last_command_id page = last_id" "page_recovery_required_count page = n"
      "page_complete page = (length (page_rows (state_text (spr_state q)) boundary (spr_after q) db) < 256
        \<or> last_id = Some boundary)"
proof (cases "spr_boundary q")
  case None
  then show thesis
    using assms empty
    by (auto simp add: classify_startup_mutation_page_def and_then_ok_iff startup_page_from_store_def split: if_splits)
next
  case (Some boundary)
  then show thesis
    using assms rows
    by (auto simp add: classify_startup_mutation_page_def and_then_ok_iff startup_page_from_store_def Let_def
        split: if_splits)
qed

lemma page_ids:
  assumes "classify_startup_mutation_page E ctx q control k db = Ok (page, k', db')"
  shows "command_ids db' = command_ids db"
    "page_last_command_id page = Some i \<Longrightarrow> i \<in> set (command_ids db)"
  using assms by (cases rule: page_cases;
      auto dest!: classify_rows_ids page_rows_commands [OF last_in_set] split: if_splits)+

definition ids_after :: "uuid option \<Rightarrow> database \<Rightarrow> uuid set" where
  "ids_after after db = {i \<in> set (command_ids db). case after of None \<Rightarrow> True | Some a \<Rightarrow> a < i}"

lemma classify_pages_ends:
  "\<exists>r. classify_pages E ctx control clock boundary st after k j count db = Some r"
proof (induction "card (ids_after after db)" arbitrary: after k j count db rule: less_induct)
  case less
  have step: "\<exists>r. classify_pages E ctx control clock boundary st (Some i) k2 (Suc j) count' db' = Some r"
    if page: "classify_startup_mutation_page E ctx q control k1 db = Ok (page, k2, db')"
      and "check_page boundary st after count page = Ok count'" "page_last_command_id page = Some i"
    for q k1 page k2 db' count' i
  proof (rule less)
    have "after = None \<or> the after < i"
      using that(2,3) by (auto simp add: check_page_def and_then_ok_iff split: option.splits)
    then have "i \<in> ids_after after db" "ids_after (Some i) db' \<subseteq> ids_after after db - {i}"
      using page_ids [OF page] that(3) unfolding ids_after_def by (auto split: option.splits)
    moreover have "finite (ids_after after db)" by (simp add: ids_after_def)
    ultimately show "card (ids_after (Some i) db') < card (ids_after after db)"
      by (meson card_Diff1_less card_mono finite_Diff le_less_trans)
  qed
  show ?case
    by (subst classify_pages.simps) (auto split: sum.splits option.splits intro: step)
qed

section \<open>What the walk does\<close>

text \<open>A database of an earlier runtime: the open commands are external commands of the owner,
  and none is claimed by the runtime that starts.\<close>

definition left_open :: "store_context \<Rightarrow> command_row \<Rightarrow> bool" where
  "left_open ctx row =
    (cmd_state row \<in> set [''CLAIMED'', ''RECOVERY_REQUIRED''] \<longrightarrow>
      cmd_principal_uid row = uint (owner_uid ctx) \<and> external_operation (cmd_operation_id row)
      \<and> (cmd_state row = ''CLAIMED'' \<longrightarrow> cmd_runtime_id row \<noteq> context_runtime_id ctx))"

definition startup_ready :: "store_env \<Rightarrow> store_context \<Rightarrow> database \<Rightarrow> bool" where
  "startup_ready E ctx db = (journal_wf E db \<and> list_all (left_open ctx) (commands db))"

definition recovered :: "timestamp \<Rightarrow> command_row \<Rightarrow> command_row" where
  "recovered at row = dispose_row ''RECOVERY_REQUIRED'' StorageConfigurationError at row"

lemma recovered_simps [simp]:
  "cmd_id (recovered at row) = cmd_id row" "cmd_state (recovered at row) = ''RECOVERY_REQUIRED''"
  by (simp_all add: recovered_def)

lemma recovered_valid:
  assumes "validate_command_row E row = Ok row'" "cmd_state row = ''CLAIMED''" "clock_ok E at"
    and "external_operation (cmd_operation_id row)"
  shows "is_ok (validate_command_row E (recovered at row))"
  unfolding recovered_def
  using dispose_row_valid [OF assms(1-3), of "''RECOVERY_REQUIRED''" StorageConfigurationError] assms(4)
  by (auto simp add: disposable_def)

lemma recovered_open: "left_open ctx row \<Longrightarrow> cmd_state row = ''CLAIMED'' \<Longrightarrow> left_open ctx (recovered at row)"
  by (auto simp add: left_open_def recovered_def)

text \<open>Recovering the rows of a page: those rows change, and no others.\<close>

definition recover_page :: "timestamp \<Rightarrow> command_row set \<Rightarrow> database \<Rightarrow> database" where
  "recover_page at rows db = db\<lparr>commands := map (\<lambda>r. if r \<in> rows then recovered at r else r) (commands db)\<rparr>"

lemma startup_ready_row:
  assumes "startup_ready E ctx db" "row \<in> set (commands db)"
  shows "validate_command_row E row = Ok row" "is_ok (stored_id E (Some (cmd_id row)))" "left_open ctx row"
proof -
  obtain row' where "validate_command_row E row = Ok row'"
    using assms by (auto simp add: startup_ready_def journal_wf_def list_all_iff is_ok_iff)
  then show "validate_command_row E row = Ok row" "is_ok (stored_id E (Some (cmd_id row)))"
    using validate_core [of E row row'] by (auto simp add: row_core_def)
  show "left_open ctx row" using assms by (simp add: startup_ready_def list_all_iff)
qed

lemma startup_ready_recover:
  assumes "startup_ready E ctx db" "clock_ok E at" "\<forall>r \<in> rows. cmd_state r = ''CLAIMED''"
  shows "startup_ready E ctx (recover_page at rows db)"
proof -
  have ids: "map (\<lambda>r. cmd_id (if r \<in> rows then recovered at r else r)) (commands db) = map cmd_id (commands db)"
    by simp
  have "is_ok (validate_command_row E (recovered at r)) \<and> left_open ctx (recovered at r)"
    if "r \<in> set (commands db)" "r \<in> rows" for r
    using startup_ready_row [OF assms(1) that(1)] assms(2,3) that(2) recovered_valid [of E r r at] recovered_open
    by (auto simp add: left_open_def)
  then show ?thesis
    using assms(1) startup_ready_row [OF assms(1)]
    by (auto simp add: startup_ready_def journal_wf_def recover_page_def list_all_iff comp_def ids)
qed

lemma update_one:
  assumes "distinct (map cmd_id rows)" "row \<in> set rows" "p row" "\<And>r. p r \<Longrightarrow> cmd_id r = cmd_id row"
  shows "count_rows p rows = 1" "update_rows p f rows = map (\<lambda>r. if r \<in> {row} then f r else r) rows"
proof -
  have only: "p r \<longleftrightarrow> r = row" if "r \<in> set rows" for r
    using assms that by (metis distinct_map inj_onD)
  have "count_rows p rows = count_rows (\<lambda>r. r = row) rows"
    unfolding count_rows_def using only by (metis (mono_tags, lifting) filter_cong)
  also have "\<dots> = 1"
    using assms(1,2) by (induction rows) (auto simp add: count_rows_0_iff)
  finally show "count_rows p rows = 1" .
  show "update_rows p f rows = map (\<lambda>r. if r \<in> {row} then f r else r) rows"
    using only by (induction rows) auto
qed

lemma controlled_checkpoint_continue [simp]: "controlled_checkpoint (\<lambda>_. Continue) k = Ok (Suc k)"
  by (simp add: controlled_checkpoint_def)

lemma classify_claimed_row:
  assumes ready: "startup_ready E ctx db" and "row \<in> set (commands db)" "cmd_state row = ''CLAIMED''"
    and "spr_state q = StartupClaimed"
  shows "classify_row E ctx q row n db = Ok (n, recover_page (spr_classified_at q) {row} db)"
proof -
  have distinct: "distinct (command_ids db)" using ready by (simp add: startup_ready_def journal_wf_def)
  let ?p = "\<lambda>r. cmd_id r = cmd_id row \<and> cmd_state r = ''CLAIMED'' \<and> cmd_runtime_id r = cmd_runtime_id row"
  have upd: "update_command ?p (dispose_row ''RECOVERY_REQUIRED'' StorageConfigurationError (spr_classified_at q)) db =
      (1, recover_page (spr_classified_at q) {row} db)"
    using update_one [OF distinct assms(2), of ?p] assms(3)
    by (simp add: update_command_def recover_page_def recovered_def [abs_def])
  obtain i where "stored_id E (Some (cmd_id row)) = Ok i"
    using startup_ready_row(2) [OF ready assms(2)] by (auto simp add: is_ok_iff)
  then show ?thesis
    using startup_ready_row [OF ready assms(2)] assms(3,4) upd
    by (auto simp add: classify_row_def left_open_def)
qed

lemma recover_page_insert:
  assumes "cmd_state row = ''CLAIMED''" "\<forall>r \<in> rows. cmd_state r = ''CLAIMED''"
  shows "recover_page at rows (recover_page at {row} db) = recover_page at (insert row rows) db"
proof -
  have "recovered at row \<notin> rows" using assms(2) by auto
  then show ?thesis by (simp add: recover_page_def)
qed

lemma classify_claimed_rows:
  assumes "startup_ready E ctx db" "clock_ok E (spr_classified_at q)" "spr_state q = StartupClaimed"
    and "set rows \<subseteq> set (commands db)" "distinct rows" "\<forall>r \<in> set rows. cmd_state r = ''CLAIMED''"
  shows "classify_rows E ctx q (\<lambda>_. Continue) rows k n l db =
    Ok (k + length rows, n, if rows = [] then l else Some (cmd_id (last rows)),
      recover_page (spr_classified_at q) (set rows) db)"
  using assms
proof (induction rows arbitrary: k l db)
  case Nil
  then show ?case by (simp add: recover_page_def)
next
  case (Cons row rows)
  let ?at = "spr_classified_at q"
  let ?db = "recover_page ?at {row} db"
  have row: "classify_row E ctx q row n db = Ok (n, ?db)"
    using Cons.prems by (intro classify_claimed_row) simp_all
  have "startup_ready E ctx ?db" using Cons.prems by (intro startup_ready_recover) simp_all
  moreover have "set rows \<subseteq> set (commands ?db)"
    using Cons.prems(4,5) by (auto simp add: recover_page_def image_iff)
  ultimately have "classify_rows E ctx q (\<lambda>_. Continue) rows (Suc k) n (Some (cmd_id row)) ?db =
      Ok (Suc k + length rows, n, if rows = [] then Some (cmd_id row) else Some (cmd_id (last rows)),
        recover_page ?at (set rows) ?db)"
    using Cons.prems by (intro Cons.IH) simp_all
  then show ?case using row recover_page_insert [of row "set rows" ?at db] Cons.prems(6) by simp
qed

lemma classify_recovery_rows:
  assumes "startup_ready E ctx db" "spr_state q = StartupRecoveryRequired"
    and "set rows \<subseteq> set (commands db)" "\<forall>r \<in> set rows. cmd_state r = ''RECOVERY_REQUIRED''"
    and "unat n + length rows < 2 ^ 64"
  shows "classify_rows E ctx q (\<lambda>_. Continue) rows k n l db =
    Ok (k + length rows, n + of_nat (length rows), if rows = [] then l else Some (cmd_id (last rows)), db)"
  using assms
proof (induction rows arbitrary: k n l)
  case (Cons row rows)
  obtain i where "stored_id E (Some (cmd_id row)) = Ok i"
    using startup_ready_row(2) [OF Cons.prems(1)] Cons.prems(3) by (auto simp add: is_ok_iff)
  moreover have sum: "unat (n + 1) = unat n + 1"
    using Cons.prems(5) unat_add_lem [of n 1] by simp
  ultimately have "classify_row E ctx q row n db = Ok (n + 1, db)"
    using startup_ready_row [OF Cons.prems(1), of row] Cons.prems
    by (auto simp add: classify_row_def left_open_def checked_add_def)
  moreover have "classify_rows E ctx q (\<lambda>_. Continue) rows (Suc k) (n + 1) (Some (cmd_id row)) db =
      Ok (Suc k + length rows, n + 1 + of_nat (length rows),
        if rows = [] then Some (cmd_id row) else Some (cmd_id (last rows)), db)"
    using Cons.prems sum by (intro Cons.IH) simp_all
  ultimately show ?case by (simp add: add.assoc add.commute)
qed simp

definition open_after :: "string \<Rightarrow> uuid option \<Rightarrow> database \<Rightarrow> command_row list" where
  "open_after st after db = filter (\<lambda>row. cmd_state row = st
     \<and> (case after of None \<Rightarrow> True | Some a \<Rightarrow> a < cmd_id row)) (commands db)"

lemma page_rows_open:
  assumes "\<forall>row \<in> set (commands db). cmd_id row \<le> B"
  shows "page_rows st B after db = take 256 (sort_key cmd_id (open_after st after db))"
proof -
  have "filter (\<lambda>row. cmd_state row = st \<and> cmd_id row \<le> B \<and> (case after of None \<Rightarrow> True | Some a \<Rightarrow> a < cmd_id row))
      (commands db) = open_after st after db"
    unfolding open_after_def using assms by (intro filter_cong) auto
  then show ?thesis by (simp add: page_rows_def)
qed

lemma sorted_page:
  fixes rows :: "command_row list"
  assumes "distinct (map cmd_id rows)"
  defines "page \<equiv> take 256 (sort_key cmd_id rows)"
  shows "set page \<subseteq> set rows" "distinct page" "length page < 256 \<Longrightarrow> set page = set rows"
    "page \<noteq> [] \<Longrightarrow> r \<in> set rows \<Longrightarrow> r \<in> set page \<or> cmd_id (last page) < cmd_id r"
proof -
  let ?L = "sort_key cmd_id rows"
  have ids: "distinct (map cmd_id ?L)" using assms(1) by (simp add: distinct_map)
  show "set page \<subseteq> set rows" unfolding page_def by (metis set_sort set_take_subset)
  show "distinct page" using ids unfolding page_def by (simp add: distinct_map)
  show "length page < 256 \<Longrightarrow> set page = set rows" unfolding page_def by simp
  assume page: "page \<noteq> []" and r: "r \<in> set rows"
  show "r \<in> set page \<or> cmd_id (last page) < cmd_id r"
  proof (cases "r \<in> set page")
    case False
    define rest where "rest = drop 256 ?L"
    have split: "?L = page @ rest" unfolding page_def rest_def by simp
    have "set ?L = set rows" by simp
    then have "r \<in> set rest" using False r unfolding split by auto
    moreover have "sorted (map cmd_id page @ map cmd_id rest)"
      using sorted_sort_key [of cmd_id rows] unfolding split by simp
    moreover have "last page \<in> set page" using page by simp
    moreover have "distinct (map cmd_id page @ map cmd_id rest)" using ids unfolding split by simp
    ultimately have "cmd_id (last page) \<le> cmd_id r" "cmd_id (last page) \<noteq> cmd_id r"
      by (auto simp add: sorted_append)
    then show ?thesis by (simp add: order_less_le)
  qed simp
qed

text \<open>The part of a page that the service reads when neither the control nor the clock stops it.\<close>

lemma claimed_page:
  assumes "startup_ready E ctx db" "clock_ok E at" "\<forall>row \<in> set (commands db). cmd_id row \<le> B"
    and "\<not> (case after of None \<Rightarrow> False | Some a \<Rightarrow> B < a)"
  defines "rows \<equiv> page_rows ''CLAIMED'' B after db"
  defines "last_id \<equiv> (if rows = [] then None else Some (cmd_id (last rows)))"
  shows "\<exists>k'. classify_startup_mutation_page E ctx
    \<lparr>spr_boundary = Some B, spr_state = StartupClaimed, spr_after = after, spr_classified_at = at\<rparr> (\<lambda>_. Continue) k db =
    Ok (\<lparr>page_last_command_id = last_id, page_recovery_required_count = 0,
         page_complete = (length rows < 256 \<or> last_id = Some B)\<rparr>, k', recover_page at (set rows) db)"
proof -
  have "distinct (map cmd_id (open_after ''CLAIMED'' after db))"
    using assms(1) by (simp add: startup_ready_def journal_wf_def open_after_def distinct_map_filter)
  note page = sorted_page [OF this, folded page_rows_open [OF assms(3)], folded rows_def]
  have "set rows \<subseteq> set (commands db)" "\<forall>r \<in> set rows. cmd_state r = ''CLAIMED''"
    using page(1) by (auto simp add: open_after_def)
  from classify_claimed_rows [OF assms(1) _ _ this(1) page(2) this(2), of
      "\<lparr>spr_boundary = Some B, spr_state = StartupClaimed, spr_after = after, spr_classified_at = at\<rparr>"]
  show ?thesis
    using assms(2,4)
    by (auto simp add: classify_startup_mutation_page_def startup_page_from_store_def rows_def last_id_def Let_def)
qed

text \<open>Rows before and after the walk: a row is kept, or a claimed row is recovered.\<close>

definition recovers :: "store_env \<Rightarrow> command_row \<Rightarrow> command_row \<Rightarrow> bool" where
  "recovers E r r' = (r' = r \<or> cmd_state r = ''CLAIMED'' \<and> (\<exists>at. clock_ok E at \<and> r' = recovered at r))"

lemma recovers_trans: "recovers E r s \<Longrightarrow> recovers E s t \<Longrightarrow> recovers E r t"
  by (auto simp add: recovers_def)

lemma recovers_ids: "list_all2 (recovers E) rows rows' \<Longrightarrow> map cmd_id rows' = map cmd_id rows"
  by (induction rule: list_all2_induct) (auto simp add: recovers_def)

lemma recover_page_recovers:
  "clock_ok E at \<Longrightarrow> \<forall>r \<in> rows. cmd_state r = ''CLAIMED'' \<Longrightarrow>
    list_all2 (recovers E) (commands db) (commands (recover_page at rows db))"
  by (auto simp add: recover_page_def list_all2_conv_all_nth recovers_def)

definition claimed_rows :: "database \<Rightarrow> command_row set" where
  "claimed_rows db = {r \<in> set (commands db). cmd_state r = ''CLAIMED''}"

lemma claimed_rows_recover: "claimed_rows (recover_page at rows db) = claimed_rows db - rows"
  by (auto simp add: claimed_rows_def recover_page_def image_iff split: if_splits)

lemma after_rows:
  "r \<in> set (open_after st after db) \<longleftrightarrow>
    r \<in> set (commands db) \<and> cmd_state r = st \<and> (case after of None \<Rightarrow> True | Some a \<Rightarrow> a < cmd_id r)"
  by (auto simp add: open_after_def)

lemma checked_add_0: "checked_add (w :: u64) 0 = Some w"
  using unsigned_less [of w] by (simp add: checked_add_def)

lemma check_page_ok:
  assumes "checked_add count n = Some count'" "st = StartupClaimed \<Longrightarrow> n = 0"
    and "\<And>i. last_id = Some i \<Longrightarrow> i \<le> B \<and> (\<forall>a. after = Some a \<longrightarrow> a < i)"
  shows "check_page (Some B) st after count
    \<lparr>page_last_command_id = last_id, page_recovery_required_count = n, page_complete = c\<rparr> = Ok count'"
proof -
  have "\<not> i \<le> a" if "last_id = Some i" "after = Some a" for i a using assms(3) that leD by blast
  moreover have "\<not> B < i" if "last_id = Some i" for i using assms(3) that leD by blast
  ultimately show ?thesis using assms(1,2) by (auto simp add: check_page_def split: option.splits)
qed

lemma claimed_pages:
  assumes "startup_ready E ctx db" "\<forall>j. \<exists>at. clock j = Some at \<and> clock_ok E at"
    and "\<forall>row \<in> set (commands db). cmd_id row \<le> B" "\<not> (case after of None \<Rightarrow> False | Some a \<Rightarrow> B < a)"
    and "\<forall>r \<in> claimed_rows db. case after of None \<Rightarrow> True | Some a \<Rightarrow> a < cmd_id r"
  shows "\<exists>k' j' db'. classify_pages E ctx (\<lambda>_. Continue) clock (Some B) StartupClaimed after k j count db =
      Some (Ok (k', j', count, db'))
    \<and> db' = db\<lparr>commands := commands db'\<rparr> \<and> list_all2 (recovers E) (commands db) (commands db')
    \<and> startup_ready E ctx db' \<and> claimed_rows db' = {}"
  using assms
proof (induction "card (claimed_rows db)" arbitrary: after k j db rule: less_induct)
  case less
  obtain at where at: "clock j = Some at" "clock_ok E at" using less.prems(2) by blast
  let ?rows = "page_rows ''CLAIMED'' B after db"
  let ?last = "if ?rows = [] then None else Some (cmd_id (last ?rows))"
  let ?db = "recover_page at (set ?rows) db"
  obtain k' where page: "classify_startup_mutation_page E ctx
      \<lparr>spr_boundary = Some B, spr_state = StartupClaimed, spr_after = after, spr_classified_at = at\<rparr> (\<lambda>_. Continue) (Suc k) db =
      Ok (\<lparr>page_last_command_id = ?last, page_recovery_required_count = 0,
         page_complete = (length ?rows < 256 \<or> ?last = Some B)\<rparr>, k', ?db)"
    using claimed_page [OF less.prems(1) at(2) less.prems(3,4)] by blast
  have "distinct (map cmd_id (open_after ''CLAIMED'' after db))"
    using less.prems(1) by (simp add: startup_ready_def journal_wf_def open_after_def distinct_map_filter)
  note facts = sorted_page [OF this, folded page_rows_open [OF less.prems(3)]]
  have claimed: "set ?rows \<subseteq> claimed_rows db" "claimed_rows db = set (open_after ''CLAIMED'' after db)"
    using facts(1) less.prems(5) by (auto simp add: after_rows claimed_rows_def)
  have last_row: "last ?rows \<in> set (open_after ''CLAIMED'' after db)" if "?rows \<noteq> []"
    using that facts(1) last_in_set by blast
  have check: "check_page (Some B) StartupClaimed after count
      \<lparr>page_last_command_id = ?last, page_recovery_required_count = 0, page_complete = c\<rparr> = Ok count" for c
    using last_row less.prems(3) by (intro check_page_ok) (auto simp add: after_rows checked_add_0 split: if_splits)
  have ready: "startup_ready E ctx ?db" and rel: "list_all2 (recovers E) (commands db) (commands ?db)"
    using startup_ready_recover [OF less.prems(1) at(2)] recover_page_recovers [OF at(2)] claimed(1)
    by (auto simp add: claimed_rows_def)
  have self: "?db = db\<lparr>commands := commands ?db\<rparr>" by (simp add: recover_page_def)
  show ?case
  proof (cases "length ?rows < 256 \<or> ?last = Some B")
    case True
    have "claimed_rows db = set ?rows"
    proof (cases "length ?rows < 256")
      case False
      then have "?rows \<noteq> []" "cmd_id (last ?rows) = B" using True by (auto split: if_splits)
      then have "r \<in> set ?rows" if "r \<in> claimed_rows db" for r
        using facts(4) [of r] less.prems(3) claimed(2) that leD by (auto simp add: claimed_rows_def)
      then show ?thesis using claimed(1) by blast
    qed (use facts(3) claimed(2) in simp)
    then have "claimed_rows ?db = {}" by (simp add: claimed_rows_recover)
    moreover have "classify_pages E ctx (\<lambda>_. Continue) clock (Some B) StartupClaimed after k j count db =
        Some (Ok (k', Suc j, count, ?db))"
      using True by (subst classify_pages.simps) (simp add: at page check)
    ultimately show ?thesis using self rel ready by blast
  next
    case False
    let ?i = "cmd_id (last ?rows)"
    have rows: "?rows \<noteq> []" using False by auto
    have more: "claimed_rows ?db = claimed_rows db - set ?rows" by (rule claimed_rows_recover)
    have "\<exists>k2 j2 db2. classify_pages E ctx (\<lambda>_. Continue) clock (Some B) StartupClaimed (Some ?i) k' (Suc j) count ?db =
        Some (Ok (k2, j2, count, db2)) \<and> db2 = ?db\<lparr>commands := commands db2\<rparr>
      \<and> list_all2 (recovers E) (commands ?db) (commands db2) \<and> startup_ready E ctx db2 \<and> claimed_rows db2 = {}"
    proof (rule less.hyps)
      have "finite (claimed_rows db)" by (simp add: claimed_rows_def)
      moreover have "claimed_rows ?db \<subset> claimed_rows db"
        using claimed(1) rows last_in_set [OF rows] unfolding more by blast
      ultimately show "card (claimed_rows ?db) < card (claimed_rows db)" by (rule psubset_card_mono)
      show "\<forall>row \<in> set (commands ?db). cmd_id row \<le> B" using less.prems(3) by (auto simp add: recover_page_def)
      show "\<not> (case Some ?i of None \<Rightarrow> False | Some a \<Rightarrow> B < a)"
        using last_row [OF rows] less.prems(3) leD by (auto simp add: after_rows)
      show "\<forall>r \<in> claimed_rows ?db. case Some ?i of None \<Rightarrow> True | Some a \<Rightarrow> a < cmd_id r"
        using facts(4) [OF rows] claimed(2) unfolding more by auto
    qed (use ready less.prems(2) in blast)+
    then obtain k2 j2 db2 where walk: "classify_pages E ctx (\<lambda>_. Continue) clock (Some B) StartupClaimed (Some ?i) k' (Suc j) count ?db =
        Some (Ok (k2, j2, count, db2))" "db2 = ?db\<lparr>commands := commands db2\<rparr>"
      "list_all2 (recovers E) (commands ?db) (commands db2)" "startup_ready E ctx db2" "claimed_rows db2 = {}"
      by blast
    have "classify_pages E ctx (\<lambda>_. Continue) clock (Some B) StartupClaimed after k j count db = Some (Ok (k2, j2, count, db2))"
      using False rows walk(1) check [of False] by (subst classify_pages.simps) (simp add: at page)
    moreover have "list_all2 (recovers E) (commands db) (commands db2)"
      by (rule list_all2_trans [OF _ rel walk(3)]) (rule recovers_trans)
    moreover have "db2 = db\<lparr>commands := commands db2\<rparr>" using walk(2) by (simp add: recover_page_def)
    ultimately show ?thesis using walk(4,5) by blast
  qed
qed

lemma page_last:
  assumes "r \<in> set (take 256 (sort_key cmd_id rows))"
  shows "cmd_id r \<le> cmd_id (last (take 256 (sort_key cmd_id rows)))"
proof -
  let ?page = "take 256 (sort_key cmd_id rows)"
  obtain xs x where xs: "?page = xs @ [x]" using assms by (metis append_butlast_last_id empty_iff list.set(1))
  moreover have "sorted (map cmd_id ?page)" by (metis sorted_sort_key sorted_wrt_take take_map)
  ultimately show ?thesis using assms by (auto simp add: sorted_append)
qed

lemma open_after_ids: "distinct (command_ids db) \<Longrightarrow> distinct (map cmd_id (open_after st after db))"
  by (simp add: open_after_def distinct_map_filter)

lemma rows_split:
  fixes st :: string and after :: "uuid option" and db :: database
  assumes "distinct (command_ids db)"
  defines "page \<equiv> take 256 (sort_key cmd_id (open_after st after db))"
  assumes "page \<noteq> []"
  shows "length (open_after st after db) = length page + length (open_after st (Some (cmd_id (last page))) db)"
proof -
  let ?all = "open_after st after db" and ?rest = "open_after st (Some (cmd_id (last page))) db"
  note page = sorted_page [OF open_after_ids [OF assms(1), of st after], folded page_def]
  have rest: "set ?rest = set ?all - set page"
  proof (intro set_eqI iffI)
    fix r assume r: "r \<in> set ?rest"
    have "last page \<in> set ?all" using page(1) last_in_set [OF assms(3)] by blast
    then have "r \<in> set ?all" using r by (auto simp add: after_rows split: option.splits intro: order.strict_trans)
    moreover have "r \<notin> set page" using r page_last [of r] leD by (auto simp add: after_rows page_def)
    ultimately show "r \<in> set ?all - set page" by blast
  next
    fix r assume "r \<in> set ?all - set page"
    then show "r \<in> set ?rest" using page(4) [OF assms(3), of r] by (auto simp add: after_rows)
  qed
  have "distinct ?all" "distinct ?rest" using open_after_ids [OF assms(1), of st] by (simp_all add: distinct_map)
  moreover have "card (set ?all) = card (set page) + card (set ?rest)"
    unfolding rest using page(1) by (simp add: card_Diff_subset card_mono)
  ultimately show ?thesis using page(2) by (simp add: distinct_card)
qed

abbreviation recovery_rows :: "uuid option \<Rightarrow> database \<Rightarrow> command_row list" where
  "recovery_rows \<equiv> open_after ''RECOVERY_REQUIRED''"

lemma recovery_page:
  assumes "startup_ready E ctx db" "\<forall>row \<in> set (commands db). cmd_id row \<le> B"
    and "\<not> (case after of None \<Rightarrow> False | Some a \<Rightarrow> B < a)"
  defines "rows \<equiv> page_rows ''RECOVERY_REQUIRED'' B after db"
  defines "last_id \<equiv> (if rows = [] then None else Some (cmd_id (last rows)))"
  shows "\<exists>k'. classify_startup_mutation_page E ctx
    \<lparr>spr_boundary = Some B, spr_state = StartupRecoveryRequired, spr_after = after, spr_classified_at = at\<rparr>
      (\<lambda>_. Continue) k db =
    Ok (\<lparr>page_last_command_id = last_id, page_recovery_required_count = of_nat (length rows),
         page_complete = (length rows < 256 \<or> last_id = Some B)\<rparr>, k', db)"
proof -
  have "distinct (command_ids db)" using assms(1) by (simp add: startup_ready_def journal_wf_def)
  note page = sorted_page [OF open_after_ids [OF this, of "''RECOVERY_REQUIRED''" after], folded page_rows_open [OF assms(2)]]
  have "set rows \<subseteq> set (commands db)" "\<forall>r \<in> set rows. cmd_state r = ''RECOVERY_REQUIRED''"
    using page(1) by (auto simp add: after_rows rows_def)
  moreover have "length rows \<le> 256" unfolding rows_def page_rows_open [OF assms(2)] by simp
  moreover from this have "unat (of_nat (length rows) :: u64) = length rows" by (simp add: unat_of_nat)
  ultimately show ?thesis
    using assms(3) classify_recovery_rows [OF assms(1), of
      "\<lparr>spr_boundary = Some B, spr_state = StartupRecoveryRequired, spr_after = after, spr_classified_at = at\<rparr>" rows 0]
    by (auto simp add: classify_startup_mutation_page_def startup_page_from_store_def rows_def [symmetric] last_id_def
        Let_def word_less_nat_alt)
qed

lemma recovery_pages:
  assumes "startup_ready E ctx db" "\<forall>j. \<exists>at. clock j = Some at \<and> clock_ok E at"
    and "\<forall>row \<in> set (commands db). cmd_id row \<le> B" "\<not> (case after of None \<Rightarrow> False | Some a \<Rightarrow> B < a)"
    and "unat count + length (recovery_rows after db) < 2 ^ 64"
  shows "\<exists>k' j'. classify_pages E ctx (\<lambda>_. Continue) clock (Some B) StartupRecoveryRequired after k j count db =
      Some (Ok (k', j', count + of_nat (length (recovery_rows after db)), db))"
  using assms
proof (induction "length (recovery_rows after db)" arbitrary: after k j count rule: less_induct)
  case less
  obtain at where at: "clock j = Some at" using less.prems(2) by blast
  let ?rows = "page_rows ''RECOVERY_REQUIRED'' B after db"
  let ?n = "of_nat (length ?rows) :: u64"
  let ?last = "if ?rows = [] then None else Some (cmd_id (last ?rows))"
  obtain k' where page: "classify_startup_mutation_page E ctx
      \<lparr>spr_boundary = Some B, spr_state = StartupRecoveryRequired, spr_after = after, spr_classified_at = at\<rparr>
        (\<lambda>_. Continue) (Suc k) db =
      Ok (\<lparr>page_last_command_id = ?last, page_recovery_required_count = ?n,
         page_complete = (length ?rows < 256 \<or> ?last = Some B)\<rparr>, k', db)"
    using recovery_page [OF less.prems(1,3,4)] by blast
  have ids: "distinct (command_ids db)" using less.prems(1) by (simp add: startup_ready_def journal_wf_def)
  note facts = sorted_page [OF open_after_ids [OF ids, of "''RECOVERY_REQUIRED''" after], folded page_rows_open [OF less.prems(3)]]
  note split = rows_split [OF ids, of "''RECOVERY_REQUIRED''" after, folded page_rows_open [OF less.prems(3)]]
  have last_row: "last ?rows \<in> set (recovery_rows after db)" if "?rows \<noteq> []"
    using that facts(1) last_in_set by blast
  have short: "length ?rows \<le> length (recovery_rows after db)"
    unfolding page_rows_open [OF less.prems(3)] by simp
  have sum: "unat (count + ?n) = unat count + length ?rows"
    using less.prems(5) short by (simp add: unat_word_ariths unat_of_nat)
  have "checked_add count ?n = Some (count + ?n)"
    using less.prems(5) short by (simp add: checked_add_def unat_of_nat)
  then have check: "check_page (Some B) StartupRecoveryRequired after count
      \<lparr>page_last_command_id = ?last, page_recovery_required_count = ?n, page_complete = c\<rparr> = Ok (count + ?n)" for c
    using last_row less.prems(3) by (intro check_page_ok) (auto simp add: after_rows split: if_splits)
  show ?case
  proof (cases "length ?rows < 256 \<or> ?last = Some B")
    case True
    have "length (recovery_rows after db) = length ?rows"
    proof (cases "length ?rows < 256")
      case False
      then have "?rows \<noteq> []" "cmd_id (last ?rows) = B" using True by (auto split: if_splits)
      moreover have "recovery_rows (Some B) db = []"
        using less.prems(3) leD by (auto simp add: open_after_def filter_empty_conv)
      ultimately show ?thesis using split by simp
    qed (simp add: page_rows_open [OF less.prems(3)])
    then show ?thesis using True by (subst classify_pages.simps) (simp add: at page check)
  next
    case False
    let ?i = "cmd_id (last ?rows)"
    have rows: "?rows \<noteq> []" using False by auto
    have "\<exists>k2 j2. classify_pages E ctx (\<lambda>_. Continue) clock (Some B) StartupRecoveryRequired (Some ?i) k' (Suc j)
        (count + ?n) db = Some (Ok (k2, j2, count + ?n + of_nat (length (recovery_rows (Some ?i) db)), db))"
    proof (rule less.hyps)
      show "length (recovery_rows (Some ?i) db) < length (recovery_rows after db)" using split [OF rows] rows by simp
      show "unat (count + ?n) + length (recovery_rows (Some ?i) db) < 2 ^ 64"
        using split [OF rows] less.prems(5) sum by simp
      show "\<not> (case Some ?i of None \<Rightarrow> False | Some a \<Rightarrow> B < a)"
        using last_row [OF rows] less.prems(3) leD by (auto simp add: after_rows)
    qed (use less.prems(1-3) in blast)+
    then show ?thesis
      using False rows check [of False] split [OF rows]
      by (subst classify_pages.simps) (simp add: at page add.assoc)
  qed
qed

lemma boundary_above:
  assumes "startup_ready E ctx db" "commands db \<noteq> []"
  shows "\<exists>B k'. capture_startup_mutation_boundary E (\<lambda>_. Continue) k db = Ok (Some B, k')
    \<and> (\<forall>row \<in> set (commands db). cmd_id row \<le> B)"
proof -
  obtain i "is" where ids: "command_ids db = i # is" using assms(2) by (cases "commands db") auto
  have B: "fold max is i = Max (set (command_ids db))" unfolding ids by (metis Max.set_eq_fold)
  then have "fold max is i \<in> set (command_ids db)" unfolding ids by (metis List.finite_set Max_in list.simps(3) set_empty)
  then obtain row where "row \<in> set (commands db)" "cmd_id row = fold max is i" by auto
  then obtain m where "stored_id E (Some (fold max is i)) = Ok m"
    using startup_ready_row(2) [OF assms(1), of row] by (auto simp add: is_ok_iff)
  moreover from this have "m = fold max is i"
    by (auto simp add: stored_id_def id_bytes_def id_from_bytes_def and_then_ok_iff map_err_ok_iff split: if_splits option.splits)
  moreover have "cmd_id row \<le> fold max is i" if "row \<in> set (commands db)" for row
    unfolding B using that by (intro Max_ge) auto
  ultimately show ?thesis by (auto simp add: capture_startup_mutation_boundary_def ids)
qed

lemma no_pages:
  assumes "clock j = Some at"
  shows "classify_pages E ctx (\<lambda>_. Continue) clock None st None k j count db = Some (Ok (Suc (Suc k), Suc j, count, db))"
  by (subst classify_pages.simps)
    (simp add: assms classify_startup_mutation_page_def startup_page_from_store_def check_page_def checked_add_0)

lemma classify_walk:
  assumes "startup_ready E ctx db" "\<forall>j. \<exists>at. clock j = Some at \<and> clock_ok E at" "length (commands db) < 2 ^ 64"
  shows "\<exists>db'. classify_with_clock E ctx (\<lambda>_. Continue) clock db =
      Some (Ok (of_nat (length (recovery_rows None db')), db'))
    \<and> db' = db\<lparr>commands := commands db'\<rparr> \<and> list_all2 (recovers E) (commands db) (commands db')
    \<and> startup_ready E ctx db' \<and> claimed_rows db' = {}"
proof (cases "commands db = []")
  case True
  obtain a b where "clock 0 = Some a" "clock (Suc 0) = Some b" using assms(2) by blast
  then have "classify_with_clock E ctx (\<lambda>_. Continue) clock db = Some (Ok (0, db))"
    using True by (simp add: classify_with_clock_def capture_startup_mutation_boundary_def no_pages)
  then show ?thesis using True assms(1) by (intro exI [of _ db]) (simp add: open_after_def claimed_rows_def)
next
  case False
  obtain B k where B: "capture_startup_mutation_boundary E (\<lambda>_. Continue) (Suc 0) db = Ok (Some B, k)"
      "\<forall>row \<in> set (commands db). cmd_id row \<le> B"
    using boundary_above [OF assms(1) False] by blast
  have start: "\<not> False" "\<forall>r \<in> claimed_rows db. True" by simp_all
  note walk = claimed_pages [OF assms(1,2) B(2), of None "Suc k" 0 0, unfolded option.case, OF start]
  obtain k1 j1 db1 where first: "classify_pages E ctx (\<lambda>_. Continue) clock (Some B) StartupClaimed None (Suc k) 0 0 db =
      Some (Ok (k1, j1, 0, db1))" and db1: "db1 = db\<lparr>commands := commands db1\<rparr>"
      "list_all2 (recovers E) (commands db) (commands db1)" "startup_ready E ctx db1" "claimed_rows db1 = {}"
    using walk by blast
  have len: "length (commands db1) = length (commands db)" by (rule list_all2_lengthD [OF db1(2), symmetric])
  have "\<forall>i \<in> set (command_ids db1). i \<le> B" unfolding recovers_ids [OF db1(2)] using B(2) by simp
  then have ids: "\<forall>row \<in> set (commands db1). cmd_id row \<le> B" by simp
  have "length (recovery_rows None db1) < 2 ^ 64"
    unfolding open_after_def using assms(3) len by (intro le_less_trans [OF length_filter_le]) simp
  then obtain k2 j2 where "classify_pages E ctx (\<lambda>_. Continue) clock (Some B) StartupRecoveryRequired None k1 j1 0 db1 =
      Some (Ok (k2, j2, of_nat (length (recovery_rows None db1)), db1))"
    using recovery_pages [OF db1(3) assms(2) ids, of None 0 k1 j1] by auto
  then have "classify_with_clock E ctx (\<lambda>_. Continue) clock db =
      Some (Ok (of_nat (length (recovery_rows None db1)), db1))"
    using B(1) first by (simp add: classify_with_clock_def)
  then show ?thesis using db1 by blast
qed

lemma classify_returns: "\<exists>r. classify_with_clock E ctx control clock db = Some r"
proof -
  have ends: "(classify_pages E ctx control clock boundary st after k j count db = None) = False"
    for boundary st after k j count db using classify_pages_ends [of E ctx control clock boundary st after k j count db] by simp
  show ?thesis
    unfolding classify_with_clock_def by (simp add: ends split: sum.split option.split prod.split)
qed

text \<open>C38. The startup classification ends: whatever the control answers at its checkpoints,
  whatever the clock gives, and whatever rows the database holds, the paging loops of
  the service return. Every page that asks for another one has moved past at least one command.\<close>

theorem startup_returns: "\<exists>r. classify_with_clock E ctx control clock db = Some r"
  by (rule classify_returns)

text \<open>C16. What the startup classification does, when nothing stops it, to a database an
  earlier runtime left behind: it answers the number of commands that need recovery; no
  claimed command is left; a row is kept as it is, or is a claimed row moved to recovery with
  the stable error code and the time of its page; no other table changes; and the database can
  be classified again.\<close>

theorem startup_classifies:
  assumes "startup_ready E ctx db" "\<forall>j. \<exists>at. clock j = Some at \<and> clock_ok E at" "length (commands db) < 2 ^ 64"
  shows "\<exists>db'. classify_with_clock E ctx (\<lambda>_. Continue) clock db =
      Some (Ok (of_nat (length (filter (\<lambda>r. cmd_state r = ''RECOVERY_REQUIRED'') (commands db'))), db'))
    \<and> db' = db\<lparr>commands := commands db'\<rparr> \<and> list_all2 (recovers E) (commands db) (commands db')
    \<and> (\<forall>r \<in> set (commands db'). cmd_state r \<noteq> ''CLAIMED'') \<and> startup_ready E ctx db'"
proof -
  have "claimed_rows db' = {} \<longleftrightarrow> (\<forall>r \<in> set (commands db'). cmd_state r \<noteq> ''CLAIMED'')" for db'
    by (auto simp add: claimed_rows_def)
  then show ?thesis using classify_walk [OF assms] by (auto simp add: open_after_def simp del: split_paired_Ex)
qed

text \<open>A claim that an earlier runtime did not finish.\<close>

definition sample_left :: database where
  "sample_left = empty_database\<lparr>commands :=
    [claimed_row (sample_ctx\<lparr>context_runtime_id := sample_id 201\<rparr>) (sample_command 5 ASSET_INGEST_COPY_V1) sample_at]\<rparr>"

lemma sample_left_ready: "startup_ready sample_env sample_ctx sample_left"
  using claimed_row_valid [of sample_env "sample_ctx\<lparr>context_runtime_id := sample_id 201\<rparr>"
      "sample_command 5 ASSET_INGEST_COPY_V1" sample_at] sample_clock_ok sample_id_wf
  by (simp add: startup_ready_def journal_wf_def sample_left_def left_open_def empty_database_def binding_wf_def
      sample_command_def sample_ctx_def claimed_row_def) (simp add: sample_id_def)

theorem startup_classifies_witness:
  "startup_ready sample_env sample_ctx sample_left
    \<and> (\<exists>db'. classify_with_clock sample_env sample_ctx (\<lambda>_. Continue) (\<lambda>_. Some sample_at) sample_left =
      Some (Ok (of_nat (length (filter (\<lambda>r. cmd_state r = ''RECOVERY_REQUIRED'') (commands db'))), db'))
    \<and> (\<forall>r \<in> set (commands db'). cmd_state r \<noteq> ''CLAIMED''))"
  using startup_classifies [of sample_env sample_ctx sample_left "\<lambda>_. Some sample_at"] sample_left_ready sample_clock_ok
  by (auto simp add: sample_left_def simp del: split_paired_Ex)

end
