(* ===== verification/Store_History.thy ===== *)
theory Store_History
  imports Startup
begin

text \<open>
  The store as a whole: every operation that \<open>SqliteAssetStoreHandle\<close> offers to the
  application (the trait implementations at lines 184-366 of
  \<open>crates/mengxia-store-sqlite/src/asset_repository.rs\<close> and lines 22-86 of
  \<open>crates/mengxia-store-sqlite/src/creative_repository.rs\<close>) as one step function, the life
  cycle of a command as an abstract state machine, and the refinement between the two.
  Histories interleave the operations of any number of runtimes.
\<close>

section \<open>The operations of the store\<close>

datatype store_request =
    Creative creative_request
  | CreateRevision create_asset_revision_command
  | CreateRevisionDeferred deferred_create_revision_command
  | ChangeLifecycle asset_lifecycle_command
  | ChangeLifecycleDeferred deferred_asset_lifecycle_command
  | RecordLocation record_location_command
  | ClaimExternal external_ingest_claim
  | CompleteExternal external_ingest_completion
  | FinishExternal external_ingest_disposition
  | ObserveMaterialization materialization_command
  | ClaimMaterialization materialization_transition
  | ReacquireMaterialization materialization_transition "error_code option"
  | CompleteMaterialization materialization_transition
  | FinishMaterialization materialization_finish
  | ClassifyPage startup_page_request control nat

text \<open>The database an operation commits; its answer is left out.\<close>

definition committed :: "asset_store_error + ('a \<times> database) \<Rightarrow> asset_store_error + database" where
  "committed m = and_then m (\<lambda>(_, db). Ok db)"

fun store_run :: "store_env \<Rightarrow> store_context \<Rightarrow> store_request \<Rightarrow> database \<Rightarrow> asset_store_error + database" where
  "store_run E ctx (Creative r) db = committed (execute_creative E ctx r db)"
| "store_run E ctx (CreateRevision q) db = committed (create_revision_inner E ctx q db)"
| "store_run E ctx (CreateRevisionDeferred q) db = committed (create_revision_deferred E ctx q db)"
| "store_run E ctx (ChangeLifecycle q) db = committed (change_asset_lifecycle E ctx q db)"
| "store_run E ctx (ChangeLifecycleDeferred q) db = committed (change_asset_lifecycle_deferred E ctx q db)"
| "store_run E ctx (RecordLocation q) db = committed (record_location E ctx q db)"
| "store_run E ctx (ClaimExternal q) db = committed (claim_external E ctx q db)"
| "store_run E ctx (CompleteExternal q) db = committed (complete_external E ctx q db)"
| "store_run E ctx (FinishExternal q) db = committed (finish_external E ctx q db)"
| "store_run E ctx (ObserveMaterialization q) db = and_then (observe_materialization E ctx q db) (\<lambda>_. Ok db)"
| "store_run E ctx (ClaimMaterialization t) db = claim_new_materialization ctx t db"
| "store_run E ctx (ReacquireMaterialization t expected) db = reacquire_materialization E ctx t expected db"
| "store_run E ctx (CompleteMaterialization t) db = committed (complete_materialization E ctx t db)"
| "store_run E ctx (FinishMaterialization q) db = committed (finish_materialization E ctx q db)"
| "store_run E ctx (ClassifyPage q control k) db =
    and_then (classify_startup_mutation_page E ctx q control k db) (\<lambda>(_, _, db). Ok db)"

text \<open>The requests the application can make: the constructors of the request types accepted
  them, identifiers and digests have their length, and the clock is one the store can persist.\<close>

definition external_ok :: "store_env \<Rightarrow> store_context \<Rightarrow> command_binding \<Rightarrow> timestamp \<Rightarrow> bool" where
  "external_ok E ctx b at = (binding_wf E ctx b \<and> clock_ok E at)"

fun store_ok :: "store_env \<Rightarrow> store_context \<Rightarrow> store_request \<Rightarrow> bool" where
  "store_ok E ctx (Creative r) = creative_ok E ctx r"
| "store_ok E ctx (CreateRevision q) = operation_ok E ctx (car_binding q) ASSET_REVISION_CREATE_V1 (car_operation_at q)"
| "store_ok E ctx (CreateRevisionDeferred q) = request_ok E ctx (dcr_binding q) ASSET_REVISION_CREATE_V1 (dcr_values q)"
| "store_ok E ctx (ChangeLifecycle q) = lifecycle_ok E ctx (alc_binding q) (alc_target q) (alc_operation_at q)"
| "store_ok E ctx (ChangeLifecycleDeferred q) =
    request_ok E ctx (dal_binding q) (binding_operation_id (dal_binding q)) (dal_values q)"
| "store_ok E ctx (RecordLocation q) = operation_ok E ctx (rl_binding q) BLOB_LOCATION_RECORD_V1 (rl_operation_at q)"
| "store_ok E ctx (ClaimExternal q) =
    (is_ok (external_ingest_claim_new q) \<and> external_ok E ctx (eic_binding q) (eic_claimed_at q))"
| "store_ok E ctx (CompleteExternal q) = is_ok (external_ingest_completion_new q)"
| "store_ok E ctx (FinishExternal q) =
    (is_ok (external_ingest_disposition_new q) \<and> external_ok E ctx (eid_binding q) (eid_observed_at q))"
| "store_ok E ctx (ObserveMaterialization q) = is_ok (materialization_command_new q)"
| "store_ok E ctx (ClaimMaterialization t) =
    (is_ok (materialization_command_new (mt_command t)) \<and> external_ok E ctx (mc_binding (mt_command t)) (mt_at t))"
| "store_ok E ctx (ReacquireMaterialization t expected) =
    (is_ok (materialization_command_new (mt_command t)) \<and> external_ok E ctx (mc_binding (mt_command t)) (mt_at t))"
| "store_ok E ctx (CompleteMaterialization t) = is_ok (materialization_command_new (mt_command t))"
| "store_ok E ctx (FinishMaterialization q) =
    (is_ok (materialization_finish_new q) \<and> is_ok (materialization_command_new (mt_command (mf_transition q)))
     \<and> external_ok E ctx (mc_binding (mt_command (mf_transition q))) (mt_at (mf_transition q)))"
| "store_ok E ctx (ClassifyPage q control k) = clock_ok E (spr_classified_at q)"

section \<open>The life cycle of a command\<close>

datatype phase = Absent | Claimed bytes | Recovery | Settled command_row

definition row_phase :: "command_row \<Rightarrow> phase" where
  "row_phase row =
    (if cmd_state row = ''CLAIMED'' then Claimed (cmd_runtime_id row)
     else if cmd_state row = ''RECOVERY_REQUIRED'' then Recovery
     else Settled row)"

definition phase :: "database \<Rightarrow> uuid \<Rightarrow> phase" where
  "phase db i = (case find (\<lambda>row. cmd_id row = i) (commands db) of None \<Rightarrow> Absent | Some row \<Rightarrow> row_phase row)"

text \<open>What the runtime \<open>rt\<close> may do to a command.  A settled command is final; a claim of
  another runtime is never settled, only abandoned or, after its effect has been examined,
  taken over.\<close>

inductive phase_step :: "bytes \<Rightarrow> phase \<Rightarrow> phase \<Rightarrow> bool" for rt where
  claim: "phase_step rt Absent (Claimed rt)"
| at_once: "phase_step rt Absent (Settled row)"
| settle: "phase_step rt (Claimed rt) (Settled row)"
| give_up: "phase_step rt (Claimed rt) Recovery"
| abandon: "r \<noteq> rt \<Longrightarrow> phase_step rt (Claimed r) Recovery"
| take_over: "r \<noteq> rt \<Longrightarrow> phase_step rt (Claimed r) (Claimed rt)"
| reacquire: "phase_step rt Recovery (Claimed rt)"

inductive_simps phase_step_simps [simp]:
  "phase_step rt Absent p" "phase_step rt (Claimed r) p" "phase_step rt Recovery p" "phase_step rt (Settled row) p"

section \<open>How a transaction moves a command\<close>

text \<open>A transaction keeps the journal, appends the row of a new command, or rewrites the row of
  the command it is about; the rows it writes can be read back.\<close>

inductive journal_move :: "store_env \<Rightarrow> store_context \<Rightarrow> uuid \<Rightarrow> database \<Rightarrow> database \<Rightarrow> bool" for E ctx i db db' where
  keep: "journal_move E ctx i db db'" if "commands db' = commands db"
| append: "journal_move E ctx i db db'"
    if "find (\<lambda>row. cmd_id row = i) (commands db) = None" "commands db' = commands db @ [row]" "cmd_id row = i"
      "is_ok (validate_command_row E row)" "phase_step (context_runtime_id ctx) Absent (row_phase row)"
| rewrite: "journal_move E ctx i db db'"
    if "commands db' = update_rows p f (commands db)" "\<And>r. p r \<Longrightarrow> cmd_id r = i" "\<And>r. cmd_id (f r) = cmd_id r"
      "\<And>r. r \<in> set (commands db) \<Longrightarrow> p r \<Longrightarrow> is_ok (validate_command_row E (f r))
        \<and> phase_step (context_runtime_id ctx) (row_phase r) (row_phase (f r))"

lemma update_rows_in: "r \<in> set (update_rows p f rows) \<longleftrightarrow> (\<exists>r' \<in> set rows. r = (if p r' then f r' else r'))"
  by (induction rows) auto

lemma journal_move_wf:
  assumes "journal_move E ctx i db db'" "journal_wf E db"
  shows "journal_wf E db'"
  using assms(1)
proof cases
  case keep
  then show ?thesis using assms(2) by (simp add: journal_wf_def)
next
  case (append row)
  then show ?thesis using assms(2) by (auto simp add: journal_wf_def find_None_iff)
next
  case (rewrite p f)
  have "is_ok (validate_command_row E r)" if r: "r \<in> set (commands db')" for r
  proof -
    obtain r' where "r' \<in> set (commands db)" "r = (if p r' then f r' else r')"
      using r unfolding rewrite(1) update_rows_in by blast
    then show ?thesis using rewrite(4) assms(2) by (cases "p r'") (simp_all add: journal_wf_def list_all_iff)
  qed
  moreover have "command_ids db' = command_ids db"
    unfolding rewrite(1) by (rule update_rows_command_ids [OF rewrite(3)])
  ultimately show ?thesis using assms(2) by (simp add: journal_wf_def list_all_iff)
qed

lemma journal_move_phase:
  assumes "journal_move E ctx i db db'"
  shows "phase db' j = phase db j \<or> j = i \<and> phase_step (context_runtime_id ctx) (phase db j) (phase db' j)"
  using assms
proof cases
  case keep
  then show ?thesis by (simp add: phase_def)
next
  case (append row)
  then show ?thesis by (auto simp add: phase_def find_append split: option.splits)
next
  case (rewrite p f)
  have found: "find (\<lambda>row. cmd_id row = j) (commands db') =
      map_option (\<lambda>r. if p r then f r else r) (find (\<lambda>row. cmd_id row = j) (commands db))"
    unfolding rewrite(1) by (rule find_update_rows) (simp add: rewrite(3))
  show ?thesis
  proof (cases "find (\<lambda>row. cmd_id row = j) (commands db)")
    case (Some r)
    then have "r \<in> set (commands db)" "cmd_id r = j" using find_row by fast+
    then show ?thesis using rewrite(2,4) [of r] found Some by (cases "p r") (simp_all add: phase_def)
  qed (simp add: phase_def found)
qed

lemma journal_move_ids:
  assumes "journal_move E ctx i db db'"
  shows "set (command_ids db) \<subseteq> set (command_ids db')"
  using assms
proof cases
  case (rewrite p f)
  have "command_ids db' = command_ids db" unfolding rewrite(1) by (rule update_rows_command_ids [OF rewrite(3)])
  then show ?thesis by simp
qed auto

section \<open>The operations that settle their command at once\<close>

lemma settles_moves:
  assumes "settles E ctx b kind db out db'"
  shows "journal_move E ctx (binding_command_id b) db db'"
proof -
  from assms obtain row where row: "read_command db b = None" "commands db' = commands db @ [row]"
      "binding_matches row b (owner_uid ctx)" "validate_command_row E row = Ok row"
      "cmd_state row = ''TERMINAL_REJECTED'' \<or> cmd_state row = ''COMPLETED''"
    by (auto elim!: settlesE)
  then show ?thesis
    by (intro append [where row = row]) (auto simp add: read_command_def binding_matches_def row_phase_def)
qed

context logged_command
begin

lemma run_moves:
  assumes "admissible" "run db = Ok (out, db')"
  shows "journal_move E ctx (binding_command_id b) db db'"
  using assms by (cases rule: run_cases) (auto intro: keep settles_moves)

lemma run_appends:
  assumes "run db = Ok (out, db')"
  shows "appends_events b db db'"
  using run_logged [of db] assms by (simp add: logging_def)

end

section \<open>The operations that span an effect\<close>

text \<open>A row read for a request is the only row with its identifier.\<close>

lemma only_row:
  assumes "journal_wf E db" "read_command db b = Some row" "r \<in> set (commands db)" "cmd_id r = binding_command_id b"
  shows "r = row"
proof -
  have "row \<in> set (commands db)" "cmd_id row = binding_command_id b"
    using find_row assms(2) unfolding read_command_def by fast+
  then show ?thesis using assms(1,3,4) unfolding journal_wf_def by (metis distinct_map inj_onD)
qed

lemma bound_row_ok:
  assumes "bound_row E ctx b db = Ok row"
  shows "read_command db b = Some row" "binding_matches row b (owner_uid ctx)" "validate_command_row E row = Ok row"
  using assms validate_command_row_ok by (auto simp add: bound_row_def and_then_ok_iff ok_or_ok_iff)

lemma rewrite_one:
  assumes "journal_wf E db" "read_command db b = Some row"
    and "commands db' = update_rows (\<lambda>r. cmd_id r = binding_command_id b \<and> q r) f (commands db)"
    and "\<And>r. cmd_id (f r) = cmd_id r"
    and "q row \<Longrightarrow> is_ok (validate_command_row E (f row)) \<and> phase_step (context_runtime_id ctx) (row_phase row) (row_phase (f row))"
  shows "journal_move E ctx (binding_command_id b) db db'"
proof (rule rewrite [OF assms(3)])
  fix r assume "r \<in> set (commands db)" "cmd_id r = binding_command_id b \<and> q r"
  then show "is_ok (validate_command_row E (f r)) \<and> phase_step (context_runtime_id ctx) (row_phase r) (row_phase (f r))"
    using only_row [OF assms(1,2), of r] assms(5) by simp
qed (simp_all add: assms(4))

lemma complete_command_moves:
  assumes "complete_command E b f expected db1 = Ok (out, db')" "commands db1 = commands db"
    and "journal_wf E db" "read_command db b = Some row" "owns_claim ctx row"
    and "\<And>r. cmd_id (f r) = cmd_id r" "\<And>r. cmd_state (f r) = ''COMPLETED''"
  shows "journal_move E ctx (binding_command_id b) db db'"
proof (rule rewrite_one [OF assms(3,4)])
  let ?p = "\<lambda>r. cmd_id r = binding_command_id b \<and> cmd_state r = ''CLAIMED''"
  have cmds: "commands db' = update_rows ?p f (commands db)"
    and read: "\<exists>r. read_command db' b = Some r \<and> is_ok (validate_command_row E r)"
    using assms(1,2)
    by (auto simp add: complete_command_def update_command_def and_then_ok_iff ok_or_ok_iff is_ok_iff Let_def split: if_splits)
  show "commands db' = update_rows ?p f (commands db)" by (rule cmds)
  have "read_command db' b = Some (f row)"
    using assms(4,5) find_update_rows [of "\<lambda>r. cmd_id r = binding_command_id b" f ?p "commands db"]
      find_row [of "\<lambda>r. cmd_id r = binding_command_id b" "commands db" row]
    unfolding read_command_def cmds by (simp add: assms(6) owns_claim_def)
  then show "is_ok (validate_command_row E (f row)) \<and> phase_step (context_runtime_id ctx) (row_phase row) (row_phase (f row))"
    using read assms(5,7) by (auto simp add: row_phase_def owns_claim_def)
qed (rule assms(6))

lemma claim_moves:
  assumes "insert_claim ctx b at db = Ok db'" "read_command db b = None"
    and "binding_wf E ctx b" "clock_ok E at" "external_operation (binding_operation_id b)"
  shows "journal_move E ctx (binding_command_id b) db db'"
proof (rule append [where row = "claimed_row ctx b at"])
  show "commands db' = commands db @ [claimed_row ctx b at]"
    using assms(1) insert_claim_fresh [OF assms(2), of ctx at] by auto
  show "is_ok (validate_command_row E (claimed_row ctx b at))" using claimed_row_valid [OF assms(3-5)] by simp
qed (use assms(2) in \<open>simp_all add: read_command_def claimed_row_def row_phase_def\<close>)

lemma dispose_moves:
  assumes "journal_wf E db" "read_command db b = Some row" "validate_command_row E row = Ok row"
    and "commands db' = update_rows (\<lambda>r. cmd_id r = binding_command_id b \<and> q r) (dispose_row st c at) (commands db)"
    and "cmd_state row = ''CLAIMED''" "clock_ok E at" "disposable (cmd_operation_id row) st c"
    and "cmd_runtime_id row = context_runtime_id ctx \<or> st = ''RECOVERY_REQUIRED''"
  shows "journal_move E ctx (binding_command_id b) db db'"
proof (rule rewrite_one [OF assms(1,2,4)])
  have "st = ''TERMINAL_REJECTED'' \<or> st = ''RECOVERY_REQUIRED''" using assms(7) by (auto simp add: disposable_def)
  then show "is_ok (validate_command_row E (dispose_row st c at row))
      \<and> phase_step (context_runtime_id ctx) (row_phase row) (row_phase (dispose_row st c at row))"
    using dispose_row_valid [OF assms(3,5,6,7)] assms(5,8) by (auto simp add: row_phase_def)
qed simp

lemma claim_external_moves:
  assumes "store_ok E ctx (ClaimExternal q)" "journal_wf E db" "claim_external E ctx q db = Ok (out, db')"
  shows "journal_move E ctx (binding_command_id (eic_binding q)) db db'"
proof (cases "read_command db (eic_binding q)")
  case None
  then show ?thesis
    using assms(1,3) claim_moves [of ctx "eic_binding q" "eic_claimed_at q" db db' E]
    by (auto simp add: claim_external_def external_ingest_claim_new_def external_ok_def is_ok_iff and_then_ok_iff
        require_operation_def ensure_ok_iff split: if_splits)
next
  case (Some row)
  have op: "binding_operation_id (eic_binding q) = ASSET_INGEST_COPY_V1" and "clock_ok E (eic_claimed_at q)"
    using assms(1) by (auto simp add: external_ingest_claim_new_def external_ok_def is_ok_iff and_then_ok_iff
        require_operation_def ensure_ok_iff split: if_splits)
  moreover have ex: "external_existing E ctx (eic_binding q) row (eic_claimed_at q) db = Ok (out, db')"
    using assms(3) Some by (simp add: claim_external_def)
  then have "binding_matches row (eic_binding q) (owner_uid ctx)" "validate_command_row E row = Ok row"
    using validate_command_row_ok by (auto simp add: external_existing_def and_then_ok_iff)
  moreover have "db' = db \<or> cmd_state row = ''CLAIMED'' \<and> commands db' = update_rows
      (\<lambda>r. cmd_id r = binding_command_id (eic_binding q) \<and> cmd_state r = ''CLAIMED'')
      (dispose_row ''RECOVERY_REQUIRED'' StorageConfigurationError (eic_claimed_at q)) (commands db)"
    using ex validate_command_row_ok by (auto simp add: external_existing_def and_then_ok_iff update_command_def split: if_splits)
  ultimately show ?thesis
    using dispose_moves [OF assms(2) Some] by (auto intro: keep simp add: binding_matches_def disposable_def)
qed

lemma registration_commands:
  "persist_blob E blob media at db = Ok db1 \<Longrightarrow> commands db1 = commands db"
  "persist_blob_and_location E blob i media at db = Ok (l, db2) \<Longrightarrow> commands db2 = commands db"
  "insert_registration_graph q db = Ok db3 \<Longrightarrow> commands db3 = commands db"
  "insert_registration_events q s db = Ok db4 \<Longrightarrow> commands db4 = commands db"
proof -
  show blob: "persist_blob E blob media at db = Ok db1 \<Longrightarrow> commands db1 = commands db" for db db1
    by (auto simp add: persist_blob_def and_then_ok_iff split: option.splits if_splits)
  show "persist_blob_and_location E blob i media at db = Ok (l, db2) \<Longrightarrow> commands db2 = commands db"
    by (auto simp add: persist_blob_and_location_def and_then_ok_iff dest!: blob asset_table_commands split: option.splits)
  show "insert_registration_graph q db = Ok db3 \<Longrightarrow> commands db3 = commands db"
    by (auto simp add: insert_registration_graph_def and_then_ok_iff Let_def dest!: asset_table_commands)
  show "insert_registration_events q s db = Ok db4 \<Longrightarrow> commands db4 = commands db"
    by (auto simp add: insert_registration_events_def and_then_ok_iff Let_def
        dest!: insert_domain_event_commands asset_table_commands)
qed

lemma complete_external_moves:
  assumes "journal_wf E db" "complete_external E ctx q db = Ok (out, db')"
  shows "journal_move E ctx (binding_command_id (eco_binding q)) db db'"
proof -
  obtain row where row: "bound_row E ctx (eco_binding q) db = Ok row"
    and cases: "db' = db \<or> owns_claim ctx row \<and> register_external E q db = Ok (out, db')"
    using assms(2) by (auto simp add: complete_external_def and_then_ok_iff split: if_splits)
  from cases show ?thesis
  proof
    assume "owns_claim ctx row \<and> register_external E q db = Ok (out, db')"
    moreover from this obtain db1 l where "commands db1 = commands db"
        "complete_command E (eco_binding q) (registered_row (plan_asset_id (eco_plan q)) l (eco_completed_at q))
          (\<lambda>r. case r of ManagedRegistrationResult _ _ _ _ _ _ \<Rightarrow> True | _ \<Rightarrow> False) db1 = Ok (out, db')"
      by (auto simp add: register_external_def and_then_ok_iff Let_def dest!: registration_commands allocate_commands)
    ultimately show ?thesis
      using complete_command_moves [OF _ _ assms(1) bound_row_ok(1) [OF row]] by (simp add: registered_row_def)
  qed (simp add: keep)
qed

lemma finish_external_moves:
  assumes "store_ok E ctx (FinishExternal q)" "journal_wf E db" "finish_external E ctx q db = Ok (out, db')"
  shows "journal_move E ctx (binding_command_id (eid_binding q)) db db'"
proof -
  obtain row where row: "bound_row E ctx (eid_binding q) db = Ok row"
    and cases: "db' = db \<or> owns_claim ctx row \<and> commands db' = update_rows
      (\<lambda>r. cmd_id r = binding_command_id (eid_binding q) \<and> cmd_state r = ''CLAIMED'')
      (dispose_row (disposition_state (eid_disposition q)) (disposition_code (eid_disposition q)) (eid_observed_at q)) (commands db)"
    using assms(3) by (auto simp add: finish_external_def update_command_def Let_def and_then_ok_iff split: if_splits)
  have "clock_ok E (eid_observed_at q)" "disposable (binding_operation_id (eid_binding q))
      (disposition_state (eid_disposition q)) (disposition_code (eid_disposition q))"
    using assms(1)
    by (auto simp add: external_ok_def external_ingest_disposition_new_def is_ok_iff and_then_ok_iff require_operation_def
        ensure_ok_iff disposable_def Let_def split: external_disposition.splits if_splits)
  with cases show ?thesis
    using dispose_moves [OF assms(2) bound_row_ok(1,3) [OF row]] bound_row_ok(2) [OF row]
    by (auto intro: keep simp add: binding_matches_def owns_claim_def)
qed

lemma claim_materialization_moves:
  assumes "store_ok E ctx (ClaimMaterialization t)" "claim_new_materialization ctx t db = Ok db'"
  shows "journal_move E ctx (binding_command_id (mc_binding (mt_command t))) db db'"
  using assms claim_moves [of ctx "mc_binding (mt_command t)" "mt_at t" db db' E]
  by (auto simp add: claim_new_materialization_def materialization_command_new_def external_ok_def is_ok_iff
      and_then_ok_iff require_operation_def ensure_ok_iff split: option.splits if_splits)

lemma reacquire_moves:
  assumes "store_ok E ctx (ReacquireMaterialization t expected)" "journal_wf E db"
    and "reacquire_materialization E ctx t expected db = Ok db'"
  shows "journal_move E ctx (binding_command_id (mc_binding (mt_command t))) db db'"
proof -
  let ?b = "mc_binding (mt_command t)"
  obtain row where row: "bound_row E ctx ?b db = Ok row"
    and from_state: "cmd_state row = ''CLAIMED'' \<and> cmd_runtime_id row \<noteq> context_runtime_id ctx \<or> cmd_state row = ''RECOVERY_REQUIRED''"
    and cmds: "commands db' = update_rows (\<lambda>r. cmd_id r = binding_command_id ?b \<and>
        (cmd_state r = cmd_state row \<and> cmd_runtime_id r = cmd_runtime_id row
          \<and> cmd_safe_error_code r = map_option error_code_as_str expected)) (reclaim_row ctx (mt_at t)) (commands db)"
    using assms(3)
    by (auto simp add: reacquire_materialization_def update_command_def Let_def and_then_ok_iff
        split: if_splits option.splits prod.splits)
  have ok: "clock_ok E (mt_at t)" "id_wf (env_uuid E) (context_runtime_id ctx)" "external_operation (cmd_operation_id row)"
    using assms(1) bound_row_ok(2) [OF row]
    by (auto simp add: materialization_command_new_def external_ok_def binding_wf_def is_ok_iff and_then_ok_iff
        require_operation_def ensure_ok_iff binding_matches_def split: if_splits)
  have "cmd_state row \<noteq> ''COMPLETED''" using from_state by auto
  from reclaim_row_valid [OF bound_row_ok(3) [OF row] this ok(1,3,2)]
  have "is_ok (validate_command_row E (reclaim_row ctx (mt_at t) row))
      \<and> phase_step (context_runtime_id ctx) (row_phase row) (row_phase (reclaim_row ctx (mt_at t) row))"
    using from_state by (auto simp add: row_phase_def reclaim_row_def)
  then show ?thesis
    by (intro rewrite_one [OF assms(2) bound_row_ok(1) [OF row] cmds]) (simp_all add: reclaim_row_def)
qed

lemma complete_materialization_moves:
  assumes "journal_wf E db" "complete_materialization E ctx t db = Ok (out, db')"
  shows "journal_move E ctx (binding_command_id (mc_binding (mt_command t))) db db'"
proof -
  let ?b = "mc_binding (mt_command t)" and ?f = "materialized_row (mc_asset_revision_id (mt_command t)) (mt_at t)"
  obtain row where row: "bound_row E ctx ?b db = Ok row" "owns_claim ctx row"
    and cmds: "commands db' = update_rows (\<lambda>r. cmd_id r = binding_command_id ?b \<and> owns_claim ctx r) ?f (commands db)"
    and read: "\<exists>r. read_command db' ?b = Some r \<and> is_ok (validate_command_row E r)"
    using assms(2)
    by (auto simp add: complete_materialization_def update_command_def Let_def and_then_ok_iff ok_or_ok_iff is_ok_iff
        split: if_splits)
  have "read_command db' ?b = Some (?f row)"
    using bound_row_ok(1) [OF row(1)] row(2) find_update_rows [of "\<lambda>r. cmd_id r = binding_command_id ?b" ?f
        "\<lambda>r. cmd_id r = binding_command_id ?b \<and> owns_claim ctx r" "commands db"]
      find_row [of "\<lambda>r. cmd_id r = binding_command_id ?b" "commands db" row]
    unfolding read_command_def cmds by (simp add: materialized_row_def)
  with read row(2) have "is_ok (validate_command_row E (?f row))
      \<and> phase_step (context_runtime_id ctx) (row_phase row) (row_phase (?f row))"
    by (auto simp add: row_phase_def owns_claim_def materialized_row_def)
  then show ?thesis
    by (intro rewrite_one [OF assms(1) bound_row_ok(1) [OF row(1)] cmds]) (simp_all add: materialized_row_def)
qed

lemma finish_materialization_moves:
  assumes "store_ok E ctx (FinishMaterialization q)" "journal_wf E db" "finish_materialization E ctx q db = Ok (out, db')"
  shows "journal_move E ctx (binding_command_id (mc_binding (mt_command (mf_transition q)))) db db'"
proof -
  let ?b = "mc_binding (mt_command (mf_transition q))" and ?at = "mt_at (mf_transition q)"
  obtain row where row: "bound_row E ctx ?b db = Ok row"
    and cases: "db' = db \<or> owns_claim ctx row \<and> commands db' = update_rows
      (\<lambda>r. cmd_id r = binding_command_id ?b \<and> owns_claim ctx r)
      (dispose_row (disposition_state (mf_disposition q)) (disposition_code (mf_disposition q)) ?at) (commands db)"
    using assms(3) by (auto simp add: finish_materialization_def update_command_def Let_def and_then_ok_iff split: if_splits)
  have "clock_ok E ?at" "disposable (binding_operation_id ?b) (disposition_state (mf_disposition q)) (disposition_code (mf_disposition q))"
    using assms(1)
    by (auto simp add: external_ok_def materialization_command_new_def materialization_finish_new_def is_ok_iff
        and_then_ok_iff require_operation_def ensure_ok_iff disposable_def Let_def
        split: external_disposition.splits if_splits)
  with cases show ?thesis
    using dispose_moves [OF assms(2) bound_row_ok(1,3) [OF row]] bound_row_ok(2) [OF row]
    by (auto intro: keep simp add: binding_matches_def owns_claim_def)
qed

section \<open>The startup page\<close>

text \<open>A page only abandons claims of other runtimes.\<close>

definition abandons :: "store_env \<Rightarrow> store_context \<Rightarrow> database \<Rightarrow> database \<Rightarrow> bool" where
  "abandons E ctx db db' =
    (journal_wf E db' \<and> event_log db' = event_log db \<and> command_ids db' = command_ids db
     \<and> (\<forall>j. phase db' j = phase db j
         \<or> (\<exists>r. r \<noteq> context_runtime_id ctx \<and> phase db j = Claimed r \<and> phase db' j = Recovery)))"

lemma abandons_refl: "journal_wf E db \<Longrightarrow> abandons E ctx db db"
  by (simp add: abandons_def)

lemma abandons_trans: "abandons E ctx db db1 \<Longrightarrow> abandons E ctx db1 db2 \<Longrightarrow> abandons E ctx db db2"
  unfolding abandons_def by (metis phase.distinct(9))

lemma find_member:
  assumes "journal_wf E db" "row \<in> set (commands db)"
  shows "find (\<lambda>r. cmd_id r = cmd_id row) (commands db) = Some row"
proof -
  have "find (\<lambda>r. cmd_id r = cmd_id row) rows = Some row" if "distinct (map cmd_id rows)" "row \<in> set rows" for rows
    using that by (induction rows) (auto simp add: rev_image_eqI)
  then show ?thesis using assms by (simp add: journal_wf_def)
qed

lemma classify_row_abandons:
  assumes "classify_row E ctx q row n db = Ok (n', db')" "journal_wf E db" "clock_ok E (spr_classified_at q)"
    and row: "row \<in> set (commands db)"
  shows "abandons E ctx db db' \<and> set (commands db) - {row} \<subseteq> set (commands db')"
proof -
  let ?p = "\<lambda>r. cmd_id r = cmd_id row \<and> cmd_state r = ''CLAIMED'' \<and> cmd_runtime_id r = cmd_runtime_id row"
  let ?f = "dispose_row ''RECOVERY_REQUIRED'' StorageConfigurationError (spr_classified_at q)"
  have "db' = db \<or> cmd_state row = ''CLAIMED'' \<and> cmd_runtime_id row \<noteq> context_runtime_id ctx
      \<and> validate_command_row E row = Ok row \<and> external_operation (cmd_operation_id row)
      \<and> db' = db\<lparr>commands := update_rows ?p ?f (commands db)\<rparr>"
    using assms(1)
    by (auto simp add: classify_row_def and_then_ok_iff update_command_def Let_def
        dest: validate_command_row_ok split: if_splits startup_mutation_state.splits option.splits)
  then consider (kept) "db' = db" | (moved) "cmd_state row = ''CLAIMED''" "cmd_runtime_id row \<noteq> context_runtime_id ctx"
      "validate_command_row E row = Ok row" "external_operation (cmd_operation_id row)"
      "db' = db\<lparr>commands := update_rows ?p ?f (commands db)\<rparr>" by blast
  then show ?thesis
  proof cases
    case kept
    then show ?thesis using assms(2) by (auto simp add: abandons_refl)
  next
    case moved
    note found = find_member [OF assms(2) row]
    have only: "r = row" if "r \<in> set (commands db)" "cmd_id r = cmd_id row" for r
      using find_member [OF assms(2) that(1)] found that(2) by (metis option.inject)
    have "disposable (cmd_operation_id row) ''RECOVERY_REQUIRED'' StorageConfigurationError"
      using moved(4) by (auto simp add: disposable_def)
    from dispose_row_valid [OF moved(3,1) assms(3) this]
    have changed: "is_ok (validate_command_row E (?f row)) \<and> phase_step (context_runtime_id ctx) (row_phase row) (row_phase (?f row))"
      using moved(1,2) by (simp add: row_phase_def)
    have move: "journal_move E ctx (cmd_id row) db db'"
    proof (rule rewrite [of db' ?p ?f])
      fix r assume "r \<in> set (commands db)" "?p r"
      then show "is_ok (validate_command_row E (?f r)) \<and> phase_step (context_runtime_id ctx) (row_phase r) (row_phase (?f r))"
        using only [of r] changed by simp
    qed (simp_all add: moved(5))
    have "phase db (cmd_id row) = Claimed (cmd_runtime_id row)" using found moved(1) by (simp add: phase_def row_phase_def)
    moreover have "phase db' (cmd_id row) = Recovery"
      using found moved find_update_rows [of "\<lambda>r. cmd_id r = cmd_id row" ?f ?p "commands db"]
      by (simp add: phase_def row_phase_def)
    ultimately have "phase db' j = phase db j
        \<or> (\<exists>r. r \<noteq> context_runtime_id ctx \<and> phase db j = Claimed r \<and> phase db' j = Recovery)" for j
      using journal_move_phase [OF move, of j] moved(2) by (cases "j = cmd_id row") simp_all
    then have "abandons E ctx db db'"
      using journal_move_wf [OF move assms(2)] moved(5) by (simp add: abandons_def event_log_def update_rows_command_ids)
    moreover have "set (commands db) - {row} \<subseteq> set (commands db')"
    proof
      fix r assume "r \<in> set (commands db) - {row}"
      then show "r \<in> set (commands db')" using only [of r] moved(5) by (force simp add: update_rows_in)
    qed
    ultimately show ?thesis by blast
  qed
qed

lemma classify_rows_abandons:
  assumes "classify_rows E ctx q control rows k n l db = Ok (k', n', l', db')" "journal_wf E db"
    and "clock_ok E (spr_classified_at q)" "set rows \<subseteq> set (commands db)" "distinct rows"
  shows "abandons E ctx db db'"
  using assms
proof (induction rows arbitrary: k n l db)
  case (Cons row rows)
  then obtain k1 n1 db1 where row: "classify_row E ctx q row n db = Ok (n1, db1)"
    and rest: "classify_rows E ctx q control rows k1 n1 (Some (cmd_id row)) db1 = Ok (k', n', l', db')"
    by (auto simp add: and_then_ok_iff)
  have step: "abandons E ctx db db1" "set rows \<subseteq> set (commands db1)"
    using classify_row_abandons [OF row Cons.prems(2,3)] Cons.prems(4,5) by auto
  then have "journal_wf E db1" by (simp add: abandons_def)
  from Cons.IH [OF rest this Cons.prems(3) step(2)] Cons.prems(5) step(1) show ?case
    using abandons_trans by auto
qed (simp add: abandons_refl)

lemma page_abandons:
  assumes "classify_startup_mutation_page E ctx q control k db = Ok (page, k', db')" "journal_wf E db"
    and "clock_ok E (spr_classified_at q)"
  shows "abandons E ctx db db'"
  using assms(1)
proof (cases rule: page_cases)
  case (rows boundary k1 k2 n last_id)
  let ?rows = "page_rows (state_text (spr_state q)) boundary (spr_after q) db"
  have "distinct (commands db)" using assms(2) by (simp add: journal_wf_def distinct_map)
  then have "distinct ?rows" by (simp add: page_rows_def)
  then show ?thesis using classify_rows_abandons [OF rows(2) assms(2,3)] page_rows_commands by blast
qed (use assms(2) in \<open>simp add: abandons_refl\<close>)

section \<open>Every operation refines the life cycle\<close>

fun request_binding :: "store_request \<Rightarrow> command_binding option" where
  "request_binding (Creative r) = Some (creative_binding r)"
| "request_binding (CreateRevision q) = Some (car_binding q)"
| "request_binding (CreateRevisionDeferred q) = Some (dcr_binding q)"
| "request_binding (ChangeLifecycle q) = Some (alc_binding q)"
| "request_binding (ChangeLifecycleDeferred q) = Some (dal_binding q)"
| "request_binding (RecordLocation q) = Some (rl_binding q)"
| "request_binding (ClaimExternal q) = Some (eic_binding q)"
| "request_binding (CompleteExternal q) = Some (eco_binding q)"
| "request_binding (FinishExternal q) = Some (eid_binding q)"
| "request_binding (ObserveMaterialization q) = Some (mc_binding q)"
| "request_binding (ClaimMaterialization t) = Some (mc_binding (mt_command t))"
| "request_binding (ReacquireMaterialization t _) = Some (mc_binding (mt_command t))"
| "request_binding (CompleteMaterialization t) = Some (mc_binding (mt_command t))"
| "request_binding (FinishMaterialization q) = Some (mc_binding (mt_command (mf_transition q)))"
| "request_binding (ClassifyPage _ _ _) = None"

lemma committed_ok_iff [simp]: "committed m = Ok db' \<longleftrightarrow> (\<exists>out. m = Ok (out, db'))"
  by (auto simp add: committed_def and_then_ok_iff)

lemma record_location_ok:
  "record_location E ctx q db = Ok (out, db') \<Longrightarrow> record_location_transaction E ctx q db = Ok (out, db')"
  by (auto simp add: record_location_def and_then_ok_iff)

lemmas operation_moves =
  creative_log.run_moves revision_creation_log.run_moves deferred_revision_creation_log.run_moves
  lifecycle_change_log.run_moves deferred_lifecycle_change_log.run_moves location_recording_log.run_moves
  claim_external_moves complete_external_moves finish_external_moves claim_materialization_moves reacquire_moves
  complete_materialization_moves finish_materialization_moves

lemma store_run_moves:
  assumes "store_ok E ctx r" "journal_wf E db" "store_run E ctx r db = Ok db'" "request_binding r = Some b"
  shows "journal_move E ctx (binding_command_id b) db db'"
  using assms
  by (cases r) (auto intro: operation_moves keep dest: record_location_ok simp add: and_then_ok_iff)

lemma store_run_page:
  assumes "store_ok E ctx r" "journal_wf E db" "store_run E ctx r db = Ok db'" "request_binding r = None"
  shows "abandons E ctx db db'"
  using assms page_abandons by (cases r) (auto simp add: and_then_ok_iff)

lemma store_run_phase:
  assumes "store_ok E ctx r" "journal_wf E db" "store_run E ctx r db = Ok db'"
  shows "phase db' i = phase db i \<or>
    (\<forall>b. request_binding r = Some b \<longrightarrow> i = binding_command_id b)
      \<and> phase_step (context_runtime_id ctx) (phase db i) (phase db' i)"
proof (cases "request_binding r")
  case None
  show ?thesis
    using store_run_page [OF assms None] None unfolding abandons_def by (auto dest!: spec [of _ i])
next
  case (Some b)
  show ?thesis using journal_move_phase [OF store_run_moves [OF assms Some], of i] Some by auto
qed

section \<open>The ledger\<close>

lemma registration_log:
  "persist_blob E blob media at db = Ok db1 \<Longrightarrow> event_log db1 = event_log db"
  "persist_blob_and_location E blob i media at db = Ok (l, db2) \<Longrightarrow> event_log db2 = event_log db"
  "insert_registration_graph q db = Ok db3 \<Longrightarrow> event_log db3 = event_log db"
proof -
  show blob: "persist_blob E blob media at db = Ok db1 \<Longrightarrow> event_log db1 = event_log db" for db db1
    by (auto simp add: persist_blob_def and_then_ok_iff blobs_log split: option.splits if_splits)
  show "persist_blob_and_location E blob i media at db = Ok (l, db2) \<Longrightarrow> event_log db2 = event_log db"
    by (auto simp add: persist_blob_and_location_def and_then_ok_iff dest!: blob asset_table_log split: option.splits)
  show "insert_registration_graph q db = Ok db3 \<Longrightarrow> event_log db3 = event_log db"
    by (auto simp add: insert_registration_graph_def and_then_ok_iff Let_def dest!: asset_table_log)
      (simp add: event_log_def)
qed

lemma registration_events_log:
  assumes "insert_registration_events q s db1 = Ok db2" "event_log db1 = (fst (event_log db), snd (event_log db) + 1)"
    and "s = snd (event_log db) + 1"
  shows "appends_events (eco_binding q) db db2"
  using assms
  by (auto simp add: insert_registration_events_def and_then_ok_iff Let_def appends_iff
      dest!: insert_domain_event_log asset_table_log)

lemma complete_external_appends:
  assumes "complete_external E ctx q db = Ok (out, db')"
  shows "appends_events (eco_binding q) db db'"
proof -
  have "logging (eco_binding q) db (register_external E q db)"
    unfolding register_external_def Let_def
    by (auto intro!: logging_rules logging_complete_command registration_events_log dest!: registration_log allocate_log
        split: prod.splits)
  then show ?thesis
    using assms by (auto simp add: complete_external_def and_then_ok_iff logging_def appends_none split: if_splits)
qed

lemma claim_log: "insert_claim ctx b at db = Ok db' \<Longrightarrow> event_log db' = event_log db"
  by (auto simp add: insert_claim_def and_then_ok_iff event_log_def)

lemma commands_log: "event_log (db\<lparr>commands := rows\<rparr>) = event_log db"
  by (simp add: event_log_def)

lemma external_log:
  "claim_external E ctx q1 db = Ok (out1, db') \<Longrightarrow> event_log db' = event_log db"
  "finish_external E ctx q2 db = Ok (out2, db') \<Longrightarrow> event_log db' = event_log db"
  "claim_new_materialization ctx t db = Ok db' \<Longrightarrow> event_log db' = event_log db"
  "reacquire_materialization E ctx t expected db = Ok db' \<Longrightarrow> event_log db' = event_log db"
  "complete_materialization E ctx t db = Ok (out3, db') \<Longrightarrow> event_log db' = event_log db"
  "finish_materialization E ctx q3 db = Ok (out2, db') \<Longrightarrow> event_log db' = event_log db"
proof -
  show "claim_external E ctx q1 db = Ok (out1, db') \<Longrightarrow> event_log db' = event_log db"
    by (auto simp add: claim_external_def external_existing_def and_then_ok_iff update_command_def commands_log
        split: option.splits if_splits dest!: claim_log)
  show "finish_external E ctx q2 db = Ok (out2, db') \<Longrightarrow> event_log db' = event_log db"
    by (auto simp add: finish_external_def and_then_ok_iff update_command_def commands_log Let_def split: if_splits)
  show "claim_new_materialization ctx t db = Ok db' \<Longrightarrow> event_log db' = event_log db"
    by (auto simp add: claim_new_materialization_def split: option.splits dest!: claim_log)
  show "reacquire_materialization E ctx t expected db = Ok db' \<Longrightarrow> event_log db' = event_log db"
    by (auto simp add: reacquire_materialization_def and_then_ok_iff update_command_def commands_log Let_def split: if_splits)
  show "complete_materialization E ctx t db = Ok (out3, db') \<Longrightarrow> event_log db' = event_log db"
    by (auto simp add: complete_materialization_def and_then_ok_iff update_command_def commands_log Let_def split: if_splits)
  show "finish_materialization E ctx q3 db = Ok (out2, db') \<Longrightarrow> event_log db' = event_log db"
    by (auto simp add: finish_materialization_def and_then_ok_iff update_command_def commands_log Let_def split: if_splits)
qed

lemma ledger_move:
  assumes "ledger_wf E db" "journal_move E ctx i db db'" "appends_events b db db'"
    and "event_log db' = event_log db \<or> binding_command_id b \<in> set (command_ids db)"
  shows "ledger_wf E db'"
proof -
  define ids where "ids = set (command_ids db)"
  have "snd ` set (fst (event_log db)) \<subseteq> ids"
    using assms(1) unfolding ledger_wf_def events_journalled_log ids_def by blast
  then have "snd ` set (fst (event_log db')) \<subseteq> ids"
    using assms(3,4) [folded ids_def] unfolding appends_iff by (elim disjE) auto
  then have "events_journalled db'"
    using journal_move_ids [OF assms(2)] unfolding events_journalled_log ids_def by blast
  then show ?thesis
    using assms(1) journal_move_wf [OF assms(2)] appends_gap_free [OF assms(3)] by (simp add: ledger_wf_def)
qed

lemma abandons_ledger:
  assumes "abandons E ctx db db'" "ledger_wf E db"
  shows "ledger_wf E db'"
  using assms appends_gap_free [OF appends_none, of db' db]
  unfolding ledger_wf_def abandons_def events_journalled_log by simp

lemma store_run_ledger:
  assumes "store_ok E ctx r" "ledger_wf E db" "store_run E ctx r db = Ok db'"
  shows "ledger_wf E db'"
proof -
  have wf: "journal_wf E db" using assms(2) by (simp add: ledger_wf_def)
  have kept: "ledger_wf E db'" if "event_log db' = event_log db" "request_binding r = Some b" for b
    using ledger_move [OF assms(2) store_run_moves [OF assms(1) wf assms(3) that(2)] appends_none [OF that(1)]] that(1) by simp
  show ?thesis
  proof (cases r)
    case (CompleteExternal q)
    then obtain out where run: "complete_external E ctx q db = Ok (out, db')" using assms(3) by auto
    then obtain row where "read_command db (eco_binding q) = Some row"
      using bound_row_ok by (auto simp add: complete_external_def and_then_ok_iff)
    then have "binding_command_id (eco_binding q) \<in> set (command_ids db)"
      using read_command_None [of db "eco_binding q"] by auto
    then show ?thesis
      using ledger_move [OF assms(2) complete_external_moves [OF wf run] complete_external_appends [OF run]] by blast
  next
    case (ClassifyPage q control k)
    then show ?thesis using store_run_page [OF assms(1) wf assms(3)] abandons_ledger assms(2) by simp
  next
    case (Creative q)
    then show ?thesis using assms creative_log.run_ledger by auto
  next
    case (CreateRevision q)
    then show ?thesis using assms revision_creation_log.run_ledger by auto
  next
    case (CreateRevisionDeferred q)
    then show ?thesis using assms deferred_revision_creation_log.run_ledger by auto
  next
    case (ChangeLifecycle q)
    then show ?thesis using assms lifecycle_change_log.run_ledger by auto
  next
    case (ChangeLifecycleDeferred q)
    then show ?thesis using assms deferred_lifecycle_change_log.run_ledger by auto
  next
    case (RecordLocation q)
    then show ?thesis using assms by (auto intro: location_recording_log.run_ledger dest!: record_location_ok)
  next
    case (ClaimExternal q)
    then show ?thesis using assms(3) external_log(1) by (intro kept) auto
  next
    case (FinishExternal q)
    then show ?thesis using assms(3) external_log(2) by (intro kept) auto
  next
    case (ClaimMaterialization t)
    then show ?thesis using assms(3) external_log(3) by (intro kept) auto
  next
    case (ReacquireMaterialization t expected)
    then show ?thesis using assms(3) external_log(4) by (intro kept) auto
  next
    case (CompleteMaterialization t)
    then show ?thesis using assms(3) external_log(5) by (intro kept) auto
  next
    case (FinishMaterialization q)
    then show ?thesis using assms(3) external_log(6) by (intro kept) auto
  next
    case (ObserveMaterialization q)
    then show ?thesis using assms(2,3) by (auto simp add: and_then_ok_iff)
  qed
qed

section \<open>Histories\<close>

text \<open>One committed operation of some runtime.\<close>

inductive store_step :: "store_env \<Rightarrow> database \<Rightarrow> database \<Rightarrow> bool" for E where
  commits: "store_step E db db'" if "store_ok E ctx r" "store_run E ctx r db = Ok db'"

inductive_cases store_stepE: "store_step E db db'"

lemma store_step_ledger: "store_step E db db' \<Longrightarrow> ledger_wf E db \<Longrightarrow> ledger_wf E db'"
  by (blast elim!: store_stepE intro: store_run_ledger)

lemma store_step_settled:
  assumes "store_step E db db'" "journal_wf E db" "phase db i = Settled row"
  shows "phase db' i = Settled row"
  using assms(1)
proof cases
  case (commits ctx r)
  then show ?thesis using store_run_phase [OF commits(1) assms(2) commits(2), of i] assms(3) by auto
qed

lemma store_history_ledger: "(store_step E)\<^sup>*\<^sup>* db db' \<Longrightarrow> ledger_wf E db \<Longrightarrow> ledger_wf E db'"
  by (induction rule: rtranclp_induct) (blast dest: store_step_ledger)+

lemma store_history_settled:
  "(store_step E)\<^sup>*\<^sup>* db db' \<Longrightarrow> ledger_wf E db \<Longrightarrow> phase db i = Settled row \<Longrightarrow> phase db' i = Settled row"
proof (induction rule: rtranclp_induct)
  case (step db1 db2)
  moreover have "journal_wf E db1" using store_history_ledger step by (auto simp add: ledger_wf_def)
  ultimately show ?case using store_step_settled by blast
qed

lemma reacquire_recovery:
  assumes "journal_wf E db" "read_command db b = Some row" "binding_matches row b (owner_uid ctx)"
    and "cmd_state row = ''RECOVERY_REQUIRED''" "cmd_safe_error_code row = Some (error_code_as_str c)"
    and "is_materialization_recovery_code c" "mc_binding (mt_command t) = b"
  shows "\<exists>db'. reacquire_materialization E ctx t (Some c) db = Ok db'
    \<and> phase db' (binding_command_id b) = Claimed (context_runtime_id ctx)"
proof -
  let ?p = "\<lambda>r. cmd_id r = binding_command_id b \<and> cmd_state r = ''RECOVERY_REQUIRED''
      \<and> cmd_runtime_id r = cmd_runtime_id row \<and> cmd_safe_error_code r = Some (error_code_as_str c)"
  let ?db = "db\<lparr>commands := update_rows ?p (reclaim_row ctx (mt_at t)) (commands db)\<rparr>"
  have row: "row \<in> set (commands db)" "cmd_id row = binding_command_id b"
    using find_row assms(2) unfolding read_command_def by fast+
  then have "validate_command_row E row = Ok row"
    using assms(1) validate_command_row_ok by (fastforce simp add: journal_wf_def list_all_iff is_ok_iff)
  then have "bound_row E ctx b db = Ok row" using assms(2,3) by (simp add: bound_row_def)
  moreover have "count_rows ?p (commands db) = 1"
    using update_one(1) [of "commands db" row ?p] assms(1,4,5) row by (simp add: journal_wf_def)
  moreover have "parse_safe_code row = Ok c" using assms(5) by (simp add: parse_safe_code_def)
  ultimately have "reacquire_materialization E ctx t (Some c) db = Ok ?db"
    using assms(4-7) by (simp add: reacquire_materialization_def update_command_def Let_def)
  moreover have "find (\<lambda>r. cmd_id r = binding_command_id b) (commands ?db) = Some (reclaim_row ctx (mt_at t) row)"
    using assms(2,4,5) row(2) find_update_rows [of "\<lambda>r. cmd_id r = binding_command_id b" "reclaim_row ctx (mt_at t)" ?p]
    by (simp add: read_command_def reclaim_row_def)
  ultimately show ?thesis by (simp add: phase_def row_phase_def reclaim_row_def)
qed

section \<open>A sample history\<close>

text \<open>A claim on a copy, its rejection, and a second claim.\<close>

definition sample_claim :: "nat \<Rightarrow> store_request" where
  "sample_claim n = ClaimExternal \<lparr>eic_binding = sample_command n ASSET_INGEST_COPY_V1, eic_claimed_at = sample_at\<rparr>"

definition sample_reject :: store_request where
  "sample_reject = FinishExternal \<lparr>eid_binding = sample_command 5 ASSET_INGEST_COPY_V1,
     eid_disposition = DispositionRejected ValidationError, eid_observed_at = sample_at\<rparr>"

definition sample_claimed :: database where
  "sample_claimed = empty_database\<lparr>commands := [claimed_row sample_ctx (sample_command 5 ASSET_INGEST_COPY_V1) sample_at]\<rparr>"

definition sample_rejected :: database where
  "sample_rejected = empty_database\<lparr>commands := [dispose_row ''TERMINAL_REJECTED'' ValidationError sample_at
     (claimed_row sample_ctx (sample_command 5 ASSET_INGEST_COPY_V1) sample_at)]\<rparr>"

lemma sample_command_wf: "binding_wf sample_env sample_ctx (sample_command n operation)"
  using sample_id_wf by (simp add: binding_wf_def sample_command_def sample_ctx_def)

lemma sample_command_simps [simp]:
  "binding_command_id (sample_command n operation) = sample_id n"
  "binding_operation_id (sample_command n operation) = operation"
  by (simp_all add: sample_command_def)

lemma sample_requests_ok: "store_ok sample_env sample_ctx (sample_claim n)" "store_ok sample_env sample_ctx sample_reject"
  using sample_command_wf sample_clock_ok
  by (simp_all add: sample_claim_def sample_reject_def external_ok_def external_ingest_claim_new_def
      external_ingest_disposition_new_def require_operation_def)

lemma sample_row_valid: "validate_command_row sample_env (claimed_row sample_ctx (sample_command n ASSET_INGEST_COPY_V1) sample_at) =
    Ok (claimed_row sample_ctx (sample_command n ASSET_INGEST_COPY_V1) sample_at)"
  using sample_command_wf sample_clock_ok by (intro claimed_row_valid) simp_all

lemma sample_claims: "store_run sample_env sample_ctx (sample_claim 5) empty_database = Ok sample_claimed"
  by (simp add: sample_claim_def sample_claimed_def claim_external_def empty_database_def read_command_def insert_claim_def
      insert_row_def committed_def)

lemma sample_rejects: "store_run sample_env sample_ctx sample_reject sample_claimed = Ok sample_rejected"
  using sample_row_valid [of 5]
  by (simp add: sample_reject_def sample_claimed_def sample_rejected_def finish_external_def bound_row_def read_command_def
      owns_claim_def update_command_def committed_def Let_def binding_matches_def)
    (simp add: claimed_row_def sample_command_def sample_ctx_def update_command_def)

lemma sample_claims_again:
  "store_run sample_env sample_ctx (sample_claim 6) sample_rejected =
    Ok (sample_rejected\<lparr>commands := commands sample_rejected @ [claimed_row sample_ctx (sample_command 6 ASSET_INGEST_COPY_V1) sample_at]\<rparr>)"
proof -
  have fresh: "read_command sample_rejected (sample_command 6 ASSET_INGEST_COPY_V1) = None"
    by (simp add: sample_rejected_def read_command_def claimed_row_def) (simp add: sample_id_def)
  show ?thesis by (simp add: sample_claim_def claim_external_def fresh insert_claim_fresh [OF fresh])
qed

lemma sample_claimed_wf: "ledger_wf sample_env sample_claimed"
  using store_run_ledger [OF sample_requests_ok(1) empty_wf sample_claims] .

lemma sample_rejected_wf: "ledger_wf sample_env sample_rejected"
  using store_run_ledger [OF sample_requests_ok(2) sample_claimed_wf sample_rejects] .

lemma ledger_journal: "ledger_wf E db \<Longrightarrow> journal_wf E db"
  by (simp add: ledger_wf_def)

section \<open>Properties of the store\<close>

text \<open>C1. Every operation the store offers implements the life cycle of commands: when it commits, each
  command of the journal has kept its phase or has made one permitted step, on behalf of the
  runtime that runs the operation; and an operation with a command of its own moves no other.\<close>

theorem store_refines_life_cycle:
  assumes "store_ok E ctx r" "journal_wf E db" "store_run E ctx r db = Ok db'"
  shows "phase db' i = phase db i \<or>
    (\<forall>b. request_binding r = Some b \<longrightarrow> i = binding_command_id b)
      \<and> phase_step (context_runtime_id ctx) (phase db i) (phase db' i)"
  using assms by (rule store_run_phase)

theorem store_refines_life_cycle_witness:
  "phase empty_database (sample_id 5) = Absent \<and> phase sample_claimed (sample_id 5) = Claimed (sample_id 200)
    \<and> phase_step (sample_id 200) (phase empty_database (sample_id 5)) (phase sample_claimed (sample_id 5))"
proof -
  have "phase empty_database (sample_id 5) = Absent" by (simp add: phase_def empty_database_def)
  moreover have "phase sample_claimed (sample_id 5) = Claimed (sample_id 200)"
    by (simp add: phase_def row_phase_def sample_claimed_def claimed_row_def sample_ctx_def)
  ultimately show ?thesis
    using store_refines_life_cycle [OF sample_requests_ok(1) ledger_journal [OF empty_wf] sample_claims, of "sample_id 5"]
    by (simp add: sample_ctx_def)
qed

text \<open>C5. Along every history of the store, whatever operations of whatever runtimes it
  interleaves, the journal stays readable and free of duplicate ids, the commit sequences of
  the event log are 1, 2, 3, ... without a gap, and each event belongs to a journalled command.\<close>

theorem store_history_keeps_ledger:
  assumes "(store_step E)\<^sup>*\<^sup>* db db'" "ledger_wf E db"
  shows "ledger_wf E db'"
  using assms by (rule store_history_ledger)

theorem store_history_keeps_ledger_witness:
  "(store_step sample_env)\<^sup>*\<^sup>* empty_database sample_rejected \<and> ledger_wf sample_env sample_rejected"
proof -
  have "store_step sample_env empty_database sample_claimed" "store_step sample_env sample_claimed sample_rejected"
    using sample_requests_ok sample_claims sample_rejects by (blast intro: commits)+
  then have "(store_step sample_env)\<^sup>*\<^sup>* empty_database sample_rejected" by simp
  then show ?thesis using store_history_keeps_ledger [OF _ empty_wf] by blast
qed

text \<open>C7. A command is settled once: after it has been completed or rejected, no later operation of
  any runtime changes its row.\<close>

theorem settled_for_good:
  assumes "(store_step E)\<^sup>*\<^sup>* db db'" "ledger_wf E db" "phase db i = Settled row"
  shows "phase db' i = Settled row"
  using assms by (rule store_history_settled)

theorem settled_for_good_witness:
  "\<exists>db' row. store_step sample_env sample_rejected db' \<and> db' \<noteq> sample_rejected
    \<and> phase sample_rejected (sample_id 5) = Settled row \<and> phase db' (sample_id 5) = Settled row"
proof -
  let ?db = "sample_rejected\<lparr>commands := commands sample_rejected @ [claimed_row sample_ctx (sample_command 6 ASSET_INGEST_COPY_V1) sample_at]\<rparr>"
  obtain row where row: "phase sample_rejected (sample_id 5) = Settled row"
    by (simp add: phase_def row_phase_def sample_rejected_def claimed_row_def)
  have step: "store_step sample_env sample_rejected ?db" using sample_requests_ok(1) sample_claims_again by (rule commits)
  then have "(store_step sample_env)\<^sup>*\<^sup>* sample_rejected ?db" by (rule r_into_rtranclp)
  from settled_for_good [OF this sample_rejected_wf row] have "phase ?db (sample_id 5) = Settled row" .
  moreover have "commands ?db \<noteq> commands sample_rejected" by simp
  then have "?db \<noteq> sample_rejected" by metis
  ultimately show ?thesis using step row by blast
qed



text \<open>C20. A materialization that needs recovery is never stuck: a later runtime that presents the
  same request and the recorded code gets the claim.\<close>

theorem recovery_reacquirable:
  assumes "journal_wf E db" "read_command db b = Some row" "binding_matches row b (owner_uid ctx)"
    and "cmd_state row = ''RECOVERY_REQUIRED''" "cmd_safe_error_code row = Some (error_code_as_str c)"
    and "is_materialization_recovery_code c" "mc_binding (mt_command t) = b"
  shows "\<exists>db'. reacquire_materialization E ctx t (Some c) db = Ok db'
    \<and> phase db' (binding_command_id b) = Claimed (context_runtime_id ctx)"
  using assms by (rule reacquire_recovery)

definition sample_recovery :: command_row where
  "sample_recovery = dispose_row ''RECOVERY_REQUIRED'' StorageConfigurationError sample_at
     (claimed_row sample_ctx (sample_command 5 ASSET_MATERIALIZE_V1) sample_at)"

definition sample_transition_mat :: materialization_transition where
  "sample_transition_mat = \<lparr>mt_command = \<lparr>mc_binding = sample_command 5 ASSET_MATERIALIZE_V1, mc_asset_id = sample_id 30,
     mc_asset_revision_id = sample_id 31, mc_representation_id = sample_id 33, mc_resource_id = sample_id 34,
     mc_member_ordinal = 0\<rparr>, mt_at = sample_at\<rparr>"

theorem recovery_reacquirable_witness:
  "\<exists>db'. reacquire_materialization sample_env (sample_ctx\<lparr>context_runtime_id := sample_id 201\<rparr>) sample_transition_mat
      (Some StorageConfigurationError) (empty_database\<lparr>commands := [sample_recovery]\<rparr>) = Ok db'
    \<and> phase db' (sample_id 5) = Claimed (sample_id 201)"
proof -
  let ?b = "sample_command 5 ASSET_MATERIALIZE_V1" and ?db = "empty_database\<lparr>commands := [sample_recovery]\<rparr>"
  have "validate_command_row sample_env (claimed_row sample_ctx ?b sample_at) = Ok (claimed_row sample_ctx ?b sample_at)"
    using sample_command_wf sample_clock_ok by (intro claimed_row_valid) simp_all
  from dispose_row_valid [OF this _ sample_clock_ok, of "''RECOVERY_REQUIRED''" StorageConfigurationError]
  have "journal_wf sample_env ?db"
    by (simp add: journal_wf_def sample_recovery_def disposable_def claimed_row_def)
  from recovery_reacquirable [OF this, of ?b sample_recovery "sample_ctx\<lparr>context_runtime_id := sample_id 201\<rparr>"
      StorageConfigurationError sample_transition_mat]
  show ?thesis
    by (simp add: read_command_def sample_recovery_def binding_matches_def sample_transition_mat_def)
      (simp add: claimed_row_def dispose_row_def sample_command_def)
qed

end
