(* ===== verification/Varint.thy ===== *)
theory Varint
  imports Prelude
begin

text \<open>
  Base-128 variable-length integers, as the two protocol crates read them:
  \<open>read_varint\<close> of \<open>crates/mengxia-core-proto/src/lib.rs\<close>, lines 702-719, and of
  \<open>crates/mengxia-plugin-proto/src/wire.rs\<close>, lines 195-214.  Both refuse encodings that are
  longer than needed, by different tests.  The reference is the shortest encoding of a number;
  both readers are shown to accept exactly that encoding.
\<close>

unbundle bit_operations_syntax

section \<open>The shortest encoding\<close>

fun encode_varint :: "nat \<Rightarrow> bytes" where
  "encode_varint n =
    (if n < 128 then [of_nat n] else of_nat (n mod 128 + 128) # encode_varint (n div 128))"

declare encode_varint.simps [simp del]

lemma encode_varint_not_empty [simp]: "encode_varint n \<noteq> []" "0 < length (encode_varint n)"
  by (subst encode_varint.simps, simp)+

section \<open>The reader of the core protocol\<close>

datatype wire_preflight_error = Preflight_InvalidLimit | DepthExceeded | Malformed

definition byte_at :: "bytes \<Rightarrow> nat \<Rightarrow> byte option" where
  "byte_at bs offset = (if offset < length bs then Some (bs ! offset) else None)"

function core_varint_loop :: "bytes \<Rightarrow> nat \<Rightarrow> nat \<Rightarrow> u64 \<Rightarrow> wire_preflight_error + (u64 \<times> nat)" where
  "core_varint_loop bs offset shift acc =
    (if shift \<ge> 70 then Err Malformed
     else case byte_at bs offset of
       None \<Rightarrow> Err Malformed
     | Some b \<Rightarrow>
       (if shift = 63 \<and> b > 1 then Err Malformed
        else let acc = acc OR push_bit shift (ucast (b AND 127)) in
          if b AND 128 = 0 then (if shift \<noteq> 0 \<and> b = 0 then Err Malformed else Ok (acc, offset + 1))
          else core_varint_loop bs (offset + 1) (shift + 7) acc))"
  by pat_completeness auto
termination by (relation "measure (\<lambda>(_, _, shift, _). 70 - shift)") auto

declare core_varint_loop.simps [simp del]

definition core_read_varint :: "bytes \<Rightarrow> nat \<Rightarrow> wire_preflight_error + (u64 \<times> nat)" where
  "core_read_varint bs offset = core_varint_loop bs offset 0 0"

section \<open>The reader of the plugin protocol\<close>

datatype protocol_codec_error =
    Codec_InvalidLimit | UnknownOrReservedField | DuplicateField | NonCanonicalEncoding | NonCanonicalVarint
  | WrongWireType | UnsupportedGroup | Codec_Truncated | Codec_DepthExceeded | InvalidSemanticValue
  | Codec_AllocationUnavailable | InvalidFrameLength | Codec_Transport

function plugin_varint_loop :: "bytes \<Rightarrow> nat \<Rightarrow> nat \<Rightarrow> nat \<Rightarrow> u64 \<Rightarrow> protocol_codec_error + (u64 \<times> nat)" where
  "plugin_varint_loop bs start offset index acc =
    (if index \<ge> 10 then Err NonCanonicalVarint
     else case byte_at bs offset of
       None \<Rightarrow> Err Codec_Truncated
     | Some b \<Rightarrow>
       let offset = offset + 1 in
       if index = 9 \<and> b > 1 then Err NonCanonicalVarint
       else let acc = acc OR push_bit (index * 7) (ucast (b AND 127)) in
         if b AND 128 = 0 then
           (let width = offset - start in
            if width > 1 \<and> acc < push_bit ((width - 1) * 7) 1 then Err NonCanonicalVarint else Ok (acc, offset))
         else plugin_varint_loop bs start offset (index + 1) acc)"
  by pat_completeness auto
termination by (relation "measure (\<lambda>(_, _, _, index, _). 10 - index)") auto

declare plugin_varint_loop.simps [simp del]

definition plugin_read_varint :: "bytes \<Rightarrow> nat \<Rightarrow> protocol_codec_error + (u64 \<times> nat)" where
  "plugin_read_varint bs offset = plugin_varint_loop bs offset offset 0 0"

section \<open>Seven bits at a time\<close>

lemma low_bits: "unat (b AND 127 :: byte) = unat b mod 128"
proof -
  have "b AND 127 = take_bit 7 b" by (simp add: take_bit_eq_mask mask_eq_exp_minus_1)
  then show ?thesis by (simp add: unat_mod take_bit_eq_mod)
qed

lemma high_bit: "(b AND 128 = (0 :: byte)) \<longleftrightarrow> unat b < 128"
proof -
  have "b AND 128 = 0 \<longleftrightarrow> \<not> bit b 7" using and_exp_eq_0_iff_not_bit [of b 7] by simp
  moreover have "bit b 7 \<longleftrightarrow> odd (unat b div 2 ^ 7)"
    using bit_unsigned_iff [of b 7, where ?'a = nat] by (simp add: bit_iff_odd)
  moreover have "unat b < 256" using unsigned_less [of b] by simp
  moreover have "even (n div 128) \<longleftrightarrow> n < 128" if "n < 256" for n :: nat
  proof (cases "n < 128")
    case False
    then have "n div 128 = 1" using that by (intro div_nat_eqI) simp_all
    then show ?thesis using False by simp
  qed simp
  ultimately show ?thesis by simp
qed

lemma add_bits:
  fixes acc :: u64 and b :: byte
  assumes "unat acc < 2 ^ s" "unat b mod 128 * 2 ^ s < 2 ^ 64" "s \<le> 64"
  shows "unat (acc OR push_bit s (ucast (b AND 127))) = unat acc + unat b mod 128 * 2 ^ s"
proof -
  let ?c = "push_bit s (ucast (b AND 127)) :: u64"
  have "unat b mod 128 < 2 ^ 64" by (rule le_less_trans [of _ 127]) simp_all
  then have "unat (ucast (b AND 127) :: u64) = unat b mod 128"
    using low_bits [of b] by (simp add: unsigned_ucast_eq take_bit_nat_eq_self)
  moreover have "unat ?c = take_bit 64 (push_bit s (unat (ucast (b AND 127) :: u64)))"
    by (simp only: unsigned_push_bit_eq) simp
  ultimately have c: "unat ?c = unat b mod 128 * 2 ^ s"
    using assms(2) by (simp only: push_bit_eq_mult take_bit_nat_eq_self)
  have acc: "take_bit s acc = acc"
    using assms(1) by (simp add: word_unat_eq_iff unsigned_take_bit_eq take_bit_nat_eq_self)
  have "acc AND ?c = 0"
  proof (rule bit_word_eqI)
    fix n
    have "bit acc n \<longleftrightarrow> n < s \<and> bit acc n" using acc bit_take_bit_iff [of s acc n] by simp
    then show "bit (acc AND ?c) n = bit (0 :: u64) n" by (auto simp add: bit_and_iff bit_push_bit_iff)
  qed
  then have "acc OR ?c = acc + ?c" by (simp add: disjunctive_add_eq_or)
  moreover have "unat acc + unat b mod 128 * 2 ^ s < 2 ^ 64"
  proof -
    have split: "(2 :: nat) ^ 64 = 2 ^ (64 - s) * 2 ^ s" using assms(3) by (simp flip: power_add)
    have "unat b mod 128 < 2 ^ (64 - s)" using assms(2) [unfolded split] by (simp only: mult_less_cancel2)
    then have "(unat b mod 128 + 1) * 2 ^ s \<le> 2 ^ (64 - s) * 2 ^ s" by (intro mult_le_mono1) simp
    then show ?thesis using assms(1) unfolding split by simp
  qed
  ultimately show ?thesis using c by (simp add: unat_word_ariths)
qed

lemma Cons_encode_varint:
  "b # xs = encode_varint n @ rest \<longleftrightarrow>
    (unat b < 128 \<and> n = unat b \<and> rest = xs) \<or>
    (128 \<le> unat b \<and> (\<exists>m. m \<noteq> 0 \<and> n = unat b mod 128 + 128 * m \<and> xs = encode_varint m @ rest))"
  (is "?L \<longleftrightarrow> ?R")
proof
  assume L: ?L
  show ?R
  proof (cases "n < 128")
    case True
    then have "b = of_nat n" "rest = xs" using L by (simp_all add: encode_varint.simps [of n])
    then show ?thesis using True by (simp add: unat_of_nat)
  next
    case False
    then have "b = of_nat (n mod 128 + 128)" "xs = encode_varint (n div 128) @ rest"
      using L by (simp_all add: encode_varint.simps [of n])
    moreover from this have "unat b = n mod 128 + 128"
      by (simp add: unat_of_nat del: of_nat_add)
    ultimately show ?thesis using False by (intro disjI2) (auto intro!: exI [of _ "n div 128"])
  qed
next
  assume ?R
  then show ?L
  proof (elim disjE conjE exE)
    assume "unat b < 128" "n = unat b" "rest = xs"
    then show ?L by (simp add: encode_varint.simps [of "unat b"])
  next
    fix m assume b: "128 \<le> unat b" "m \<noteq> 0" "n = unat b mod 128 + 128 * m" "xs = encode_varint m @ rest"
    have "unat b < 256" using unsigned_less [of b] by simp
    then have "unat b mod 128 + 128 = unat b" using b(1) by (simp add: le_mod_geq)
    then have "of_nat (n mod 128 + 128) = b" "n div 128 = m" using b(3) by (simp_all del: of_nat_add)
    moreover have "\<not> n < 128" using b(2,3) by simp
    ultimately show ?L using b(4) by (simp add: encode_varint.simps [of n] del: of_nat_add)
  qed
qed

section \<open>Both readers accept the shortest encoding and nothing else\<close>

text \<open>A number with its encoding at the front of what is left to read, on top of the bits that have
  been read.\<close>

definition varint_at :: "bytes \<Rightarrow> nat \<Rightarrow> nat \<Rightarrow> nat \<Rightarrow> u64 \<Rightarrow> nat \<Rightarrow> bool" where
  "varint_at bs offset k acc v offset' =
    (\<exists>n rest. drop offset bs = encode_varint n @ rest \<and> offset' = offset + length (encode_varint n)
      \<and> unat v = acc + n * 2 ^ (7 * k) \<and> (k \<noteq> 0 \<longrightarrow> n \<noteq> 0))"

lemma drop_byte: "byte_at bs offset = Some b \<longleftrightarrow> (\<exists>xs. drop offset bs = b # xs)"
  "drop offset bs = b # xs \<Longrightarrow> xs = drop (Suc offset) bs"
  by (auto simp add: byte_at_def Cons_nth_drop_Suc [symmetric] intro: ccontr)
    (metis drop_Suc drop_tl list.sel(3))

lemma varint_at_Nil: "drop offset bs = [] \<Longrightarrow> \<not> varint_at bs offset k acc v offset'"
  by (auto simp add: varint_at_def)

lemma varint_at_last:
  assumes "drop offset bs = b # xs" "unat b < 128"
  shows "varint_at bs offset k acc v offset' \<longleftrightarrow>
    offset' = offset + 1 \<and> unat v = acc + unat b * 2 ^ (7 * k) \<and> (k \<noteq> 0 \<longrightarrow> b \<noteq> 0)"
proof -
  have "length (encode_varint (unat b)) = 1" using assms(2) by (simp add: encode_varint.simps [of "unat b"])
  moreover have "b \<noteq> 0 \<longleftrightarrow> unat b \<noteq> 0" by (simp add: unat_eq_0)
  ultimately show ?thesis using assms unfolding varint_at_def assms(1) Cons_encode_varint by auto
qed

lemma varint_at_more:
  assumes "drop offset bs = b # xs" "128 \<le> unat b"
  shows "varint_at bs offset k acc v offset' \<longleftrightarrow>
    varint_at bs (offset + 1) (Suc k) (acc + unat b mod 128 * 2 ^ (7 * k)) v offset'"
proof -
  have len: "length (encode_varint (unat b mod 128 + 128 * m)) = Suc (length (encode_varint m))" if "m \<noteq> 0" for m
    using that by (subst encode_varint.simps) simp
  have sum: "acc + (unat b mod 128 + 128 * m) * 2 ^ (7 * k) =
      acc + unat b mod 128 * 2 ^ (7 * k) + m * 2 ^ (7 * Suc k)" for m
    by (simp add: algebra_simps power_add)
  have xs: "drop (offset + 1) bs = xs" using drop_byte(2) [OF assms(1)] by simp
  have "varint_at bs offset k acc v offset' \<longleftrightarrow> (\<exists>m rest. m \<noteq> 0 \<and> xs = encode_varint m @ rest
      \<and> offset' = offset + length (encode_varint (unat b mod 128 + 128 * m))
      \<and> unat v = acc + (unat b mod 128 + 128 * m) * 2 ^ (7 * k))"
    using assms(2) unfolding varint_at_def assms(1) Cons_encode_varint by auto
  also have "\<dots> \<longleftrightarrow> varint_at bs (offset + 1) (Suc k) (acc + unat b mod 128 * 2 ^ (7 * k)) v offset'"
    unfolding varint_at_def xs sum using len by fastforce
  finally show ?thesis .
qed

lemma varint_at_bound: "varint_at bs offset k acc v offset' \<Longrightarrow> k \<noteq> 0 \<Longrightarrow> acc + 2 ^ (7 * k) < 2 ^ 64"
proof -
  assume "varint_at bs offset k acc v offset'" "k \<noteq> 0"
  then obtain n where n: "unat v = acc + n * 2 ^ (7 * k)" "n \<noteq> 0" by (auto simp add: varint_at_def)
  have "2 ^ (7 * k) \<le> n * 2 ^ (7 * k)" using n(2) by simp
  moreover have "unat v < 2 ^ 64" using unsigned_less [of v, where ?'a = nat] by simp
  ultimately show ?thesis using n(1) by linarith
qed

lemma small_multiple: "(a :: nat) + n * p < p \<Longrightarrow> n = 0"
  by (cases n) auto

lemma next_bits:
  fixes acc :: u64 and b :: byte
  assumes "k \<le> 9" "unat acc < 2 ^ (7 * k)" "k < 9 \<or> unat b \<le> 1"
  shows "unat (acc OR push_bit (7 * k) (ucast (b AND 127))) = unat acc + unat b mod 128 * 2 ^ (7 * k)"
    "unat (acc OR push_bit (7 * k) (ucast (b AND 127))) < 2 ^ (7 * Suc k)"
proof -
  have "unat b mod 128 * 2 ^ (7 * k) < 2 ^ 64"
  proof (cases "k < 9")
    case True
    have "unat b mod 128 * 2 ^ (7 * k) \<le> 127 * 2 ^ (7 * k)" by (intro mult_le_mono1) simp
    also have "\<dots> \<le> 127 * 2 ^ 56" using True by (intro mult_le_mono2 power_increasing) simp_all
    finally show ?thesis by simp
  next
    case False
    then have "k = 9" "unat b mod 128 \<le> 1" using assms(1,3) by auto
    then show ?thesis by simp
  qed
  from add_bits [OF assms(2) this]
  show sum: "unat (acc OR push_bit (7 * k) (ucast (b AND 127))) = unat acc + unat b mod 128 * 2 ^ (7 * k)"
    using assms(1) by simp
  have "unat b mod 128 * 2 ^ (7 * k) \<le> 127 * 2 ^ (7 * k)" by (intro mult_le_mono1) simp
  moreover have "(2 :: nat) ^ (7 * Suc k) = 128 * 2 ^ (7 * k)" by (simp add: power_add)
  ultimately show "unat (acc OR push_bit (7 * k) (ucast (b AND 127))) < 2 ^ (7 * Suc k)"
    unfolding sum using assms(2) by linarith
qed

lemma core_varint_loop_iff:
  assumes "k \<le> 9" "unat acc < 2 ^ (7 * k)"
  shows "core_varint_loop bs offset (7 * k) acc = Ok (v, offset') \<longleftrightarrow> varint_at bs offset k (unat acc) v offset'"
  using assms
proof (induction "9 - k" arbitrary: k acc offset rule: less_induct)
  case less
  show ?case
  proof (cases "drop offset bs")
    case Nil
    then show ?thesis using varint_at_Nil [OF Nil] by (simp add: core_varint_loop.simps [of bs offset] byte_at_def)
  next
    case (Cons b xs)
    let ?acc = "acc OR push_bit (7 * k) (ucast (b AND 127))"
    have at: "byte_at bs offset = Some b" using Cons drop_byte(1) by blast
    have unfold: "core_varint_loop bs offset (7 * k) acc =
        (if k = 9 \<and> b > 1 then Err Malformed
         else if unat b < 128 then (if k \<noteq> 0 \<and> b = 0 then Err Malformed else Ok (?acc, offset + 1))
         else core_varint_loop bs (offset + 1) (7 * Suc k) ?acc)"
      using less.prems(1) by (subst core_varint_loop.simps) (simp add: at high_bit Let_def add.commute)
    have one: "b > 1 \<longleftrightarrow> \<not> unat b \<le> 1" by (auto simp add: word_less_nat_alt)
    consider (over) "k = 9" "b > 1" | (last) "\<not> (k = 9 \<and> b > 1)" "unat b < 128" | (more) "k < 9" "128 \<le> unat b"
      using less.prems(1) one by linarith
    then show ?thesis
    proof cases
      case over
      have "\<not> varint_at bs offset k (unat acc) v offset'"
      proof (cases "unat b < 128")
        case True
        have "2 * 2 ^ 63 \<le> unat b * 2 ^ 63" using over(2) one by (intro mult_le_mono1) simp
        then show ?thesis
          using varint_at_last [OF Cons True] over(1) unsigned_less [of v, where ?'a = nat] by auto
      next
        case False
        then show ?thesis using varint_at_more [OF Cons] varint_at_bound over(1) by force
      qed
      then show ?thesis using over unfold by simp
    next
      case last
      note bits = next_bits(1) [OF less.prems, of b]
      have "unat ?acc = unat acc + unat b * 2 ^ (7 * k)" using bits last one less.prems(1) by auto
      then show ?thesis
        unfolding unfold varint_at_last [OF Cons last(2)] using last by (auto simp add: word_unat_eq_iff)
    next
      case more
      note bits = next_bits [OF less.prems, of b]
      have "core_varint_loop bs (offset + 1) (7 * Suc k) ?acc = Ok (v, offset') \<longleftrightarrow>
          varint_at bs (offset + 1) (Suc k) (unat ?acc) v offset'"
        using more(1) bits(2) by (intro less.hyps) simp_all
      then show ?thesis using unfold more bits(1) varint_at_more [OF Cons more(2)] by simp
    qed
  qed
qed

lemma core_read_varint_iff:
  "core_read_varint bs offset = Ok (v, offset') \<longleftrightarrow>
    (\<exists>rest. drop offset bs = encode_varint (unat v) @ rest) \<and> offset' = offset + length (encode_varint (unat v))"
  using core_varint_loop_iff [of 0 0 bs offset v offset'] by (auto simp add: core_read_varint_def varint_at_def)

text \<open>The width test of the plugin reader is the test of the core reader for a last byte of zero.\<close>

lemma plugin_varint_loop_iff:
  assumes "k \<le> 9" "unat acc < 2 ^ (7 * k)"
  shows "plugin_varint_loop bs start (start + k) k acc = Ok r \<longleftrightarrow> core_varint_loop bs (start + k) (7 * k) acc = Ok r"
  using assms
proof (induction "9 - k" arbitrary: k acc rule: less_induct)
  case less
  show ?case
  proof (cases "byte_at bs (start + k)")
    case None
    then show ?thesis
      using less.prems(1) by (simp add: plugin_varint_loop.simps [of _ _ _ k] core_varint_loop.simps [of _ "start + k"])
  next
    case (Some b)
    let ?acc = "acc OR push_bit (7 * k) (ucast (b AND 127))"
    have core: "core_varint_loop bs (start + k) (7 * k) acc =
        (if k = 9 \<and> b > 1 then Err Malformed
         else if unat b < 128 then (if k \<noteq> 0 \<and> b = 0 then Err Malformed else Ok (?acc, start + k + 1))
         else core_varint_loop bs (start + k + 1) (7 * Suc k) ?acc)"
      using less.prems(1) Some by (subst core_varint_loop.simps) (simp add: high_bit Let_def add.commute)
    have plugin: "plugin_varint_loop bs start (start + k) k acc =
        (if k = 9 \<and> b > 1 then Err NonCanonicalVarint
         else if unat b < 128
           then (if k \<noteq> 0 \<and> ?acc < push_bit (7 * k) 1 then Err NonCanonicalVarint else Ok (?acc, start + k + 1))
         else plugin_varint_loop bs start (start + k + 1) (Suc k) ?acc)"
      using less.prems(1) Some
      by (subst plugin_varint_loop.simps) (simp add: high_bit Let_def mult.commute [of k])
    have one: "b > 1 \<longleftrightarrow> \<not> unat b \<le> 1" by (auto simp add: word_less_nat_alt)
    show ?thesis
    proof (cases "k = 9 \<and> b > 1")
      case False
      then have small: "k < 9 \<or> unat b \<le> 1" using less.prems(1) one by auto
      note bits = next_bits [OF less.prems small]
      have "unat (push_bit (7 * k) 1 :: u64) = 2 ^ (7 * k)"
      proof -
        have "(2 :: nat) ^ (7 * k) < 2 ^ 64" using less.prems(1) by (intro power_strict_increasing) simp_all
        moreover have "unat (push_bit (7 * k) 1 :: u64) = take_bit 64 (push_bit (7 * k) (unat (1 :: u64)))"
          by (simp only: unsigned_push_bit_eq) simp
        ultimately show ?thesis by (simp only: unat_1 push_bit_eq_mult mult_1 take_bit_nat_eq_self)
      qed
      then have zero: "?acc < push_bit (7 * k) 1 \<longleftrightarrow> b = 0" if "unat b < 128"
        using bits(1) less.prems(2) that small_multiple
        by (auto simp add: word_less_nat_alt unat_eq_0 [symmetric])
      have "plugin_varint_loop bs start (start + Suc k) (Suc k) ?acc = Ok r \<longleftrightarrow>
          core_varint_loop bs (start + Suc k) (7 * Suc k) ?acc = Ok r" if "128 \<le> unat b"
        using that small less.prems(1) bits(2) by (intro less.hyps) auto
      then show ?thesis unfolding core plugin using zero False by auto
    next
      case True
      then show ?thesis unfolding core plugin by simp
    qed
  qed
qed

lemma plugin_read_varint_iff:
  "plugin_read_varint bs offset = Ok (v, offset') \<longleftrightarrow>
    (\<exists>rest. drop offset bs = encode_varint (unat v) @ rest) \<and> offset' = offset + length (encode_varint (unat v))"
  using plugin_varint_loop_iff [of 0 0 bs offset "(v, offset')"] core_read_varint_iff [of bs offset v offset']
  by (simp add: core_read_varint_def plugin_read_varint_def)

lemma encode_varint_inject: "encode_varint m @ rest = encode_varint n @ rest' \<Longrightarrow> m = n \<and> rest = rest'"
proof (induction m arbitrary: n rule: less_induct)
  case (less m)
  obtain b xs where b: "encode_varint m @ rest = b # xs" by (cases "encode_varint m @ rest") auto
  then have m: "b # xs = encode_varint m @ rest" and n: "b # xs = encode_varint n @ rest'" using less.prems by simp_all
  show ?case
  proof (cases "unat b < 128")
    case True
    then show ?thesis using m n unfolding Cons_encode_varint by auto
  next
    case False
    then obtain m' n' where "m = unat b mod 128 + 128 * m'" "m' \<noteq> 0" "xs = encode_varint m' @ rest"
        "n = unat b mod 128 + 128 * n'" "xs = encode_varint n' @ rest'"
      using m n unfolding Cons_encode_varint by auto
    then show ?thesis using less.IH [of m' n'] by auto
  qed
qed

text \<open>C40. The two protocol crates read the same integers: at every position of every input, one reader
  accepts if and only if the other does, with the same value and the same end, and what they
  accept is the shortest encoding of that value.\<close>

theorem varint_readers_agree:
  "(core_read_varint bs offset = Ok (v, offset') \<longleftrightarrow> plugin_read_varint bs offset = Ok (v, offset'))
    \<and> (core_read_varint bs offset = Ok (v, offset') \<longleftrightarrow>
      (\<exists>rest. drop offset bs = encode_varint (unat v) @ rest) \<and> offset' = offset + length (encode_varint (unat v)))"
  unfolding core_read_varint_iff plugin_read_varint_iff by simp

end
