(* ===== verification/Core_Wire.thy ===== *)
theory Core_Wire
  imports Varint
begin

text \<open>
  The check that \<open>crates/mengxia-core-proto/src/lib.rs\<close> makes of a protobuf payload before the
  generated code decodes it (lines 405-433 and 567-728): fields are well-formed, and embedded messages
  nest no deeper than the configured limit.  The source walks the payload with a fixed array of
  64 frames; the model keeps the array and its index, and \<open>None\<close> stands for an index out of
  range or a loop that does not end.  Which field of which message embeds which message is generated from
  the descriptor when the crate is built, and is the parameter \<open>embedded\<close> here.
\<close>

section \<open>Limits and messages\<close>

definition MAX_DECODE_DEPTH :: nat where "MAX_DECODE_DEPTH = 64"

text \<open>A validated decode depth.\<close>

definition decode_depth_new :: "nat \<Rightarrow> wire_preflight_error + nat" where
  "decode_depth_new depth =
    (if depth = 0 \<or> depth > MAX_DECODE_DEPTH then Err Preflight_InvalidLimit else Ok depth)"

datatype (plugins only: code) message_kind =
    Kind_ClientHello | Kind_HandshakeResponse | Kind_ServerHello | Kind_ErrorEnvelope | Kind_SafeDetailsEntry
  | Kind_IngestAssetCopyRequest | Kind_IngestAssetCopyResult | Kind_GetLibraryStatusRequest
  | Kind_VerifyLibraryRequest | Kind_ListIntegrityIssuesRequest | Kind_InspectAssetRequest
  | Kind_ListAssetsRequest | Kind_MaterializeAssetRequest | Kind_AssetRevisionMemberInput
  | Kind_AssetRevisionResourceInput | Kind_AssetRevisionRepresentationInput | Kind_ProjectSpecInput
  | Kind_CreateAssetRevisionRequest | Kind_AssetLifecycleRequest | Kind_CreateProjectRequest
  | Kind_ReviseProjectSpecRequest | Kind_ListProjectsRequest | Kind_CreateSubjectRequest
  | Kind_ListSubjectsRequest | Kind_CreateWorkItemRequest | Kind_ReviseWorkRequest | Kind_ListWorkRequest
  | Kind_CreateTakeRequest | Kind_TransitionTakeRequest | Kind_ReopenTakeRequest | Kind_ListTakesRequest
  | Kind_GetLibraryStatusResult | Kind_VerifyLibraryResult | Kind_IntegrityIssue
  | Kind_ListIntegrityIssuesResult | Kind_AssetSummary | Kind_ListAssetsResult | Kind_AssetMemberView
  | Kind_InspectAssetResult | Kind_MaterializeAssetResult | Kind_CreateAssetRevisionResult
  | Kind_AssetLifecycleMutationResult | Kind_ProjectMutationResult | Kind_SubjectMutationResult
  | Kind_WorkMutationResult | Kind_TakeMutationResult | Kind_ProjectSpecView | Kind_ProjectView
  | Kind_ListProjectsResult | Kind_SubjectView | Kind_ListSubjectsResult | Kind_WorkView
  | Kind_ListWorkResult | Kind_TakeRelationshipView | Kind_TakeView | Kind_ListTakesResult | Kind_CoreRequest
  | Kind_CoreResponse

type_synonym embedding = "message_kind \<Rightarrow> u64 \<Rightarrow> message_kind option"

section \<open>The walk over an array of frames\<close>

record scan_frame =
  sf_bytes :: bytes
  sf_offset :: nat
  sf_kind :: message_kind

definition usize_add :: "nat \<Rightarrow> nat \<Rightarrow> nat option" where
  "usize_add a b = (if a + b < 2 ^ 64 then Some (a + b) else None)"

definition end_within :: "bytes \<Rightarrow> nat \<Rightarrow> nat \<Rightarrow> wire_preflight_error + nat" where
  "end_within bs start width =
    (case usize_add start width of
       None \<Rightarrow> Err Malformed
     | Some finish \<Rightarrow> if finish \<le> length bs then Ok finish else Err Malformed)"

definition skip_fixed :: "scan_frame \<Rightarrow> nat \<Rightarrow> wire_preflight_error + scan_frame" where
  "skip_fixed frame width =
    and_then (end_within (sf_bytes frame) (sf_offset frame) width) (\<lambda>finish. Ok (frame\<lparr>sf_offset := finish\<rparr>))"

text \<open>One field of the frame on top: the frame behind the field, and the embedded message that
  has to be walked first, if there is one.\<close>

definition scan_field :: "embedding \<Rightarrow> scan_frame \<Rightarrow> wire_preflight_error + (scan_frame \<times> scan_frame option)" where
  "scan_field embedded frame =
    and_then (core_read_varint (sf_bytes frame) (sf_offset frame)) (\<lambda>(tag, offset).
    let frame = frame\<lparr>sf_offset := offset\<rparr>; field_number = drop_bit 3 tag; wire_type = unat (tag AND 7) in
    if field_number = 0 \<or> wire_type = 3 \<or> wire_type = 4 then Err Malformed
    else if wire_type = 0 then
      and_then (core_read_varint (sf_bytes frame) offset) (\<lambda>(_, offset). Ok (frame\<lparr>sf_offset := offset\<rparr>, None))
    else if wire_type = 1 then and_then (skip_fixed frame 8) (\<lambda>frame. Ok (frame, None))
    else if wire_type = 2 then
      and_then (core_read_varint (sf_bytes frame) offset) (\<lambda>(len, start).
      and_then (end_within (sf_bytes frame) start (unat len)) (\<lambda>finish.
        Ok (frame\<lparr>sf_offset := finish\<rparr>,
          map_option (\<lambda>kind. \<lparr>sf_bytes = take (unat len) (drop start (sf_bytes frame)), sf_offset = 0, sf_kind = kind\<rparr>)
            (embedded (sf_kind frame) field_number))))
    else if wire_type = 5 then and_then (skip_fixed frame 4) (\<lambda>frame. Ok (frame, None))
    else Err Malformed)"

partial_function (option) preflight_loop ::
  "embedding \<Rightarrow> nat \<Rightarrow> scan_frame list \<Rightarrow> nat \<Rightarrow> (wire_preflight_error + unit) option" where
  "preflight_loop embedded limit stack depth =
    (if depth = 0 then Some (Inr ())
     else if depth > length stack then None
     else let index = depth - 1; frame = stack ! index in
       if sf_offset frame = length (sf_bytes frame) then preflight_loop embedded limit stack index
       else case scan_field embedded frame of
         Inl e \<Rightarrow> Some (Inl e)
       | Inr (frame', None) \<Rightarrow> preflight_loop embedded limit (stack[index := frame']) depth
       | Inr (frame', Some child) \<Rightarrow>
           (if depth \<ge> limit then Some (Inl DepthExceeded)
            else if depth \<ge> length stack then None
            else preflight_loop embedded limit (stack[index := frame', depth := child]) (depth + 1)))"

definition preflight :: "embedding \<Rightarrow> bytes \<Rightarrow> message_kind \<Rightarrow> nat \<Rightarrow> (wire_preflight_error + unit) option" where
  "preflight embedded payload root limit =
    preflight_loop embedded limit
      ((replicate MAX_DECODE_DEPTH \<lparr>sf_bytes = [], sf_offset = 0, sf_kind = Kind_ClientHello\<rparr>)
        [0 := \<lparr>sf_bytes = payload, sf_offset = 0, sf_kind = root\<rparr>]) 1"

section \<open>Every field is progress\<close>

lemma core_read_varint_progress:
  assumes "core_read_varint bs offset = Ok (v, offset')"
  shows "offset < offset' \<and> offset' \<le> length bs"
proof -
  obtain rest where rest: "drop offset bs = encode_varint (unat v) @ rest" and stop: "offset' = offset + length (encode_varint (unat v))"
    using assms core_read_varint_iff by auto
  have "length bs - offset = length (encode_varint (unat v)) + length rest" using rest by (metis length_append length_drop)
  then show ?thesis using stop encode_varint_not_empty(2) [of "unat v"] by arith
qed

lemma end_within_ok: "end_within bs start width = Ok finish \<Longrightarrow> finish = start + width \<and> finish \<le> length bs"
  by (auto simp add: end_within_def usize_add_def split: if_splits)

lemma scan_field_progress:
  assumes "scan_field embedded frame = Ok (frame', child)"
  shows "sf_bytes frame' = sf_bytes frame" "sf_offset frame < sf_offset frame'" "sf_offset frame' \<le> length (sf_bytes frame)"
    "child = Some c \<Longrightarrow> sf_offset c = 0 \<and> length (sf_bytes c) + sf_offset frame + 2 \<le> sf_offset frame'"
proof -
  obtain tag offset where tag: "core_read_varint (sf_bytes frame) (sf_offset frame) = Ok (tag, offset)"
    using assms by (auto simp add: scan_field_def and_then_ok_iff)
  note at = core_read_varint_progress [OF tag]
  have "sf_bytes frame' = sf_bytes frame \<and> offset < sf_offset frame' \<and> sf_offset frame' \<le> length (sf_bytes frame)
      \<and> (\<forall>c. child = Some c \<longrightarrow> sf_offset c = 0 \<and> length (sf_bytes c) + offset < sf_offset frame')"
    using assms at
    by (auto simp add: scan_field_def tag and_then_ok_iff Let_def skip_fixed_def
        dest!: end_within_ok core_read_varint_progress split: if_splits)
  then show "sf_bytes frame' = sf_bytes frame" "sf_offset frame < sf_offset frame'" "sf_offset frame' \<le> length (sf_bytes frame)"
    "child = Some c \<Longrightarrow> sf_offset c = 0 \<and> length (sf_bytes c) + sf_offset frame + 2 \<le> sf_offset frame'"
    using at by auto
qed

section \<open>The recursive walk\<close>

text \<open>The reference: an embedded message is walked by a recursive call, and there is no array.\<close>

definition bytes_left :: "scan_frame \<Rightarrow> nat" where
  "bytes_left frame = length (sf_bytes frame) - sf_offset frame"

lemma scan_field_left:
  assumes "scan_field embedded frame = Ok (frame', child)"
  shows "bytes_left frame' < bytes_left frame"
    "child = Some c \<Longrightarrow> bytes_left c + bytes_left frame' + 2 \<le> bytes_left frame"
  using scan_field_progress [OF assms] by (auto simp add: bytes_left_def)

function scan_message :: "embedding \<Rightarrow> nat \<Rightarrow> nat \<Rightarrow> scan_frame \<Rightarrow> wire_preflight_error + unit" where
  "scan_message embedded limit depth frame =
    (if sf_offset frame = length (sf_bytes frame) then Ok ()
     else case scan_field embedded frame of
       Inl e \<Rightarrow> Err e
     | Inr (frame', None) \<Rightarrow> scan_message embedded limit depth frame'
     | Inr (frame', Some child) \<Rightarrow>
         (if depth \<ge> limit then Err DepthExceeded
          else case scan_message embedded limit (depth + 1) child of
            Inl e \<Rightarrow> Err e
          | Inr _ \<Rightarrow> scan_message embedded limit depth frame'))"
  by pat_completeness auto
termination
  by (relation "measure (\<lambda>(_, _, _, frame). bytes_left frame)") (auto dest: scan_field_left)

declare scan_message.simps [simp del]

text \<open>The frames of a stack, the innermost first.\<close>

fun scan_stack :: "embedding \<Rightarrow> nat \<Rightarrow> scan_frame list \<Rightarrow> wire_preflight_error + unit" where
  "scan_stack embedded limit [] = Ok ()"
| "scan_stack embedded limit (frame # frames) =
    and_then (scan_message embedded limit (Suc (length frames)) frame) (\<lambda>_. scan_stack embedded limit frames)"

lemma stack_top:
  assumes "n < length stack"
  shows "take (Suc n) stack = take n stack @ [stack ! n]"
    "take (Suc n) (stack[n := f]) = take n stack @ [f]"
    "Suc n < length stack \<Longrightarrow> take (Suc (Suc n)) (stack[n := f, Suc n := c]) = take n stack @ [f, c]"
  using assms by (simp_all add: take_Suc_conv_app_nth)

lemma preflight_loop_step:
  assumes "n < length stack"
  shows "preflight_loop embedded limit stack (Suc n) =
    (let frame = stack ! n in
     if sf_offset frame = length (sf_bytes frame) then preflight_loop embedded limit stack n
     else case scan_field embedded frame of
       Inl e \<Rightarrow> Some (Inl e)
     | Inr (frame', None) \<Rightarrow> preflight_loop embedded limit (stack[n := frame']) (Suc n)
     | Inr (frame', Some child) \<Rightarrow>
         (if Suc n \<ge> limit then Some (Inl DepthExceeded)
          else if Suc n \<ge> length stack then None
          else preflight_loop embedded limit (stack[n := frame', Suc n := child]) (Suc n + 1)))"
  using assms by (subst preflight_loop.simps) simp

lemma preflight_loop_stack:
  assumes "depth \<le> limit" "limit \<le> length stack"
  shows "preflight_loop embedded limit stack depth = Some (scan_stack embedded limit (rev (take depth stack)))"
  using assms
proof (induction "sum_list (map bytes_left (take depth stack)) + depth" arbitrary: stack depth rule: less_induct)
  case less
  show ?case
  proof (cases depth)
    case 0
    then show ?thesis by (subst preflight_loop.simps) simp
  next
    case (Suc n)
    then have n: "n < length stack" "Suc n \<le> limit" using less.prems by simp_all
    define frame where "frame = stack ! n"
    note top = stack_top [OF n(1), folded frame_def]
    note step = preflight_loop_step [OF n(1), folded frame_def, unfolded Let_def]
    note message = scan_message.simps [of embedded limit "Suc n" frame]
    have popped: "preflight_loop embedded limit stack n = Some (scan_stack embedded limit (rev (take n stack)))"
      using Suc less.prems top(1) by (intro less.hyps) simp_all
    have plain: "preflight_loop embedded limit (stack[n := frame']) (Suc n) =
        Some (scan_stack embedded limit (frame' # rev (take n stack)))"
      if "scan_field embedded frame = Ok (frame', child)" for frame' child
      using less.hyps [of "Suc n" "stack[n := frame']"] less.prems Suc scan_field_left(1) [OF that] top(1,2) by simp
    have nested: "preflight_loop embedded limit (stack[n := frame', Suc n := c]) (Suc (Suc n)) =
        Some (scan_stack embedded limit (c # frame' # rev (take n stack)))"
      if "scan_field embedded frame = Ok (frame', Some c)" "Suc n < limit" for frame' c
      using less.hyps [of "Suc (Suc n)" "stack[n := frame', Suc n := c]"] less.prems Suc
        scan_field_left(2) [OF that(1)] that(2) top(1,3) by simp
    show ?thesis
      using Suc n less.prems top(1) popped plain nested
      by (auto simp add: step message split: option.split sum.split)
  qed
qed

text \<open>C10. The walk over the fixed array of frames ends, never indexes outside the array, and
  answers what the recursive walk answers: an embedded message is walked before the rest of the message around
  it, and a payload is refused exactly when a field is malformed or an embedded message would exceed the limit.\<close>

theorem preflight_refines_recursion:
  assumes "decode_depth_new limit = Ok depth"
  shows "preflight embedded payload root depth =
    Some (scan_message embedded depth 1 \<lparr>sf_bytes = payload, sf_offset = 0, sf_kind = root\<rparr>)"
proof -
  have "1 \<le> depth" "depth \<le> MAX_DECODE_DEPTH" using assms by (auto simp add: decode_depth_new_def split: if_splits)
  moreover have "take 1 ((replicate MAX_DECODE_DEPTH f)[0 := frame]) = [frame]" for f frame :: scan_frame
    using stack_top(2) [of 0 "replicate MAX_DECODE_DEPTH f" frame] by (simp add: MAX_DECODE_DEPTH_def)
  moreover have "and_then m (\<lambda>_. Ok ()) = m" for m :: "wire_preflight_error + unit" by (cases m) simp_all
  ultimately show ?thesis by (simp add: preflight_def preflight_loop_stack)
qed

theorem preflight_refines_recursion_witness:
  "decode_depth_new 1 = Ok 1 \<and>
    preflight (\<lambda>_ _. Some Kind_ServerHello) [10, 2, 8, 1] Kind_HandshakeResponse 1 = Some (Err DepthExceeded)"
  using preflight_refines_recursion [of 1 1 "\<lambda>_ _. Some Kind_ServerHello" "[10, 2, 8, 1]" Kind_HandshakeResponse]
  by (simp add: decode_depth_new_def MAX_DECODE_DEPTH_def scan_message.simps [of _ _ _ "\<lparr>sf_bytes = _, sf_offset = 0, sf_kind = _\<rparr>"]
      scan_field_def core_read_varint_def core_varint_loop.simps byte_at_def end_within_def usize_add_def Let_def)

end
