(* ===== verification/Plugin_Wire.thy ===== *)
theory Plugin_Wire
  imports Core_Wire
begin

text \<open>
  The closed codec of the plugin protocol, \<open>crates/mengxia-plugin-proto/src/wire.rs\<close>: before a payload
  is decoded, every field is checked against the descriptor of its message.  The descriptor table is
  generated from \<open>control.proto\<close> when the crate is built (\<open>control_descriptor\<close>); the scanner is proved
  for any table, the parameter \<open>descriptor_field\<close>.  The reference is a grammar of messages with one canonical
  encoding; the scanner accepts exactly the canonical encodings of well-formed messages.
\<close>

section \<open>Limits and descriptors\<close>

definition MIN_PLUGIN_DEPTH :: nat where "MIN_PLUGIN_DEPTH = 2"
definition MAX_PLUGIN_DEPTH :: nat where "MAX_PLUGIN_DEPTH = 16"

definition plugin_depth_new :: "nat \<Rightarrow> protocol_codec_error + nat" where
  "plugin_depth_new v =
    (if v < MIN_PLUGIN_DEPTH \<or> v > MAX_PLUGIN_DEPTH then Err Codec_InvalidLimit else Ok v)"

datatype plugin_message =
    HostEnvelope | PluginEnvelope | HostHello | PluginHello | PingRequest | PingResponse
  | ShutdownRequest | ShutdownResponse | PluginFailure

record field_spec =
  fs_wire :: nat
  fs_child :: "plugin_message option"
  fs_oneof :: bool

type_synonym descriptor = "plugin_message \<Rightarrow> u64 \<Rightarrow> field_spec option"

section \<open>The scanner\<close>

definition advance_end :: "bytes \<Rightarrow> nat \<Rightarrow> nat \<Rightarrow> protocol_codec_error + nat" where
  "advance_end input offset width =
    (case usize_add offset width of
       None \<Rightarrow> Err Codec_Truncated
     | Some finish \<Rightarrow> if finish \<le> length input then Ok finish else Err Codec_Truncated)"

text \<open>The checks of a key: its field, wire type and the bookkeeping of what has been seen.\<close>

record scan_state =
  ss_observed :: "16 word"
  ss_oneof :: bool
  ss_last :: u64

definition scan_key ::
  "descriptor \<Rightarrow> plugin_message \<Rightarrow> scan_state \<Rightarrow> u64 \<Rightarrow> protocol_codec_error + (u64 \<times> field_spec \<times> scan_state)" where
  "scan_key descriptor_field kind st key =
    (let number = drop_bit 3 key; wire = unat (key AND 7) in
     if number = 0 then Err UnknownOrReservedField
     else if wire = 3 \<or> wire = 4 then Err UnsupportedGroup
     else case descriptor_field kind number of
       None \<Rightarrow> Err UnknownOrReservedField
     | Some field \<Rightarrow>
       (if number \<le> ss_last st then Err (if number = ss_last st then DuplicateField else NonCanonicalEncoding)
        else if wire \<noteq> fs_wire field then Err WrongWireType
        else if unat number \<ge> 16 then Err DuplicateField
        else let bit = push_bit (unat number) 1 in
          if ss_observed st AND bit \<noteq> 0 \<or> fs_oneof field \<and> ss_oneof st then Err DuplicateField
          else Ok (number, field, \<lparr>ss_observed = ss_observed st OR bit, ss_oneof = (ss_oneof st \<or> fs_oneof field),
            ss_last = number\<rparr>)))"

definition scan_fixed :: "bytes \<Rightarrow> nat \<Rightarrow> nat \<Rightarrow> protocol_codec_error + nat" where
  "scan_fixed input offset width =
    and_then (advance_end input offset width) (\<lambda>finish.
      if list_all (\<lambda>b. b = 0) (take width (drop offset input)) then Err NonCanonicalEncoding else Ok finish)"

text \<open>The value of a field: where it ends, and the embedded message to scan, if there is one.\<close>

definition scan_value ::
  "bytes \<Rightarrow> plugin_message \<Rightarrow> u64 \<Rightarrow> field_spec \<Rightarrow> nat \<Rightarrow> protocol_codec_error + (nat \<times> (plugin_message \<times> bytes) option)" where
  "scan_value input kind number field offset =
    (if fs_wire field = 0 then
       and_then (plugin_read_varint input offset) (\<lambda>(v, offset).
         if v = 0 then Err NonCanonicalEncoding
         else if kind = PluginFailure \<and> number = 1 \<and> v > 3 then Err InvalidSemanticValue
         else Ok (offset, None))
     else if fs_wire field = 1 then and_then (scan_fixed input offset 8) (\<lambda>finish. Ok (finish, None))
     else if fs_wire field = 2 then
       and_then (plugin_read_varint input offset) (\<lambda>(len, offset).
       and_then (advance_end input offset (unat len)) (\<lambda>finish.
         case fs_child field of
           None \<Rightarrow> if len = 0 then Err NonCanonicalEncoding else Ok (finish, None)
         | Some child \<Rightarrow> Ok (finish, Some (child, take (unat len) (drop offset input)))))
     else if fs_wire field = 5 then and_then (scan_fixed input offset 4) (\<lambda>finish. Ok (finish, None))
     else Err WrongWireType)"

lemma plugin_read_varint_progress:
  "plugin_read_varint bs offset = Ok (v, offset') \<Longrightarrow> offset < offset' \<and> offset' \<le> length bs"
  using core_read_varint_progress [of bs offset v offset'] by (simp add: core_read_varint_iff plugin_read_varint_iff)

lemma advance_end_ok: "advance_end input offset width = Ok finish \<Longrightarrow> finish = offset + width \<and> finish \<le> length input"
  by (auto simp add: advance_end_def usize_add_def split: if_splits)

lemma scan_value_progress:
  assumes "scan_value input kind number field offset = Ok (finish, child)"
  shows "offset < finish \<and> finish \<le> length input \<and> (\<forall>k bs. child = Some (k, bs) \<longrightarrow> offset + length bs < finish)"
  using assms
  by (auto simp add: scan_value_def scan_fixed_def and_then_ok_iff
      dest!: advance_end_ok plugin_read_varint_progress split: if_splits option.splits)

function scan_fields ::
  "descriptor \<Rightarrow> bytes \<Rightarrow> plugin_message \<Rightarrow> nat \<Rightarrow> nat \<Rightarrow> nat \<Rightarrow> scan_state \<Rightarrow> protocol_codec_error + unit" where
  "scan_fields descriptor_field input kind current_depth maximum_depth offset st =
    (if offset \<ge> length input then Ok ()
     else case plugin_read_varint input offset of
       Inl e \<Rightarrow> Err e
     | Inr (key, offset1) \<Rightarrow>
       (case scan_key descriptor_field kind st key of
          Inl e \<Rightarrow> Err e
        | Inr (number, field, st') \<Rightarrow>
          (case scan_value input kind number field offset1 of
             Inl e \<Rightarrow> Err e
           | Inr (finish, None) \<Rightarrow>
               scan_fields descriptor_field input kind current_depth maximum_depth finish st'
           | Inr (finish, Some (child, bs)) \<Rightarrow>
               (if current_depth + 1 \<ge> 256 \<or> current_depth + 1 > maximum_depth then Err Codec_DepthExceeded
                else case scan_fields descriptor_field bs child (current_depth + 1) maximum_depth 0
                    \<lparr>ss_observed = 0, ss_oneof = False, ss_last = 0\<rparr> of
                  Inl e \<Rightarrow> Err e
                | Inr _ \<Rightarrow> scan_fields descriptor_field input kind current_depth maximum_depth finish st'))))"
  by pat_completeness auto
termination
  by (relation "measure (\<lambda>(_, input, _, _, _, offset, _). length input - offset)")
    (auto dest!: scan_value_progress plugin_read_varint_progress)

declare scan_fields.simps [simp del]

definition plugin_scan_message ::
  "descriptor \<Rightarrow> bytes \<Rightarrow> plugin_message \<Rightarrow> nat \<Rightarrow> nat \<Rightarrow> protocol_codec_error + unit" where
  "plugin_scan_message descriptor_field input kind current_depth maximum_depth =
    (if current_depth > maximum_depth then Err Codec_DepthExceeded
     else scan_fields descriptor_field input kind current_depth maximum_depth 0
       \<lparr>ss_observed = 0, ss_oneof = False, ss_last = 0\<rparr>)"

definition validate_message :: "descriptor \<Rightarrow> bytes \<Rightarrow> plugin_message \<Rightarrow> nat \<Rightarrow> protocol_codec_error + unit" where
  "validate_message descriptor_field input root depth = plugin_scan_message descriptor_field input root 1 depth"


section \<open>The grammar\<close>

text \<open>The messages that the schema describes.  A fixed-width value is kept as its bytes.\<close>

datatype wire_value =
    Varint_Value u64
  | Fixed64_Value bytes
  | Fixed32_Value bytes
  | Blob_Value bytes
  | Message_Value "wire_field list"
and wire_field = Wire_Field (field_number: u64) (field_value: wire_value)

fun wire_type :: "wire_value \<Rightarrow> nat" where
  "wire_type (Varint_Value _) = 0"
| "wire_type (Fixed64_Value _) = 1"
| "wire_type (Fixed32_Value _) = 5"
| "wire_type (Blob_Value _) = 2"
| "wire_type (Message_Value _) = 2"

fun encode_value :: "wire_value \<Rightarrow> bytes" and encode_field :: "wire_field \<Rightarrow> bytes" where
  "encode_value (Varint_Value v) = encode_varint (unat v)"
| "encode_value (Fixed64_Value bs) = bs"
| "encode_value (Fixed32_Value bs) = bs"
| "encode_value (Blob_Value bs) = encode_varint (length bs) @ bs"
| "encode_value (Message_Value fs) =
    (let body = concat (map encode_field fs) in encode_varint (length body) @ body)"
| "encode_field (Wire_Field number v) = encode_varint (unat number * 8 + wire_type v) @ encode_value v"

abbreviation encode_fields :: "wire_field list \<Rightarrow> bytes" where
  "encode_fields fs \<equiv> concat (map encode_field fs)"

text \<open>A field holds no default value; an embedded message may be empty.\<close>

fun plain_value_ok :: "plugin_message \<Rightarrow> u64 \<Rightarrow> field_spec \<Rightarrow> wire_value \<Rightarrow> bool" where
  "plain_value_ok kind number field (Varint_Value v) = (v \<noteq> 0 \<and> (kind = PluginFailure \<and> number = 1 \<longrightarrow> v \<le> 3))"
| "plain_value_ok kind number field (Fixed64_Value bs) = (length bs = 8 \<and> \<not> list_all (\<lambda>b. b = 0) bs)"
| "plain_value_ok kind number field (Fixed32_Value bs) = (length bs = 4 \<and> \<not> list_all (\<lambda>b. b = 0) bs)"
| "plain_value_ok kind number field (Blob_Value bs) = (fs_child field = None \<and> bs \<noteq> [])"
| "plain_value_ok kind number field (Message_Value fs) = False"

definition in_oneof :: "descriptor \<Rightarrow> plugin_message \<Rightarrow> wire_field \<Rightarrow> bool" where
  "in_oneof descriptor_field kind f =
    (case descriptor_field kind (field_number f) of None \<Rightarrow> False | Some field \<Rightarrow> fs_oneof field)"

lemma size_of_member: "x \<in> set xs \<Longrightarrow> size x < size_list size xs"
  by (induction xs) auto

text \<open>A message with at most \<open>levels\<close> levels of messages embedded in it: the fields in the
  order of their numbers, at most one of them a member of the oneof, each as its descriptor says.\<close>

function (sequential) message_wf :: "descriptor \<Rightarrow> plugin_message \<Rightarrow> nat \<Rightarrow> wire_field list \<Rightarrow> bool"
  and field_wf :: "descriptor \<Rightarrow> plugin_message \<Rightarrow> nat \<Rightarrow> wire_field \<Rightarrow> bool" where
  "message_wf descriptor_field kind levels fs =
    (sorted_wrt (<) (map field_number fs)
     \<and> length (filter (in_oneof descriptor_field kind) fs) \<le> 1
     \<and> list_all (field_wf descriptor_field kind levels) fs)"
| "field_wf descriptor_field kind levels (Wire_Field number v) =
    (0 < number \<and> number < 16
     \<and> (case descriptor_field kind number of
          None \<Rightarrow> False
        | Some field \<Rightarrow> fs_wire field = wire_type v
            \<and> (plain_value_ok kind number field v
               \<or> (case (v, fs_child field) of
                    (Message_Value fs, Some child) \<Rightarrow> 0 < levels \<and> message_wf descriptor_field child (levels - 1) fs
                  | _ \<Rightarrow> False))))"
  by pat_completeness auto
termination
  by (relation "measure (\<lambda>x. case x of Inl (_, _, _, fs) \<Rightarrow> size_list size fs | Inr (_, _, _, f) \<Rightarrow> size f)")
    (auto simp add: size_of_member)

declare message_wf.simps [simp del]


section \<open>Keys and values\<close>

lemma key_parts:
  fixes key :: u64
  shows "unat (drop_bit 3 key) = unat key div 8" "unat (key AND 7) = unat key mod 8"
proof -
  show "unat (drop_bit 3 key) = unat key div 8" by (simp add: drop_bit_eq_div unat_div)
  have "key AND 7 = take_bit 3 key" by (simp add: take_bit_eq_mask mask_eq_exp_minus_1)
  then show "unat (key AND 7) = unat key mod 8" by (simp add: take_bit_eq_mod unat_mod)
qed

lemma read_at:
  "plugin_read_varint input offset = Ok (v, offset') \<Longrightarrow>
    drop offset input = encode_varint (unat v) @ drop offset' input \<and> offset' = offset + length (encode_varint (unat v))"
  by (auto simp add: plugin_read_varint_iff) (metis append_eq_conv_conj drop_drop add.commute)

lemma read_encoded:
  assumes "drop offset input = encode_varint n @ rest" "n < 2 ^ 64"
  shows "plugin_read_varint input offset = Ok (of_nat n, offset + length (encode_varint n))"
proof -
  have "unat (of_nat n :: u64) = n" using assms(2) by (simp add: unat_of_nat)
  then show ?thesis using assms(1) by (auto simp add: plugin_read_varint_iff)
qed

lemma advance_end_iff:
  assumes "length input < 2 ^ 64"
  shows "advance_end input offset width = Ok finish \<longleftrightarrow> finish = offset + width \<and> finish \<le> length input"
  using assms by (auto simp add: advance_end_def usize_add_def)

lemma drop_split: "drop offset xs = take n (drop offset xs) @ drop (offset + n) xs"
  by (metis append_take_drop_id drop_drop add.commute)

lemma drop_after: "drop offset xs = ys @ zs \<Longrightarrow> drop (offset + length ys) xs = zs"
  by (metis append_eq_conv_conj drop_drop add.commute)

lemma end_after: "drop offset xs = ys @ zs \<Longrightarrow> ys \<noteq> [] \<Longrightarrow> offset + length ys \<le> length xs"
  by (metis length_append length_drop diff_le_self le_add1 le_diff_conv2 add.commute drop_eq_Nil append_is_Nil_conv
      linorder_le_cases le_trans)

lemma scan_fixed_iff:
  assumes "length input < 2 ^ 64" "0 < width"
  shows "scan_fixed input offset width = Ok finish \<longleftrightarrow>
    (\<exists>bs. drop offset input = bs @ drop finish input \<and> length bs = width \<and> finish = offset + width
      \<and> \<not> list_all (\<lambda>b. b = 0) bs)" (is "?scan \<longleftrightarrow> ?bytes")
proof
  assume ?scan
  then have "finish = offset + width" "finish \<le> length input" "\<not> list_all (\<lambda>b. b = 0) (take width (drop offset input))"
    using advance_end_iff [OF assms(1)] by (auto simp add: scan_fixed_def and_then_ok_iff split: if_splits)
  moreover have "drop offset input = take width (drop offset input) @ drop (offset + width) input"
    by (rule drop_split)
  ultimately show ?bytes by (intro exI [of _ "take width (drop offset input)"]) auto
next
  assume ?bytes
  then obtain bs where bs: "drop offset input = bs @ drop finish input" "length bs = width" "finish = offset + width"
    "\<not> list_all (\<lambda>b. b = 0) bs" by blast
  have "finish \<le> length input" using end_after [OF bs(1)] bs(2,3) assms(2) by auto
  then have "advance_end input offset width = Ok finish" using bs(3) advance_end_iff [OF assms(1)] by simp
  then show ?scan using bs by (simp add: scan_fixed_def)
qed


text \<open>What the scanner accepts as a value is the encoding of one, and ends where the encoding ends.\<close>

lemma scan_value_plain:
  assumes "length input < 2 ^ 64" "scan_value input kind number field offset = Ok (finish, None)"
  shows "\<exists>v. plain_value_ok kind number field v \<and> wire_type v = fs_wire field
    \<and> drop offset input = encode_value v @ drop finish input"
proof -
  consider (varint) "fs_wire field = 0" | (fixed64) "fs_wire field = 1" | (blob) "fs_wire field = 2" | (fixed32) "fs_wire field = 5"
    using assms(2) by (auto simp add: scan_value_def split: if_splits)
  then show ?thesis
  proof cases
    case varint
    then obtain v where "plugin_read_varint input offset = Ok (v, finish)" "v \<noteq> 0"
      "kind = PluginFailure \<and> number = 1 \<longrightarrow> v \<le> 3"
      using assms(2) by (auto simp add: scan_value_def and_then_ok_iff not_less split: if_splits)
    then show ?thesis using varint by (intro exI [of _ "Varint_Value v"]) (auto dest: read_at)
  next
    case fixed64
    then have "scan_fixed input offset 8 = Ok finish"
      using assms(2) by (auto simp add: scan_value_def and_then_ok_iff)
    then obtain bs where "drop offset input = bs @ drop finish input" "length bs = 8" "\<not> list_all (\<lambda>b. b = 0) bs"
      using scan_fixed_iff [OF assms(1)] by auto
    then show ?thesis using fixed64 by (intro exI [of _ "Fixed64_Value bs"]) auto
  next
    case fixed32
    then have "scan_fixed input offset 4 = Ok finish"
      using assms(2) by (auto simp add: scan_value_def and_then_ok_iff)
    then obtain bs where "drop offset input = bs @ drop finish input" "length bs = 4" "\<not> list_all (\<lambda>b. b = 0) bs"
      using scan_fixed_iff [OF assms(1)] by auto
    then show ?thesis using fixed32 by (intro exI [of _ "Fixed32_Value bs"]) auto
  next
    case blob
    then obtain len start where len: "plugin_read_varint input offset = Ok (len, start)"
      "advance_end input start (unat len) = Ok finish" "fs_child field = None" "len \<noteq> 0"
      using assms(2) by (auto simp add: scan_value_def and_then_ok_iff split: option.splits if_splits)
    let ?bs = "take (unat len) (drop start input)"
    have fin: "finish = start + unat len" "finish \<le> length input" using len(2) advance_end_ok by blast+
    then have bs: "length ?bs = unat len" by simp
    have rest: "drop start input = ?bs @ drop finish input" unfolding fin(1) by (rule drop_split)
    have "unat len \<noteq> 0" using len(4) by (simp add: unat_eq_0)
    then have "?bs \<noteq> []" using bs by (metis list.size(3))
    moreover have "drop offset input = encode_varint (unat len) @ drop start input" using read_at [OF len(1)] by blast
    then have "drop offset input = encode_value (Blob_Value ?bs) @ drop finish input"
      unfolding encode_value.simps bs using rest by (metis append_assoc)
    ultimately show ?thesis using blob len(3) by (intro exI [of _ "Blob_Value ?bs"]) simp
  qed
qed

lemma scan_value_embedded:
  assumes "scan_value input kind number field offset = Ok (finish, Some (child, bs))"
  shows "fs_wire field = 2 \<and> fs_child field = Some child \<and> length bs \<le> length input
    \<and> drop offset input = encode_varint (length bs) @ bs @ drop finish input"
proof -
  have wire: "fs_wire field = 2" using assms by (auto simp add: scan_value_def and_then_ok_iff split: if_splits)
  then obtain len start where read: "plugin_read_varint input offset = Ok (len, start)"
    using assms by (cases "plugin_read_varint input offset") (auto simp add: scan_value_def)
  then obtain stop where stop: "advance_end input start (unat len) = Ok stop"
    using assms wire by (cases "advance_end input start (unat len)") (auto simp add: scan_value_def)
  with read have len: "plugin_read_varint input offset = Ok (len, start)"
    "advance_end input start (unat len) = Ok finish" "fs_child field = Some child" "bs = take (unat len) (drop start input)"
    using assms wire by (simp_all add: scan_value_def split: option.splits if_splits)
  have fin: "finish = start + unat len" "finish \<le> length input" using len(2) advance_end_ok by blast+
  have "length bs = unat len" "length bs \<le> length input" using fin len(4) by simp_all
  moreover have "drop start input = bs @ drop finish input" unfolding len(4) fin(1) by (rule drop_split)
  moreover have "drop offset input = encode_varint (unat len) @ drop start input" using read_at [OF len(1)] by blast
  ultimately show ?thesis using len(3) wire by metis
qed

lemma scan_value_encoded:
  assumes "length input < 2 ^ 64" "drop offset input = encode_value v @ rest" "fs_wire field = wire_type v"
    "plain_value_ok kind number field v"
  shows "scan_value input kind number field offset = Ok (offset + length (encode_value v), None)"
proof -
  have nonempty: "encode_value v \<noteq> []" using assms(4) by (cases v) auto
  then have fits: "offset + length (encode_value v) \<le> length input" using end_after assms(2) by blast
  note rest = drop_after [OF assms(2)]
  show ?thesis
  proof (cases v)
    case (Varint_Value w)
    have "plugin_read_varint input offset = Ok (w, offset + length (encode_value v))"
      using assms(2) Varint_Value by (auto simp add: plugin_read_varint_iff)
    then show ?thesis using assms(3,4) Varint_Value by (auto simp add: scan_value_def not_less)
  next
    case (Fixed64_Value bs)
    then have "scan_fixed input offset 8 = Ok (offset + length (encode_value v))"
      using scan_fixed_iff [OF assms(1)] rest assms(2,4) by (auto intro!: exI [of _ bs])
    then show ?thesis using assms(3) Fixed64_Value by (simp add: scan_value_def)
  next
    case (Fixed32_Value bs)
    then have "scan_fixed input offset 4 = Ok (offset + length (encode_value v))"
      using scan_fixed_iff [OF assms(1)] rest assms(2,4) by (auto intro!: exI [of _ bs])
    then show ?thesis using assms(3) Fixed32_Value by (simp add: scan_value_def)
  next
    case (Blob_Value bs)
    have small: "length bs < 2 ^ 64" using fits Blob_Value assms(1) by simp
    have "plugin_read_varint input offset = Ok (of_nat (length bs), offset + length (encode_varint (length bs)))"
      using read_encoded [OF _ small] assms(2) Blob_Value by simp
    moreover have "unat (of_nat (length bs) :: u64) = length bs" using small by (simp add: unat_of_nat)
    moreover from this have "(of_nat (length bs) :: u64) \<noteq> 0" using Blob_Value assms(4) by auto
    ultimately show ?thesis
      using fits assms(3,4) Blob_Value advance_end_iff [OF assms(1)]
      by (auto simp add: scan_value_def and_then_ok_iff add.assoc)
  qed (use assms(4) in simp)
qed


lemma scan_value_encoded_message:
  assumes "length input < 2 ^ 64" "drop offset input = encode_varint (length bs) @ bs @ rest" "fs_wire field = 2"
    "fs_child field = Some child"
  shows "scan_value input kind number field offset =
    Ok (offset + length (encode_varint (length bs)) + length bs, Some (child, bs))"
proof -
  let ?start = "offset + length (encode_varint (length bs))"
  have rest: "drop ?start input = bs @ rest" using drop_after assms(2) by blast
  have fits: "?start + length bs \<le> length input"
    using end_after [of offset input "encode_varint (length bs) @ bs" rest] assms(2) by simp
  then have small: "length bs < 2 ^ 64" using assms(1) by simp
  have "plugin_read_varint input offset = Ok (of_nat (length bs), ?start)" using read_encoded [OF assms(2) small] .
  moreover have "unat (of_nat (length bs) :: u64) = length bs" using small by (simp add: unat_of_nat)
  moreover have "advance_end input ?start (length bs) = Ok (?start + length bs)" using fits advance_end_iff [OF assms(1)] by simp
  ultimately show ?thesis using assms(3,4) rest by (simp add: scan_value_def)
qed

section \<open>The bookkeeping of the fields seen\<close>

text \<open>Numbers rise from field to field, so the bit of a number is never set when its field comes.\<close>

definition observed_below :: "scan_state \<Rightarrow> bool" where
  "observed_below st = (\<forall>n. bit (ss_observed st) n \<longrightarrow> n \<le> unat (ss_last st))"

definition seen_field :: "scan_state \<Rightarrow> u64 \<Rightarrow> field_spec \<Rightarrow> scan_state" where
  "seen_field st number field =
    \<lparr>ss_observed = ss_observed st OR push_bit (unat number) 1, ss_oneof = (ss_oneof st \<or> fs_oneof field), ss_last = number\<rparr>"

lemma observed_below_seen:
  assumes "observed_below st" "ss_last st < number"
  shows "observed_below (seen_field st number field)"
proof -
  have "unat (ss_last st) < unat number" using assms(2) by (simp add: word_less_nat_alt)
  then show ?thesis
    using assms(1) by (auto simp add: observed_below_def seen_field_def bit_or_iff bit_exp_iff)
qed

lemma not_observed:
  assumes "observed_below st" "ss_last st < number"
  shows "ss_observed st AND push_bit (unat number) 1 = 0"
proof (rule bit_word_eqI)
  fix n
  have "unat (ss_last st) < unat number" using assms(2) by (simp add: word_less_nat_alt)
  then have "\<not> bit (ss_observed st) (unat number)" using assms(1) by (auto simp add: observed_below_def)
  then show "bit (ss_observed st AND push_bit (unat number) 1) n = bit (0 :: 16 word) n"
    by (auto simp add: bit_and_iff bit_exp_iff)
qed

lemma key_iff:
  fixes key number :: u64
  shows "drop_bit 3 key = number \<and> unat (key AND 7) = w \<longleftrightarrow> unat key = unat number * 8 + w \<and> w < 8"
proof -
  have "n div 8 = m \<and> n mod 8 = w \<longleftrightarrow> n = m * 8 + w \<and> w < 8" for n m :: nat
    using div_mult_mod_eq [of n 8] by auto
  then show ?thesis unfolding key_parts(2) word_unat_eq_iff key_parts(1) .
qed

lemma scan_key_iff:
  assumes "observed_below st"
  shows "scan_key descriptor_field kind st key = Ok (number, field, st') \<longleftrightarrow>
    unat key = unat number * 8 + fs_wire field \<and> fs_wire field < 8 \<and> fs_wire field \<notin> {3, 4} \<and> ss_last st < number \<and> unat number < 16
    \<and> descriptor_field kind number = Some field \<and> \<not> (fs_oneof field \<and> ss_oneof st) \<and> st' = seen_field st number field"
    (is "?scan \<longleftrightarrow> ?spec")
proof -
  let ?n = "drop_bit 3 key" and ?w = "unat (key AND 7)"
  have parts: "?spec \<longleftrightarrow> ?n = number \<and> ?w = fs_wire field \<and> fs_wire field \<notin> {3, 4} \<and> ss_last st < number \<and> unat number < 16
    \<and> descriptor_field kind number = Some field \<and> \<not> (fs_oneof field \<and> ss_oneof st) \<and> st' = seen_field st number field"
    using key_iff [of key number "fs_wire field"] by blast
  show ?thesis
  proof (cases "descriptor_field kind ?n")
    case None
    then show ?thesis unfolding parts by (auto simp add: scan_key_def Let_def)
  next
    case (Some f)
    show ?thesis
    proof (cases "ss_last st < ?n")
      case True
      then have "ss_observed st AND push_bit (unat ?n) 1 = 0" "?n \<noteq> 0" "\<not> ?n \<le> ss_last st"
        using not_observed [OF assms] by auto
      with Some have run: "scan_key descriptor_field kind st key =
          (if ?w = 3 \<or> ?w = 4 then Err UnsupportedGroup else if ?w \<noteq> fs_wire f then Err WrongWireType
           else if unat ?n \<ge> 16 \<or> fs_oneof f \<and> ss_oneof st then Err DuplicateField else Ok (?n, f, seen_field st ?n f))"
        by (simp add: scan_key_def Let_def seen_field_def)
      show ?thesis
      proof (cases "?w \<notin> {3, 4} \<and> ?w = fs_wire f \<and> unat ?n < 16 \<and> \<not> (fs_oneof f \<and> ss_oneof st)")
        case True
        then have "scan_key descriptor_field kind st key = Ok (?n, f, seen_field st ?n f)" using run by auto
        then have "?scan \<longleftrightarrow> number = ?n \<and> field = f \<and> st' = seen_field st ?n f" by auto
        also have "\<dots> \<longleftrightarrow> ?spec"
          unfolding parts using True \<open>ss_last st < ?n\<close> Some by (cases "number = ?n"; cases "field = f") simp_all
        finally show ?thesis .
      next
        case False
        then have "\<not> ?scan" using run by (auto split: if_splits)
        moreover have "\<not> ?spec" unfolding parts using False Some by auto
        ultimately show ?thesis by blast
      qed
    next
      case False
      then show ?thesis using Some unfolding parts by (auto simp add: scan_key_def Let_def not_less)
    qed
  qed
qed


section \<open>The scanner accepts the grammar\<close>

abbreviation no_fields :: scan_state where
  "no_fields \<equiv> \<lparr>ss_observed = 0, ss_oneof = False, ss_last = 0\<rparr>"

lemma no_fields_observed [simp]: "observed_below no_fields"
  by (simp add: observed_below_def)

text \<open>The fields that may follow those already seen.\<close>

definition rest_wf :: "descriptor \<Rightarrow> plugin_message \<Rightarrow> nat \<Rightarrow> scan_state \<Rightarrow> wire_field list \<Rightarrow> bool" where
  "rest_wf descriptor_field kind levels st fs =
    (sorted_wrt (<) (ss_last st # map field_number fs)
     \<and> length (filter (in_oneof descriptor_field kind) fs) + (if ss_oneof st then 1 else 0) \<le> 1
     \<and> list_all (field_wf descriptor_field kind levels) fs)"

lemma rest_wf_Nil: "rest_wf descriptor_field kind levels st []"
  by (simp add: rest_wf_def)

lemma sorted_wrt_two:
  "sorted_wrt (<) (a # b # xs) \<longleftrightarrow> a < b \<and> sorted_wrt (<) (b # xs)" for a :: "'a :: linorder"
  by auto

lemma rest_wf_Cons:
  assumes "descriptor_field kind (field_number f) = Some field"
  shows "rest_wf descriptor_field kind levels st (f # fs) \<longleftrightarrow>
    field_wf descriptor_field kind levels f \<and> ss_last st < field_number f \<and> \<not> (fs_oneof field \<and> ss_oneof st)
    \<and> rest_wf descriptor_field kind levels (seen_field st (field_number f) field) fs"
proof -
  have "in_oneof descriptor_field kind f = fs_oneof field" using assms by (simp add: in_oneof_def)
  then show ?thesis
    unfolding rest_wf_def list.map sorted_wrt_two by (cases "ss_oneof st") (auto simp add: seen_field_def)
qed

lemma field_wf_number:
  assumes "field_wf descriptor_field kind levels (Wire_Field number v)"
  obtains field where "descriptor_field kind number = Some field" "fs_wire field = wire_type v" "unat number < 16"
proof -
  have "number < 16" using assms by simp
  then have "unat number < 16" by (simp add: word_less_nat_alt)
  with that assms show thesis by (auto split: option.splits)
qed

lemma wire_type_range: "wire_type v < 8" "wire_type v \<notin> {3, 4}"
  by (cases v; simp)+

lemma encode_field_not_empty [simp]: "encode_field f \<noteq> []"
  by (cases f) simp

lemma message_wf_rest:
  "message_wf descriptor_field kind levels fs \<longleftrightarrow> rest_wf descriptor_field kind levels no_fields fs"
proof -
  have "0 < field_number f" if "field_wf descriptor_field kind levels f" for f
    using that by (cases f) simp
  then have "list_all (field_wf descriptor_field kind levels) fs \<Longrightarrow> \<forall>n \<in> set (map field_number fs). 0 < n"
    by (auto simp add: list_all_iff)
  then show ?thesis by (auto simp add: rest_wf_def message_wf.simps)
qed

text \<open>A field at the front of the input, with what stands behind its key and behind its value.\<close>

lemma key_of_field:
  assumes "drop offset input = encode_field (Wire_Field number v) @ rest" "observed_below st"
    "descriptor_field kind number = Some field" "fs_wire field = wire_type v" "unat number < 16"
    "ss_last st < number" "\<not> (fs_oneof field \<and> ss_oneof st)"
  obtains key offset1 where "plugin_read_varint input offset = Ok (key, offset1)"
    "scan_key descriptor_field kind st key = Ok (number, field, seen_field st number field)"
    "drop offset1 input = encode_value v @ rest"
    "offset + length (encode_field (Wire_Field number v)) = offset1 + length (encode_value v)"
proof -
  let ?n = "unat number * 8 + wire_type v"
  have small: "?n < 2 ^ 64" using assms(5) wire_type_range(1) [of v] by simp
  then have n: "unat (of_nat ?n :: u64) = ?n" by (simp only: unat_of_nat) simp
  have at: "drop offset input = encode_varint ?n @ encode_value v @ rest" using assms(1) by simp
  show thesis
  proof (rule that)
    show "plugin_read_varint input offset = Ok (of_nat ?n, offset + length (encode_varint ?n))"
      using read_encoded [OF at small] .
    show "scan_key descriptor_field kind st (of_nat ?n) = Ok (number, field, seen_field st number field)"
      unfolding scan_key_iff [OF assms(2)] using n wire_type_range [of v] assms(3-7) by auto
    show "drop (offset + length (encode_varint ?n)) input = encode_value v @ rest" using drop_after [OF at] .
  qed simp
qed


text \<open>One turn of the loop.\<close>

lemma scan_fields_turn:
  assumes "offset < length input" "scan_fields descriptor_field input kind current_depth maximum_depth offset st = Ok ()"
  obtains key offset1 number field st' finish child where "plugin_read_varint input offset = Ok (key, offset1)"
    "scan_key descriptor_field kind st key = Ok (number, field, st')"
    "scan_value input kind number field offset1 = Ok (finish, child)"
proof -
  obtain key offset1 where key: "plugin_read_varint input offset = Ok (key, offset1)"
    using assms by (auto simp add: scan_fields.simps [of _ _ _ _ _ offset] split: sum.splits)
  moreover obtain number field st' where "scan_key descriptor_field kind st key = Ok (number, field, st')"
    using assms key by (auto simp add: scan_fields.simps [of _ _ _ _ _ offset] split: sum.splits)
  moreover from this obtain r where "scan_value input kind number field offset1 = Ok r"
    using assms key by (auto simp add: scan_fields.simps [of _ _ _ _ _ offset] split: sum.splits)
  ultimately show thesis using that by (cases r) blast
qed

lemma scan_fields_plain:
  assumes "offset < length input" "plugin_read_varint input offset = Ok (key, offset1)"
    "scan_key descriptor_field kind st key = Ok (number, field, st')"
    "scan_value input kind number field offset1 = Ok (finish, None)"
  shows "scan_fields descriptor_field input kind current_depth maximum_depth offset st =
    scan_fields descriptor_field input kind current_depth maximum_depth finish st'"
  using assms by (subst scan_fields.simps) simp

lemma scan_fields_embedded:
  assumes "offset < length input" "plugin_read_varint input offset = Ok (key, offset1)"
    "scan_key descriptor_field kind st key = Ok (number, field, st')"
    "scan_value input kind number field offset1 = Ok (finish, Some (child, bs))" "maximum_depth < 256"
  shows "scan_fields descriptor_field input kind current_depth maximum_depth offset st = Ok () \<longleftrightarrow>
    current_depth < maximum_depth
    \<and> scan_fields descriptor_field bs child (current_depth + 1) maximum_depth 0 no_fields = Ok ()
    \<and> scan_fields descriptor_field input kind current_depth maximum_depth finish st' = Ok ()"
  using assms by (subst scan_fields.simps) (auto split: sum.splits)

lemma scan_fields_sound:
  assumes "length input < 2 ^ 64" "observed_below st" "current_depth \<le> maximum_depth" "maximum_depth < 256"
    "scan_fields descriptor_field input kind current_depth maximum_depth offset st = Ok ()"
  shows "\<exists>fs. drop offset input = encode_fields fs \<and> rest_wf descriptor_field kind (maximum_depth - current_depth) st fs"
  using assms(1-3,5)
proof (induction "length input - offset" arbitrary: input kind current_depth offset st rule: less_induct)
  case less
  show ?case
  proof (cases "offset < length input")
    case False
    then show ?thesis by (intro exI [of _ "[]"]) (simp add: rest_wf_Nil)
  next
    case True
    from scan_fields_turn [OF True less.prems(4)]
    obtain key offset1 number field st' finish child where turn: "plugin_read_varint input offset = Ok (key, offset1)"
      "scan_key descriptor_field kind st key = Ok (number, field, st')"
      "scan_value input kind number field offset1 = Ok (finish, child)" by blast
    note key = turn(2) [unfolded scan_key_iff [OF less.prems(2)]]
    then have seen: "observed_below st'" using observed_below_seen [OF less.prems(2)] by simp
    have at: "drop offset input = encode_varint (unat number * 8 + fs_wire field) @ drop offset1 input"
      using read_at [OF turn(1)] key by simp
    have front: ?thesis if v: "drop offset1 input = encode_value v @ drop finish input" "wire_type v = fs_wire field"
      "field_wf descriptor_field kind (maximum_depth - current_depth) (Wire_Field number v)"
      and rest: "scan_fields descriptor_field input kind current_depth maximum_depth finish st' = Ok ()" for v
    proof -
      have "length input - finish < length input - offset"
        using scan_value_progress [OF turn(3)] plugin_read_varint_progress [OF turn(1)] by auto
      from less.hyps [OF this less.prems(1) seen less.prems(3) rest]
      obtain fs where fs: "drop finish input = encode_fields fs" "rest_wf descriptor_field kind (maximum_depth - current_depth) st' fs"
        by blast
      have "drop offset input = encode_fields (Wire_Field number v # fs)" using at v(1,2) fs(1) by simp
      moreover have "rest_wf descriptor_field kind (maximum_depth - current_depth) st (Wire_Field number v # fs)"
        using rest_wf_Cons [of descriptor_field kind "Wire_Field number v" field] key v(3) fs(2) by simp
      ultimately show ?thesis by blast
    qed
    have number: "0 < number" "number < 16" using key by (auto simp add: word_less_nat_alt)
    show ?thesis
    proof (cases child)
      case None
      then have plain: "scan_value input kind number field offset1 = Ok (finish, None)" using turn(3) by simp
      obtain v where v: "plain_value_ok kind number field v" "wire_type v = fs_wire field"
        "drop offset1 input = encode_value v @ drop finish input"
        using scan_value_plain [OF less.prems(1) plain] by blast
      show ?thesis
      proof (rule front [OF v(3,2)])
        show "field_wf descriptor_field kind (maximum_depth - current_depth) (Wire_Field number v)"
          using v(1,2) key number by simp
        show "scan_fields descriptor_field input kind current_depth maximum_depth finish st' = Ok ()"
          using scan_fields_plain [OF True turn(1,2) plain] less.prems(4) by simp
      qed
    next
      case (Some c)
      obtain k bs where embedded: "scan_value input kind number field offset1 = Ok (finish, Some (k, bs))"
        using turn(3) Some by (cases c) simp
      note bs = scan_value_embedded [OF embedded] and
        parts = scan_fields_embedded [OF True turn(1,2) embedded assms(4), THEN iffD1, OF less.prems(4)]
      have "length bs - 0 < length input - offset"
        using scan_value_progress [OF embedded] plugin_read_varint_progress [OF turn(1)] by auto
      moreover have "length bs < 2 ^ 64" "current_depth + 1 \<le> maximum_depth" using bs parts less.prems(1) by auto
      ultimately obtain fs where fs: "bs = encode_fields fs"
        "message_wf descriptor_field k (maximum_depth - current_depth - 1) fs"
        using less.hyps [of bs 0 no_fields "current_depth + 1" k] parts by (auto simp add: message_wf_rest)
      show ?thesis
      proof (rule front [of "Message_Value fs"])
        show "field_wf descriptor_field kind (maximum_depth - current_depth) (Wire_Field number (Message_Value fs))"
          using bs key number fs(2) parts by simp
      qed (use bs fs(1) parts in \<open>simp_all add: Let_def\<close>)
    qed
  qed
qed

lemma scan_fields_complete:
  assumes "length input < 2 ^ 64" "observed_below st" "current_depth \<le> maximum_depth" "maximum_depth < 256"
    "drop offset input = encode_fields fs" "rest_wf descriptor_field kind (maximum_depth - current_depth) st fs"
  shows "scan_fields descriptor_field input kind current_depth maximum_depth offset st = Ok ()"
  using assms(1-3,5,6)
proof (induction "length input - offset" arbitrary: input kind current_depth offset st fs rule: less_induct)
  case less
  show ?case
  proof (cases fs)
    case Nil
    then show ?thesis using less.prems(4) by (simp add: scan_fields.simps)
  next
    case (Cons f rest)
    obtain number v where f: "f = Wire_Field number v" by (cases f)
    have wf: "field_wf descriptor_field kind (maximum_depth - current_depth) (Wire_Field number v)"
      using less.prems(5) Cons f by (simp add: rest_wf_def)
    then obtain field where field: "descriptor_field kind number = Some field" "fs_wire field = wire_type v" "unat number < 16"
      by (rule field_wf_number)
    have tail: "ss_last st < number" "\<not> (fs_oneof field \<and> ss_oneof st)"
      "rest_wf descriptor_field kind (maximum_depth - current_depth) (seen_field st number field) rest"
      using less.prems(5) rest_wf_Cons [of descriptor_field kind f field] field(1) unfolding Cons f by simp_all
    have at: "drop offset input = encode_field (Wire_Field number v) @ encode_fields rest" using less.prems(4) Cons f by simp
    then have inside: "offset < length input" using encode_field_not_empty
      by (metis append_is_Nil_conv drop_eq_Nil not_le)
    obtain key offset1 where key: "plugin_read_varint input offset = Ok (key, offset1)"
      "scan_key descriptor_field kind st key = Ok (number, field, seen_field st number field)"
      "drop offset1 input = encode_value v @ encode_fields rest"
      using key_of_field [of offset input number v, OF at less.prems(2), of descriptor_field kind field, OF field tail(1,2)] by blast
    let ?finish = "offset1 + length (encode_value v)"
    have behind: "drop ?finish input = encode_fields rest" using drop_after [OF key(3)] .
    have "length input - ?finish < length input - offset"
      using plugin_read_varint_progress [OF key(1)] inside by auto
    from less.hyps [OF this less.prems(1) observed_below_seen [OF less.prems(2) tail(1)] less.prems(3) behind tail(3)]
    have more: "scan_fields descriptor_field input kind current_depth maximum_depth ?finish (seen_field st number field) = Ok ()" .
    show ?thesis
    proof (cases "plain_value_ok kind number field v")
      case True
      from scan_value_encoded [OF less.prems(1) key(3) field(2) this]
      show ?thesis using scan_fields_plain [OF inside key(1,2)] more by simp
    next
      case False
      then obtain fs' child where v: "v = Message_Value fs'" "fs_child field = Some child" "0 < maximum_depth - current_depth"
        "message_wf descriptor_field child (maximum_depth - current_depth - 1) fs'"
        using wf field(1) by (auto split: wire_value.splits option.splits)
      let ?bs = "encode_fields fs'"
      have bs: "drop offset1 input = encode_varint (length ?bs) @ ?bs @ encode_fields rest" using key(3) v(1) by (simp add: Let_def)
      have "offset1 + length (encode_varint (length ?bs)) + length ?bs = ?finish" using v(1) by (simp add: Let_def)
      with scan_value_encoded_message [OF less.prems(1) bs _ v(2)] field(2) v(1)
      have embedded: "scan_value input kind number field offset1 = Ok (?finish, Some (child, ?bs))" by simp
      have "length ?bs - 0 < length input - offset"
        using scan_value_progress [OF embedded] plugin_read_varint_progress [OF key(1)] by auto
      moreover have "length ?bs < 2 ^ 64" using scan_value_embedded [OF embedded] less.prems(1) by auto
      ultimately have "scan_fields descriptor_field ?bs child (current_depth + 1) maximum_depth 0 no_fields = Ok ()"
        using less.hyps [of ?bs 0 no_fields "current_depth + 1" fs' child] v(3,4) by (simp add: message_wf_rest)
      then show ?thesis using scan_fields_embedded [OF inside key(1,2) embedded assms(4)] more v(3) by simp
    qed
  qed
qed


text \<open>The table that \<open>build.rs\<close> generates from the messages of \<open>control.proto\<close>: an unsigned or
  enumerated field is a varint, a \<open>fixed64\<close> field has eight bytes, bytes and messages are delimited by
  their length, and the members of \<open>body\<close> form the oneof.\<close>

definition varint_spec :: field_spec where "varint_spec = \<lparr>fs_wire = 0, fs_child = None, fs_oneof = False\<rparr>"
definition fixed64_spec :: field_spec where "fixed64_spec = \<lparr>fs_wire = 1, fs_child = None, fs_oneof = False\<rparr>"
definition bytes_spec :: field_spec where "bytes_spec = \<lparr>fs_wire = 2, fs_child = None, fs_oneof = False\<rparr>"
definition body_spec :: "plugin_message \<Rightarrow> field_spec" where
  "body_spec child = \<lparr>fs_wire = 2, fs_child = Some child, fs_oneof = True\<rparr>"

fun control_fields :: "plugin_message \<Rightarrow> (u64 \<times> field_spec) list" where
  "control_fields HostEnvelope =
    [(1, varint_spec), (2, body_spec HostHello), (3, body_spec PingRequest), (4, body_spec ShutdownRequest)]"
| "control_fields PluginEnvelope =
    [(1, varint_spec), (2, body_spec PluginHello), (3, body_spec PingResponse), (4, body_spec ShutdownResponse),
     (5, body_spec PluginFailure)]"
| "control_fields HostHello =
    [(1, varint_spec), (2, varint_spec), (3, bytes_spec), (4, varint_spec), (5, varint_spec)]"
| "control_fields PluginHello = [(1, varint_spec), (2, varint_spec), (3, bytes_spec)]"
| "control_fields PingRequest = [(1, fixed64_spec)]"
| "control_fields PingResponse = [(1, fixed64_spec)]"
| "control_fields ShutdownRequest = []"
| "control_fields ShutdownResponse = []"
| "control_fields PluginFailure = [(1, varint_spec)]"

definition control_descriptor :: descriptor where
  "control_descriptor kind number = map_of (control_fields kind) number"

lemmas control_specs = control_descriptor_def varint_spec_def fixed64_spec_def bytes_spec_def body_spec_def

text \<open>C8. The closed plugin codec accepts exactly one spelling of each message: \<open>validate_message\<close>
  succeeds on a payload if and only if the payload is the canonical encoding of a well-formed message - fields in
  the order of their numbers, none twice, at most one of a oneof, each with the wire type of its descriptor,
  no default values, no deeper than the limit.  The bit set of the fields seen never decides anything.\<close>

theorem validate_message_grammar:
  assumes "plugin_depth_new depth = Ok limit" "length input < 2 ^ 64"
  shows "validate_message descriptor_field input root limit = Ok () \<longleftrightarrow>
    (\<exists>fs. input = encode_fields fs \<and> message_wf descriptor_field root (limit - 1) fs)"
proof -
  have limit: "1 \<le> limit" "limit < 256"
    using assms(1) by (auto simp add: plugin_depth_new_def MIN_PLUGIN_DEPTH_def MAX_PLUGIN_DEPTH_def split: if_splits)
  have run: "validate_message descriptor_field input root limit =
      scan_fields descriptor_field input root 1 limit 0 no_fields"
    using limit by (simp add: validate_message_def plugin_scan_message_def)
  show ?thesis
    unfolding run message_wf_rest
    using scan_fields_sound [OF assms(2) no_fields_observed limit, of descriptor_field root 0]
      scan_fields_complete [OF assms(2) no_fields_observed limit, of 0 _ descriptor_field root] by auto
qed

theorem validate_message_grammar_witness:
  "validate_message control_descriptor [8, 7, 26, 9, 9, 1, 0, 0, 0, 0, 0, 0, 0] PluginEnvelope 4 = Ok ()"
proof -
  let ?fs = "[Wire_Field 1 (Varint_Value 7), Wire_Field 3 (Message_Value [Wire_Field 1 (Fixed64_Value [1, 0, 0, 0, 0, 0, 0, 0])])]"
  have depth: "plugin_depth_new 4 = Ok 4" by (simp add: plugin_depth_new_def MIN_PLUGIN_DEPTH_def MAX_PLUGIN_DEPTH_def)
  have bytes: "[8, 7, 26, 9, 9, 1, 0, 0, 0, 0, 0, 0, 0] = encode_fields ?fs"
    by (simp add: encode_varint.simps Let_def)
  have wf: "message_wf control_descriptor PluginEnvelope (4 - 1) ?fs"
    by (simp add: message_wf.simps control_specs in_oneof_def)
  have "length ([8, 7, 26, 9, 9, 1, 0, 0, 0, 0, 0, 0, 0] :: bytes) < 2 ^ 64" by simp
  from iffD2 [OF validate_message_grammar [OF depth this] exI, OF conjI, OF bytes wf]
  show ?thesis .
qed

end
