(* ===== verification/Plugin_Codec.thy ===== *)
theory Plugin_Codec
  imports Plugin_Wire Framing
begin

text \<open>
  The envelopes of the private plugin protocol, \<open>crates/mengxia-plugin-proto/src/codec.rs\<close> and
  \<open>lib.rs\<close>, over the frames of \<open>Framing\<close> and the closed wire check of \<open>Plugin_Wire\<close>.
  The \<open>prost\<close> crate, which turns an envelope into bytes and back, is not part of the repository: its two
  functions are the parameters \<open>prost_encode\<close> and \<open>prost_decode\<close>.
\<close>

section \<open>Envelopes\<close>

definition PROTOCOL_MAJOR :: u32 where "PROTOCOL_MAJOR = 1"
definition PROTOCOL_MINOR :: u32 where "PROTOCOL_MINOR = 0"
definition SESSION_CHALLENGE_BYTES :: nat where "SESSION_CHALLENGE_BYTES = 32"
definition MAX_IN_FLIGHT_REQUESTS :: u32 where "MAX_IN_FLIGHT_REQUESTS = 1"

record host_hello =
  hh_protocol_major :: u32
  hh_protocol_minor :: u32
  hh_session_challenge :: bytes
  hh_max_frame_bytes :: u32
  hh_max_in_flight_requests :: u32

record plugin_hello =
  ph_protocol_major :: u32
  ph_protocol_minor :: u32
  ph_session_challenge :: bytes

datatype host_body = Host_Hello host_hello | Host_Ping u64 | Host_Shutdown

datatype plugin_body = Plugin_Hello plugin_hello | Plugin_Ping u64 | Plugin_Shutdown | Plugin_Failed int

record host_envelope =
  he_sequence :: u64
  he_body :: "host_body option"

record plugin_envelope =
  pe_sequence :: u64
  pe_body :: "plugin_body option"

section \<open>The codec\<close>

definition validate_host_semantics :: "host_envelope \<Rightarrow> protocol_codec_error + unit" where
  "validate_host_semantics e =
    (case he_body e of
       Some (Host_Hello hello) \<Rightarrow>
         if length (hh_session_challenge hello) = SESSION_CHALLENGE_BYTES
           \<and> hh_max_frame_bytes hello \<noteq> 0 \<and> hh_max_in_flight_requests hello \<noteq> 0
         then Ok () else Err InvalidSemanticValue
     | Some (Host_Ping _) \<Rightarrow> Ok ()
     | Some Host_Shutdown \<Rightarrow> Ok ()
     | None \<Rightarrow> Err InvalidSemanticValue)"

definition validate_plugin_semantics :: "plugin_envelope \<Rightarrow> protocol_codec_error + unit" where
  "validate_plugin_semantics e =
    (case pe_body e of
       Some (Plugin_Hello hello) \<Rightarrow>
         if length (ph_session_challenge hello) = SESSION_CHALLENGE_BYTES then Ok () else Err InvalidSemanticValue
     | Some (Plugin_Ping _) \<Rightarrow> Ok ()
     | Some Plugin_Shutdown \<Rightarrow> Ok ()
     | Some (Plugin_Failed code) \<Rightarrow> if 1 \<le> code \<and> code \<le> 3 then Ok () else Err InvalidSemanticValue
     | None \<Rightarrow> Err InvalidSemanticValue)"

definition decode_host_envelope ::
  "(bytes \<Rightarrow> host_envelope option) \<Rightarrow> bytes \<Rightarrow> nat \<Rightarrow> protocol_codec_error + host_envelope" where
  "decode_host_envelope prost_decode payload depth =
    and_then (validate_message control_descriptor payload HostEnvelope depth) (\<lambda>_.
    and_then (ok_or Codec_Truncated (prost_decode payload)) (\<lambda>envelope.
    and_then (validate_host_semantics envelope) (\<lambda>_. Ok envelope)))"

definition decode_plugin_envelope ::
  "(bytes \<Rightarrow> plugin_envelope option) \<Rightarrow> bytes \<Rightarrow> nat \<Rightarrow> protocol_codec_error + plugin_envelope" where
  "decode_plugin_envelope prost_decode payload depth =
    and_then (validate_message control_descriptor payload PluginEnvelope depth) (\<lambda>_.
    and_then (ok_or Codec_Truncated (prost_decode payload)) (\<lambda>envelope.
    and_then (validate_plugin_semantics envelope) (\<lambda>_. Ok envelope)))"

fun map_frame_error :: "frame_error \<Rightarrow> protocol_codec_error" where
  "map_frame_error InvalidLimit = Codec_InvalidLimit"
| "map_frame_error InvalidLength = InvalidFrameLength"
| "map_frame_error Truncated = Codec_Transport"
| "map_frame_error AllocationUnavailable = Codec_AllocationUnavailable"
| "map_frame_error Transport = Codec_Transport"

fun map_outbound_frame_error :: "frame_error \<Rightarrow> protocol_codec_error" where
  "map_outbound_frame_error Transport = Codec_Transport"
| "map_outbound_frame_error AllocationUnavailable = Codec_AllocationUnavailable"
| "map_outbound_frame_error InvalidLimit = Codec_InvalidLimit"
| "map_outbound_frame_error InvalidLength = Codec_InvalidLimit"
| "map_outbound_frame_error Truncated = Codec_InvalidLimit"

text \<open>Reading an envelope consumes a frame even when the payload is refused.\<close>

definition read_host_envelope ::
  "(bytes \<Rightarrow> host_envelope option) \<Rightarrow> (nat \<Rightarrow> bool) \<Rightarrow> frame_reader \<Rightarrow> frame_limit \<Rightarrow> nat
    \<Rightarrow> (protocol_codec_error + host_envelope) \<times> frame_reader" where
  "read_host_envelope prost_decode reserve reader limit depth =
    (case read_frame reserve reader limit of
       (r, reader') \<Rightarrow> (and_then (map_err map_frame_error r) (\<lambda>payload. decode_host_envelope prost_decode payload depth), reader'))"

definition read_plugin_envelope ::
  "(bytes \<Rightarrow> plugin_envelope option) \<Rightarrow> (nat \<Rightarrow> bool) \<Rightarrow> frame_reader \<Rightarrow> frame_limit \<Rightarrow> nat
    \<Rightarrow> (protocol_codec_error + plugin_envelope) \<times> frame_reader" where
  "read_plugin_envelope prost_decode reserve reader limit depth =
    (case read_frame reserve reader limit of
       (r, reader') \<Rightarrow> (and_then (map_err map_frame_error r) (\<lambda>payload. decode_plugin_envelope prost_decode payload depth), reader'))"

definition write_host_envelope ::
  "(host_envelope \<Rightarrow> bytes) \<Rightarrow> frame_writer \<Rightarrow> host_envelope \<Rightarrow> frame_limit
    \<Rightarrow> (protocol_codec_error + unit) \<times> frame_writer" where
  "write_host_envelope prost_encode writer envelope limit =
    (case write_frame writer (prost_encode envelope) limit of (r, writer') \<Rightarrow> (map_err map_outbound_frame_error r, writer'))"

definition write_plugin_envelope ::
  "(plugin_envelope \<Rightarrow> bytes) \<Rightarrow> frame_writer \<Rightarrow> plugin_envelope \<Rightarrow> frame_limit
    \<Rightarrow> (protocol_codec_error + unit) \<times> frame_writer" where
  "write_plugin_envelope prost_encode writer envelope limit =
    (case write_frame writer (prost_encode envelope) limit of (r, writer') \<Rightarrow> (map_err map_outbound_frame_error r, writer'))"


section \<open>Canonical serialization\<close>

text \<open>What proto3 prescribes for the messages of \<open>control.proto\<close>: fields in the order of their numbers,
  a field with its default value left out, the chosen member of the oneof always present, \<open>fixed64\<close> in
  little-endian order.  These functions describe the encoder; the program does not contain them.\<close>

definition varint_field :: "u64 \<Rightarrow> u64 \<Rightarrow> wire_field list" where
  "varint_field number v = (if v = 0 then [] else [Wire_Field number (Varint_Value v)])"

definition bytes_field :: "u64 \<Rightarrow> bytes \<Rightarrow> wire_field list" where
  "bytes_field number bs = (if bs = [] then [] else [Wire_Field number (Blob_Value bs)])"

definition fixed64_field :: "u64 \<Rightarrow> u64 \<Rightarrow> wire_field list" where
  "fixed64_field number v = (if v = 0 then [] else [Wire_Field number (Fixed64_Value (rev (u64_to_be_bytes v)))])"

fun host_body_field :: "host_body \<Rightarrow> wire_field" where
  "host_body_field (Host_Hello h) = Wire_Field 2 (Message_Value
    (varint_field 1 (ucast (hh_protocol_major h)) @ varint_field 2 (ucast (hh_protocol_minor h))
     @ bytes_field 3 (hh_session_challenge h) @ varint_field 4 (ucast (hh_max_frame_bytes h))
     @ varint_field 5 (ucast (hh_max_in_flight_requests h))))"
| "host_body_field (Host_Ping nonce) = Wire_Field 3 (Message_Value (fixed64_field 1 nonce))"
| "host_body_field Host_Shutdown = Wire_Field 4 (Message_Value [])"

fun plugin_body_field :: "plugin_body \<Rightarrow> wire_field" where
  "plugin_body_field (Plugin_Hello h) = Wire_Field 2 (Message_Value
    (varint_field 1 (ucast (ph_protocol_major h)) @ varint_field 2 (ucast (ph_protocol_minor h))
     @ bytes_field 3 (ph_session_challenge h)))"
| "plugin_body_field (Plugin_Ping nonce) = Wire_Field 3 (Message_Value (fixed64_field 1 nonce))"
| "plugin_body_field Plugin_Shutdown = Wire_Field 4 (Message_Value [])"
| "plugin_body_field (Plugin_Failed code) = Wire_Field 5 (Message_Value (varint_field 1 (of_int code)))"

definition host_fields :: "host_envelope \<Rightarrow> wire_field list" where
  "host_fields e = varint_field 1 (he_sequence e) @ (case he_body e of None \<Rightarrow> [] | Some b \<Rightarrow> [host_body_field b])"

definition plugin_fields :: "plugin_envelope \<Rightarrow> wire_field list" where
  "plugin_fields e = varint_field 1 (pe_sequence e) @ (case pe_body e of None \<Rightarrow> [] | Some b \<Rightarrow> [plugin_body_field b])"

lemma be_bytes_zero:
  assumes "list_all (\<lambda>b. b = 0) (u64_to_be_bytes v)"
  shows "v = 0"
proof -
  have "u64_to_be_bytes v = replicate 8 0"
    using assms by (intro replicate_eqI) (simp_all add: list_all_iff)
  moreover have "u64_to_be_bytes 0 = replicate 8 0" by code_simp
  ultimately show ?thesis by (metis u64_from_to_be_bytes)
qed

lemma nonce_wf: "message_wf control_descriptor kind levels (fixed64_field 1 nonce)"
  if "kind = PingRequest \<or> kind = PingResponse"
  using that be_bytes_zero [of nonce]
  by (auto simp add: message_wf.simps fixed64_field_def control_specs in_oneof_def)

lemma host_hello_wf:
  "message_wf control_descriptor HostHello levels
    (varint_field 1 a @ varint_field 2 b @ bytes_field 3 c @ varint_field 4 d @ varint_field 5 e)"
  by (simp add: message_wf.simps varint_field_def bytes_field_def control_specs in_oneof_def)

lemma plugin_hello_wf:
  "message_wf control_descriptor PluginHello levels (varint_field 1 a @ varint_field 2 b @ bytes_field 3 c)"
  by (simp add: message_wf.simps varint_field_def bytes_field_def control_specs in_oneof_def)

lemma no_fields_wf: "message_wf control_descriptor kind levels []"
  by (simp add: message_wf.simps)

lemma failure_wf:
  assumes "1 \<le> code" "code \<le> 3"
  shows "message_wf control_descriptor PluginFailure levels (varint_field 1 (of_int code))"
proof -
  have "code = 1 \<or> code = 2 \<or> code = 3" using assms by arith
  then show ?thesis by (auto simp add: message_wf.simps varint_field_def control_specs in_oneof_def)
qed

text \<open>An envelope is a sequence number and one member of the oneof.\<close>

lemma envelope_wf:
  assumes "control_descriptor kind 1 = Some varint_spec" "kind \<noteq> PluginFailure" "0 < levels"
    "control_descriptor kind n = Some (body_spec child)" "1 < n" "n < 16" "message_wf control_descriptor child (levels - 1) fs"
  shows "message_wf control_descriptor kind levels (varint_field 1 seq @ [Wire_Field n (Message_Value fs)])"
proof -
  have "0 < n" using assms(5) by (simp add: word_less_nat_alt)
  then have "field_wf control_descriptor kind levels (Wire_Field n (Message_Value fs))"
    using assms(3-7) by (simp add: body_spec_def)
  moreover have "field_wf control_descriptor kind levels (Wire_Field 1 (Varint_Value seq))" if "seq \<noteq> 0"
    using assms(1,2) that by (simp add: varint_spec_def)
  ultimately show ?thesis
    unfolding message_wf.simps [of _ kind] using assms(1,5)
    by (cases "seq = 0") (simp_all add: varint_field_def in_oneof_def varint_spec_def)
qed

lemma host_fields_wf:
  assumes "validate_host_semantics e = Ok ()" "0 < levels"
  shows "message_wf control_descriptor HostEnvelope levels (host_fields e)"
proof -
  obtain b where b: "he_body e = Some b" using assms(1) by (auto simp add: validate_host_semantics_def split: option.splits)
  have "control_descriptor HostEnvelope 1 = Some varint_spec" by (simp add: control_descriptor_def)
  note envelope = envelope_wf [OF this _ assms(2)]
  show ?thesis
  proof (cases b)
    case (Host_Hello h)
    then show ?thesis
      using b by (simp add: host_fields_def) (rule envelope [of _ HostHello], simp_all add: control_descriptor_def host_hello_wf)
  next
    case (Host_Ping nonce)
    then show ?thesis
      using b by (simp add: host_fields_def) (rule envelope [of _ PingRequest], simp_all add: control_descriptor_def nonce_wf)
  next
    case Host_Shutdown
    then show ?thesis
      using b by (simp add: host_fields_def) (rule envelope [of _ ShutdownRequest], simp_all add: control_descriptor_def no_fields_wf)
  qed
qed

lemma plugin_fields_wf:
  assumes "validate_plugin_semantics e = Ok ()" "0 < levels"
  shows "message_wf control_descriptor PluginEnvelope levels (plugin_fields e)"
proof -
  obtain b where b: "pe_body e = Some b" using assms(1) by (auto simp add: validate_plugin_semantics_def split: option.splits)
  have "control_descriptor PluginEnvelope 1 = Some varint_spec" by (simp add: control_descriptor_def)
  note envelope = envelope_wf [OF this _ assms(2)]
  show ?thesis
  proof (cases b)
    case (Plugin_Hello h)
    then show ?thesis
      using b by (simp add: plugin_fields_def) (rule envelope [of _ PluginHello], simp_all add: control_descriptor_def plugin_hello_wf)
  next
    case (Plugin_Ping nonce)
    then show ?thesis
      using b by (simp add: plugin_fields_def) (rule envelope [of _ PingResponse], simp_all add: control_descriptor_def nonce_wf)
  next
    case Plugin_Shutdown
    then show ?thesis
      using b by (simp add: plugin_fields_def) (rule envelope [of _ ShutdownResponse], simp_all add: control_descriptor_def no_fields_wf)
  next
    case (Plugin_Failed code)
    then have "1 \<le> code" "code \<le> 3" using assms(1) b by (auto simp add: validate_plugin_semantics_def split: if_splits)
    with Plugin_Failed show ?thesis
      using b by (simp add: plugin_fields_def) (rule envelope [of _ PluginFailure], simp_all add: control_descriptor_def failure_wf)
  qed
qed


section \<open>An envelope that is sent is received\<close>

text \<open>The contract between the semantic check of one kind of envelope and its serialization.\<close>

locale envelope_contract =
  fixes kind :: plugin_message
    and accepts :: "'e \<Rightarrow> protocol_codec_error + unit"
    and message_fields :: "'e \<Rightarrow> wire_field list"
  assumes accepted_wf: "accepts e = Ok () \<Longrightarrow> 0 < levels \<Longrightarrow> message_wf control_descriptor kind levels (message_fields e)"
begin

lemma sent_is_decoded:
  assumes "accepts e = Ok ()" "plugin_depth_new depth = Ok limit" "length payload < 2 ^ 64"
    "payload = encode_fields (message_fields e)" "prost_decode payload = Some e"
  shows "and_then (validate_message control_descriptor payload kind limit) (\<lambda>_.
    and_then (ok_or Codec_Truncated (prost_decode payload)) (\<lambda>e. and_then (accepts e) (\<lambda>_. Ok e))) = Ok e"
proof -
  have "1 \<le> limit" "limit < 256" "0 < limit - 1"
    using assms(2) by (auto simp add: plugin_depth_new_def MIN_PLUGIN_DEPTH_def MAX_PLUGIN_DEPTH_def split: if_splits)
  then have "validate_message control_descriptor payload kind limit = Ok ()"
    using scan_fields_complete [OF assms(3) no_fields_observed, of 1 limit 0] accepted_wf [OF assms(1), of "limit - 1"] assms(4)
    by (simp add: validate_message_def plugin_scan_message_def message_wf_rest)
  then show ?thesis using assms(1,5) by simp
qed

lemma sent_is_received:
  assumes "accepts e = Ok ()" "plugin_depth_new depth = Ok limit"
    "payload = encode_fields (message_fields e)" "prost_decode payload = Some e"
    "write_frame writer payload frame = (Ok u, writer')" "reserve (length payload)"
    "arriving reader = drop (length (sent writer)) (sent writer') @ rest"
  shows "(case read_frame reserve reader frame of (r, reader') \<Rightarrow>
      (and_then (map_err map_frame_error r) (\<lambda>payload. and_then (validate_message control_descriptor payload kind limit) (\<lambda>_.
        and_then (ok_or Codec_Truncated (prost_decode payload)) (\<lambda>e. and_then (accepts e) (\<lambda>_. Ok e)))), reader'))
    = (Ok e, reader\<lparr>arriving := rest\<rparr>)"
proof -
  have p: "payload \<noteq> []" "length payload \<le> unat frame" "sent writer' = sent writer @ encode_frame payload"
    using write_frame_ok [OF assms(5)] by simp_all
  then have "read_frame reserve reader frame = (Ok payload, reader\<lparr>arriving := rest\<rparr>)"
    using read_frame_encoded [of payload frame reserve, OF p(1,2) assms(6)] assms(7) by simp
  moreover have "length payload < 2 ^ 64" using p(2) unat_bound [of frame] by simp
  ultimately show ?thesis using sent_is_decoded [where prost_decode = prost_decode, OF assms(1,2) _ assms(3,4)] by simp
qed

end

interpretation host_contract: envelope_contract HostEnvelope validate_host_semantics host_fields
  by unfold_locales (rule host_fields_wf)

interpretation plugin_contract: envelope_contract PluginEnvelope validate_plugin_semantics plugin_fields
  by unfold_locales (rule plugin_fields_wf)

text \<open>C18. Every envelope that either side writes and that makes sense is read back by the other side: framing,
  the closed wire check and the semantic check accept it, and the reader stands behind its frame.  The codec crate is
  assumed to serialize as proto3 prescribes and to decode what it encoded.\<close>

theorem envelopes_roundtrip:
  assumes "plugin_depth_new depth = Ok limit" "\<And>n. n \<le> unat frame \<Longrightarrow> reserve n"
    and host: "host_encode h = encode_fields (host_fields h)" "host_decode (host_encode h) = Some h"
    and plugin: "plugin_encode e = encode_fields (plugin_fields e)" "plugin_decode (plugin_encode e) = Some e"
  shows "(validate_host_semantics h = Ok () \<and> write_host_envelope host_encode writer h frame = (Ok (), writer')
      \<and> arriving reader = drop (length (sent writer)) (sent writer') @ rest \<longrightarrow>
      read_host_envelope host_decode reserve reader frame limit = (Ok h, reader\<lparr>arriving := rest\<rparr>))
    \<and> (validate_plugin_semantics e = Ok () \<and> write_plugin_envelope plugin_encode writer e frame = (Ok (), writer')
      \<and> arriving reader = drop (length (sent writer)) (sent writer') @ rest \<longrightarrow>
      read_plugin_envelope plugin_decode reserve reader frame limit = (Ok e, reader\<lparr>arriving := rest\<rparr>))"
proof (intro conjI impI; elim conjE)
  have room: "reserve (length p)" if "write_frame writer p frame = (Ok u, writer')" for p u
    using write_frame_ok [OF that] assms(2) by simp
  show "read_host_envelope host_decode reserve reader frame limit = (Ok h, reader\<lparr>arriving := rest\<rparr>)"
    if ok: "validate_host_semantics h = Ok ()" and out: "write_host_envelope host_encode writer h frame = (Ok (), writer')"
      and at: "arriving reader = drop (length (sent writer)) (sent writer') @ rest"
  proof -
    obtain u where w: "write_frame writer (host_encode h) frame = (Ok u, writer')"
      using out by (auto simp add: write_host_envelope_def split: prod.splits)
    show ?thesis
      using host_contract.sent_is_received [where reserve = reserve and prost_decode = host_decode, OF ok assms(1) host(1,2) w room [OF w] at]
      unfolding read_host_envelope_def decode_host_envelope_def by simp
  qed
  show "read_plugin_envelope plugin_decode reserve reader frame limit = (Ok e, reader\<lparr>arriving := rest\<rparr>)"
    if ok: "validate_plugin_semantics e = Ok ()" and out: "write_plugin_envelope plugin_encode writer e frame = (Ok (), writer')"
      and at: "arriving reader = drop (length (sent writer)) (sent writer') @ rest"
  proof -
    obtain u where w: "write_frame writer (plugin_encode e) frame = (Ok u, writer')"
      using out by (auto simp add: write_plugin_envelope_def split: prod.splits)
    show ?thesis
      using plugin_contract.sent_is_received [where reserve = reserve and prost_decode = plugin_decode, OF ok assms(1) plugin(1,2) w room [OF w] at]
      unfolding read_plugin_envelope_def decode_plugin_envelope_def by simp
  qed
qed

text \<open>A ping and its answer, over a transport with room.\<close>

definition sample_ping :: host_envelope where "sample_ping = \<lparr>he_sequence = 1, he_body = Some (Host_Ping 7)\<rparr>"
definition sample_pong :: plugin_envelope where "sample_pong = \<lparr>pe_sequence = 1, pe_body = Some (Plugin_Ping 7)\<rparr>"

theorem envelopes_roundtrip_witness:
  "\<exists>writer'. write_host_envelope (\<lambda>e. encode_fields (host_fields e)) \<lparr>sent = [], room = 100, flushes = True\<rparr> sample_ping 65536 = (Ok (), writer')
    \<and> read_host_envelope (\<lambda>_. Some sample_ping) (\<lambda>_. True) \<lparr>arriving = sent writer', ending = EndOfFile\<rparr> 65536 4
      = (Ok sample_ping, \<lparr>arriving = [], ending = EndOfFile\<rparr>)"
proof -
  let ?encode = "\<lambda>e. encode_fields (host_fields e)" and ?w = "\<lparr>sent = [], room = 100, flushes = True\<rparr>"
  have len: "encode_fields (host_fields sample_ping) \<noteq> []" "length (encode_fields (host_fields sample_ping)) = 13"
    by (simp_all add: host_fields_def sample_ping_def varint_field_def fixed64_field_def encode_varint.simps Let_def)
  then obtain w' where w: "write_frame ?w (?encode sample_ping) 65536 = (Ok (), w')"
    using write_frame_accepts [of "?encode sample_ping" 65536 ?w] by auto
  then have written: "write_host_envelope ?encode ?w sample_ping 65536 = (Ok (), w')" by (simp add: write_host_envelope_def)
  have depth: "plugin_depth_new 4 = Ok 4" by (simp add: plugin_depth_new_def MIN_PLUGIN_DEPTH_def MAX_PLUGIN_DEPTH_def)
  have ok: "validate_host_semantics sample_ping = Ok ()" by (simp add: validate_host_semantics_def sample_ping_def)
  have "read_host_envelope (\<lambda>_. Some sample_ping) (\<lambda>_. True) \<lparr>arriving = sent w', ending = EndOfFile\<rparr> 65536 4
      = (Ok sample_ping, \<lparr>arriving = [], ending = EndOfFile\<rparr>)"
    using envelopes_roundtrip [OF depth, of 65536 "\<lambda>_. True" ?encode sample_ping "\<lambda>_. Some sample_ping" "\<lambda>e. encode_fields (plugin_fields e)"
        sample_pong "\<lambda>_. Some sample_pong" ?w w' "\<lparr>arriving = sent w', ending = EndOfFile\<rparr>" "[]"] written ok by simp
  with written show ?thesis by blast
qed

end
