(* ===== verification/Plugin_Host.thy ===== *)
theory Plugin_Host
  imports Plugin_Codec
begin

text \<open>
  The parts of \<open>crates/mengxia-plugin-host/src\<close> that a plugin session is made of: failures
  (\<open>error.rs\<close>), validated limits (\<open>limits.rs\<close>), and from \<open>session.rs\<close> the frame queues, the checks of
  a peer's envelopes, the budget of the peer's error output and the admission of sessions.  Durations and instants
  count nanoseconds; a \<open>usize\<close> is a natural number below \<open>2 ^ 64\<close>.
\<close>

section \<open>Failures\<close>

datatype plugin_request_failure = UnsupportedRequest | InvalidRequest | Internal

datatype termination_required = ProtocolFailure | ResourceLimit | ShutdownRejected | Cancellation | InternalFailure

record plugin_host_error =
  phe_code :: error_code
  phe_termination :: "termination_required option"

definition host_error :: "error_code \<Rightarrow> plugin_host_error" where
  "host_error code = \<lparr>phe_code = code, phe_termination = None\<rparr>"

definition terminal_error :: "error_code \<Rightarrow> termination_required \<Rightarrow> plugin_host_error" where
  "terminal_error code reason = \<lparr>phe_code = code, phe_termination = Some reason\<rparr>"

datatype 'a request_outcome = Completed 'a | Request_Rejected plugin_request_failure

datatype session_close = CooperativeShutdown

definition protocol_failure :: plugin_host_error where
  "protocol_failure = terminal_error PluginProtocolViolation ProtocolFailure"

definition session_cancelled :: plugin_host_error where
  "session_cancelled = terminal_error OperationCancelled Cancellation"

definition deadline_exceeded :: plugin_host_error where
  "deadline_exceeded = terminal_error DeadlineExceeded Cancellation"

definition resource_limit :: plugin_host_error where
  "resource_limit = terminal_error PluginProtocolViolation ResourceLimit"

definition internal_failure :: plugin_host_error where
  "internal_failure = terminal_error InternalError InternalFailure"

fun map_codec_error :: "protocol_codec_error \<Rightarrow> plugin_host_error" where
  "map_codec_error Codec_Transport = terminal_error IpcTransportError ProtocolFailure"
| "map_codec_error Codec_AllocationUnavailable = terminal_error Backpressure ProtocolFailure"
| "map_codec_error Codec_InvalidLimit = terminal_error InternalError InternalFailure"
| "map_codec_error _ = protocol_failure"

datatype try_send_error = Channel_Full | Channel_Closed

fun map_send_error :: "try_send_error \<Rightarrow> plugin_host_error" where
  "map_send_error Channel_Full = host_error Backpressure"
| "map_send_error Channel_Closed = host_error OperationCancelled"

section \<open>Limits\<close>

definition millis :: "nat \<Rightarrow> nat" where "millis n = n * 1000000"

definition DEFAULT_CONTROL_FRAME_BYTES :: u32 where "DEFAULT_CONTROL_FRAME_BYTES = 262144"
definition DEFAULT_DECODE_DEPTH :: nat where "DEFAULT_DECODE_DEPTH = 16"
definition DEFAULT_INBOUND_FRAMES :: nat where "DEFAULT_INBOUND_FRAMES = 16"
definition DEFAULT_OUTBOUND_FRAMES :: nat where "DEFAULT_OUTBOUND_FRAMES = 16"
definition DEFAULT_ACTIVE_SESSIONS :: nat where "DEFAULT_ACTIVE_SESSIONS = 4"
definition STDERR_BUFFER_BYTES :: nat where "STDERR_BUFFER_BYTES = 8192"
definition DEFAULT_STDERR_TOTAL_BYTES :: nat where "DEFAULT_STDERR_TOTAL_BYTES = 1048576"
definition DEFAULT_HANDSHAKE_TIMEOUT :: nat where "DEFAULT_HANDSHAKE_TIMEOUT = millis 5000"
definition DEFAULT_REQUEST_TIMEOUT :: nat where "DEFAULT_REQUEST_TIMEOUT = millis 30000"
definition DEFAULT_SHUTDOWN_TIMEOUT :: nat where "DEFAULT_SHUTDOWN_TIMEOUT = millis 2000"
definition MAX_AGGREGATE_PAYLOAD_BYTES :: nat where "MAX_AGGREGATE_PAYLOAD_BYTES = 37781504"

lemmas host_defaults = DEFAULT_CONTROL_FRAME_BYTES_def DEFAULT_DECODE_DEPTH_def DEFAULT_INBOUND_FRAMES_def
  DEFAULT_OUTBOUND_FRAMES_def DEFAULT_ACTIVE_SESSIONS_def STDERR_BUFFER_BYTES_def DEFAULT_STDERR_TOTAL_BYTES_def
  DEFAULT_HANDSHAKE_TIMEOUT_def DEFAULT_REQUEST_TIMEOUT_def DEFAULT_SHUTDOWN_TIMEOUT_def
  MAX_AGGREGATE_PAYLOAD_BYTES_def millis_def

record plugin_host_limits =
  hl_frame_limit :: frame_limit
  hl_decode_depth :: nat
  hl_inbound_frames :: nat
  hl_outbound_frames :: nat
  hl_active_sessions :: nat
  hl_stderr_total_bytes :: nat
  hl_handshake_timeout :: nat
  hl_request_timeout :: nat
  hl_shutdown_timeout :: nat
  hl_aggregate_payload_bytes :: nat

definition duration_in_range :: "nat \<Rightarrow> nat \<Rightarrow> bool" where
  "duration_in_range duration longest = (duration \<ge> millis 100 \<and> duration \<le> longest)"

definition usize_mul :: "nat \<Rightarrow> nat \<Rightarrow> nat option" where
  "usize_mul a b = (if a * b < 2 ^ 64 then Some (a * b) else None)"

definition plugin_host_limits_new ::
  "u32 \<Rightarrow> nat \<Rightarrow> nat \<Rightarrow> nat \<Rightarrow> nat \<Rightarrow> nat \<Rightarrow> nat \<Rightarrow> nat \<Rightarrow> nat \<Rightarrow> plugin_host_error + plugin_host_limits" where
  "plugin_host_limits_new control_frame_bytes decode_depth inbound_frames outbound_frames active_sessions
      stderr_total_bytes handshake_timeout request_timeout shutdown_timeout =
    and_then (ensure (65536 \<le> control_frame_bytes \<and> control_frame_bytes \<le> DEFAULT_CONTROL_FRAME_BYTES
        \<and> 1 \<le> inbound_frames \<and> inbound_frames \<le> DEFAULT_INBOUND_FRAMES
        \<and> 1 \<le> outbound_frames \<and> outbound_frames \<le> DEFAULT_OUTBOUND_FRAMES
        \<and> 1 \<le> active_sessions \<and> active_sessions \<le> DEFAULT_ACTIVE_SESSIONS
        \<and> 65536 \<le> stderr_total_bytes \<and> stderr_total_bytes \<le> DEFAULT_STDERR_TOTAL_BYTES
        \<and> duration_in_range handshake_timeout DEFAULT_HANDSHAKE_TIMEOUT
        \<and> duration_in_range request_timeout DEFAULT_REQUEST_TIMEOUT
        \<and> duration_in_range shutdown_timeout DEFAULT_SHUTDOWN_TIMEOUT) (host_error ValidationError)) (\<lambda>_.
    and_then (map_err (\<lambda>_. host_error ValidationError) (frame_limit_new control_frame_bytes)) (\<lambda>frame_limit.
    and_then (map_err (\<lambda>_. host_error ValidationError) (plugin_depth_new decode_depth)) (\<lambda>depth.
    and_then (ok_or (host_error ValidationError)
        (Option.bind (usize_add inbound_frames outbound_frames) (\<lambda>frames.
         Option.bind (usize_add frames 4) (\<lambda>frames.
         Option.bind (usize_mul frames (unat control_frame_bytes)) (\<lambda>n.
         Option.bind (usize_add n STDERR_BUFFER_BYTES) (\<lambda>n. usize_mul n active_sessions)))))) (\<lambda>queued.
      if queued > MAX_AGGREGATE_PAYLOAD_BYTES then Err (host_error ValidationError)
      else Ok \<lparr>hl_frame_limit = frame_limit, hl_decode_depth = depth, hl_inbound_frames = inbound_frames,
        hl_outbound_frames = outbound_frames, hl_active_sessions = active_sessions,
        hl_stderr_total_bytes = stderr_total_bytes, hl_handshake_timeout = handshake_timeout,
        hl_request_timeout = request_timeout, hl_shutdown_timeout = shutdown_timeout,
        hl_aggregate_payload_bytes = queued\<rparr>))))"

definition default_limits :: "plugin_host_error + plugin_host_limits" where
  "default_limits = plugin_host_limits_new DEFAULT_CONTROL_FRAME_BYTES DEFAULT_DECODE_DEPTH DEFAULT_INBOUND_FRAMES
    DEFAULT_OUTBOUND_FRAMES DEFAULT_ACTIVE_SESSIONS DEFAULT_STDERR_TOTAL_BYTES DEFAULT_HANDSHAKE_TIMEOUT
    DEFAULT_REQUEST_TIMEOUT DEFAULT_SHUTDOWN_TIMEOUT"


section \<open>Bounded frame queues\<close>

record 'a frame_queue =
  fq_frames :: "'a list"
  fq_capacity :: nat

definition queue_new :: "nat \<Rightarrow> 'a frame_queue" where
  "queue_new n = \<lparr>fq_frames = [], fq_capacity = n\<rparr>"

text \<open>A full queue hands the frame back.\<close>

definition try_push :: "'a frame_queue \<Rightarrow> 'a \<Rightarrow> 'a + 'a frame_queue" where
  "try_push queue frame =
    (if length (fq_frames queue) \<ge> fq_capacity queue then Err frame
     else Ok (queue\<lparr>fq_frames := fq_frames queue @ [frame]\<rparr>))"

definition queue_pop :: "'a frame_queue \<Rightarrow> 'a option \<times> 'a frame_queue" where
  "queue_pop queue =
    (case fq_frames queue of
       [] \<Rightarrow> (None, queue)
     | frame # frames \<Rightarrow> (Some frame, queue\<lparr>fq_frames := frames\<rparr>))"

text \<open>The driver pushes a frame and takes it out again at once.\<close>

definition pass_frame :: "'a frame_queue \<Rightarrow> 'a \<Rightarrow> plugin_host_error + ('a \<times> 'a frame_queue)" where
  "pass_frame queue frame =
    and_then (map_err (\<lambda>_. internal_failure) (try_push queue frame)) (\<lambda>queue.
      case queue_pop queue of (front, queue) \<Rightarrow>
        and_then (ok_or internal_failure front) (\<lambda>frame. Ok (frame, queue)))"

section \<open>What the peer must send\<close>

record expected_session =
  xs_package_digest :: sha256_digest
  xs_challenge :: bytes

definition expected_session_new :: "sha256_digest \<Rightarrow> bytes \<Rightarrow> plugin_host_error + expected_session" where
  "expected_session_new digest challenge =
    (if list_all (\<lambda>b. b = 0) challenge then Err (host_error ValidationError)
     else Ok \<lparr>xs_package_digest = digest, xs_challenge = challenge\<rparr>)"

definition validate_hello :: "plugin_envelope \<Rightarrow> expected_session \<Rightarrow> plugin_host_error + unit" where
  "validate_hello envelope expected =
    (if pe_sequence envelope \<noteq> 0 then Err protocol_failure
     else case pe_body envelope of
       Some (Plugin_Hello hello) \<Rightarrow>
         if ph_protocol_major hello \<noteq> PROTOCOL_MAJOR \<or> ph_protocol_minor hello \<noteq> PROTOCOL_MINOR
         then Err (terminal_error ProtocolVersionUnsupported ProtocolFailure)
         else if ph_session_challenge hello \<noteq> xs_challenge expected then Err protocol_failure
         else Ok ()
     | _ \<Rightarrow> Err protocol_failure)"

datatype expected_response = Expect_Ping u64 | Expect_Shutdown

datatype exchange_outcome = Exchanged_Ping u64 | Exchanged_Shutdown | Exchange_Rejected plugin_request_failure

definition failure_of_code :: "int \<Rightarrow> plugin_request_failure option" where
  "failure_of_code code =
    (if code = 1 then Some UnsupportedRequest else if code = 2 then Some InvalidRequest
     else if code = 3 then Some Internal else None)"

definition validate_response ::
  "plugin_envelope \<Rightarrow> u64 \<Rightarrow> expected_response \<Rightarrow> plugin_host_error + exchange_outcome" where
  "validate_response envelope sequence expected =
    (if pe_sequence envelope \<noteq> sequence then Err protocol_failure
     else case (expected, pe_body envelope) of
       (Expect_Ping nonce, Some (Plugin_Ping response)) \<Rightarrow>
         if response = nonce then Ok (Exchanged_Ping nonce) else Err protocol_failure
     | (Expect_Shutdown, Some Plugin_Shutdown) \<Rightarrow> Ok Exchanged_Shutdown
     | (_, Some (Plugin_Failed code)) \<Rightarrow>
         (case failure_of_code code of
            Some failure \<Rightarrow> Ok (Exchange_Rejected failure)
          | None \<Rightarrow> Err protocol_failure)
     | _ \<Rightarrow> Err protocol_failure)"

text \<open>The conversions for the callers; \<open>None\<close> is the branch marked unreachable.\<close>

fun map_ping :: "exchange_outcome \<Rightarrow> u64 request_outcome option" where
  "map_ping (Exchanged_Ping nonce) = Some (Completed nonce)"
| "map_ping (Exchange_Rejected failure) = Some (Request_Rejected failure)"
| "map_ping Exchanged_Shutdown = None"

fun map_shutdown :: "exchange_outcome \<Rightarrow> unit request_outcome option" where
  "map_shutdown Exchanged_Shutdown = Some (Completed ())"
| "map_shutdown (Exchange_Rejected failure) = Some (Request_Rejected failure)"
| "map_shutdown (Exchanged_Ping _) = None"

section \<open>The budget of error output\<close>

record stderr_state =
  se_total :: nat
  se_limit :: nat
  se_open :: bool

definition stderr_new :: "nat \<Rightarrow> stderr_state" where
  "stderr_new n = \<lparr>se_total = 0, se_limit = n, se_open = True\<rparr>"

text \<open>What the stream offers to a read: bytes waiting (none at its end), or a failure.\<close>

datatype stderr_read = Stderr_Waiting nat | Stderr_Failed

definition stderr_window :: "stderr_state \<Rightarrow> plugin_host_error + nat" where
  "stderr_window st =
    (if se_limit st < se_total st then Err resource_limit
     else and_then (ok_or resource_limit (usize_add (se_limit st - se_total st) 1)) (\<lambda>n. Ok (min STDERR_BUFFER_BYTES n)))"

definition drain_stderr_once :: "stderr_state \<Rightarrow> stderr_read \<Rightarrow> plugin_host_error + stderr_state" where
  "drain_stderr_once st input =
    and_then (stderr_window st) (\<lambda>window.
      case input of
        Stderr_Failed \<Rightarrow> Err (terminal_error IpcTransportError ProtocolFailure)
      | Stderr_Waiting n \<Rightarrow>
        (let read = min n window in
         if read = 0 then Ok (st\<lparr>se_open := False\<rparr>)
         else and_then (ok_or resource_limit (usize_add (se_total st) read)) (\<lambda>sum.
           if sum > se_limit st then Err resource_limit else Ok (st\<lparr>se_total := sum\<rparr>))))"

section \<open>Time\<close>

definition INSTANT_LIMIT :: nat where "INSTANT_LIMIT = 2 ^ 63 * 1000000000"

definition instant_add :: "nat \<Rightarrow> nat \<Rightarrow> nat option" where
  "instant_add instant duration = (if instant + duration < INSTANT_LIMIT then Some (instant + duration) else None)"

definition earlier_deadline :: "nat \<Rightarrow> nat \<Rightarrow> nat" where
  "earlier_deadline left right = (if left \<le> right then left else right)"

definition operation_deadline :: "nat \<Rightarrow> nat \<Rightarrow> nat \<Rightarrow> plugin_host_error + nat" where
  "operation_deadline now caller_deadline budget =
    (if caller_deadline \<le> now then Err (host_error DeadlineExceeded)
     else and_then (ok_or (host_error ValidationError) (instant_add now budget)) (\<lambda>budget_deadline.
       Ok (earlier_deadline caller_deadline budget_deadline)))"

definition ensure_commit_allowed :: "bool \<Rightarrow> nat \<Rightarrow> nat \<Rightarrow> plugin_host_error + unit" where
  "ensure_commit_allowed is_cancelled now deadline =
    (if is_cancelled then Err session_cancelled else if now \<ge> deadline then Err deadline_exceeded else Ok ())"

section \<open>Admission\<close>

text \<open>The permits left, and those held by sessions.\<close>

record host_admission =
  ad_limits :: plugin_host_limits
  ad_permits :: nat

definition admission_new :: "plugin_host_limits \<Rightarrow> host_admission" where
  "admission_new limits = \<lparr>ad_limits = limits, ad_permits = hl_active_sessions limits\<rparr>"

definition try_acquire :: "host_admission \<Rightarrow> plugin_host_error + (plugin_host_limits \<times> host_admission)" where
  "try_acquire admission =
    (if ad_permits admission = 0 then Err (host_error Backpressure)
     else Ok (ad_limits admission, admission\<lparr>ad_permits := ad_permits admission - 1\<rparr>))"

definition release_permit :: "host_admission \<Rightarrow> host_admission" where
  "release_permit admission = admission\<lparr>ad_permits := ad_permits admission + 1\<rparr>"

end
