(* ===== verification/Plugin_Session.thy ===== *)
theory Plugin_Session
  imports Plugin_Host
begin

text \<open>
  The driver of a plugin session, \<open>run_session\<close> and \<open>exchange\<close> of
  \<open>crates/mengxia-plugin-host/src/session.rs\<close>.  The driver is an asynchronous function: between two
  points where it waits it runs without interruption, and at such a point it looks at the futures it waits for in a
  fixed order.  A \<open>wake\<close> is what it finds when it is polled there; a phase names the point.  One poll is
  one step, and the step at which the function returns is final.  The envelopes sent and received and the answers
  given to callers are kept as a log.
\<close>

section \<open>What the driver waits for\<close>

datatype plugin_command = Command_Ping u64 nat | Command_Shutdown nat

record wake =
  wk_cancelled :: bool
  wk_expired :: bool
  wk_written :: "(protocol_codec_error + unit) option"
  wk_envelope :: "(protocol_codec_error + plugin_envelope) option"
  wk_stderr :: "stderr_read option"
  wk_command :: "plugin_command option option"
  wk_commit_cancelled :: bool
  wk_commit_now :: nat
  wk_final_cancelled :: bool
  wk_final_now :: nat
  wk_listening :: bool

datatype session_phase =
    Sending_Hello nat
  | Awaiting_Hello nat
  | Idle
  | Sending plugin_command
  | Awaiting plugin_command
  | Finished "plugin_host_error + session_close"

datatype answer = Answer_Ping "u64 request_outcome" | Answer_Shutdown "unit request_outcome"

record plugin_driver =
  dr_phase :: session_phase
  dr_sequence :: u64
  dr_stderr :: stderr_state
  dr_inbound :: "plugin_envelope frame_queue"
  dr_outbound :: "host_envelope frame_queue"
  dr_sent :: "host_envelope list"
  dr_received :: "plugin_envelope list"
  dr_answers :: "(plugin_command \<times> (plugin_host_error + answer)) list"

fun command_deadline :: "plugin_command \<Rightarrow> nat" where
  "command_deadline (Command_Ping _ deadline) = deadline"
| "command_deadline (Command_Shutdown deadline) = deadline"

fun command_body :: "plugin_command \<Rightarrow> host_body" where
  "command_body (Command_Ping nonce _) = Host_Ping nonce"
| "command_body (Command_Shutdown _) = Host_Shutdown"

fun command_expects :: "plugin_command \<Rightarrow> expected_response" where
  "command_expects (Command_Ping nonce _) = Expect_Ping nonce"
| "command_expects (Command_Shutdown _) = Expect_Shutdown"

definition request_envelope :: "u64 \<Rightarrow> plugin_command \<Rightarrow> host_envelope" where
  "request_envelope sequence command = \<lparr>he_sequence = sequence, he_body = Some (command_body command)\<rparr>"

definition hello_envelope :: "plugin_host_limits \<Rightarrow> expected_session \<Rightarrow> host_envelope" where
  "hello_envelope limits expected =
    \<lparr>he_sequence = 0, he_body = Some (Host_Hello \<lparr>hh_protocol_major = PROTOCOL_MAJOR, hh_protocol_minor = PROTOCOL_MINOR,
      hh_session_challenge = xs_challenge expected, hh_max_frame_bytes = hl_frame_limit limits,
      hh_max_in_flight_requests = MAX_IN_FLIGHT_REQUESTS\<rparr>)\<rparr>"

section \<open>Waiting for an operation\<close>

datatype 'a polled = Ready "plugin_host_error + 'a" | Drained stderr_state | Pending

definition poll_stderr :: "stderr_state \<Rightarrow> stderr_read option \<Rightarrow> 'a polled" where
  "poll_stderr st input =
    (if \<not> se_open st then Pending
     else case stderr_window st of
       Inl e \<Rightarrow> Ready (Err e)
     | Inr _ \<Rightarrow>
       (case input of
          None \<Rightarrow> Pending
        | Some read \<Rightarrow> (case drain_stderr_once st read of Inl e \<Rightarrow> Ready (Err e) | Inr st' \<Rightarrow> Drained st')))"

definition drive_with_stderr ::
  "wake \<Rightarrow> nat \<Rightarrow> (protocol_codec_error + 'a) option \<Rightarrow> stderr_state \<Rightarrow> 'a polled" where
  "drive_with_stderr w deadline operation st =
    (if wk_cancelled w then Ready (Err session_cancelled)
     else if wk_expired w then Ready (Err deadline_exceeded)
     else case operation of
       Some r \<Rightarrow> Ready (and_then (map_err map_codec_error r) (\<lambda>v.
         and_then (ensure_commit_allowed (wk_commit_cancelled w) (wk_commit_now w) deadline) (\<lambda>_. Ok v)))
     | None \<Rightarrow> poll_stderr st (wk_stderr w))"

section \<open>The phases\<close>

definition finish :: "plugin_host_error + session_close \<Rightarrow> plugin_driver \<Rightarrow> plugin_driver" where
  "finish r d = d\<lparr>dr_phase := Finished r\<rparr>"

text \<open>The driver at its first wait, its hello on the way.\<close>

definition run_session :: "plugin_host_limits \<Rightarrow> expected_session \<Rightarrow> nat \<Rightarrow> nat \<Rightarrow> plugin_driver" where
  "run_session limits expected opened_at caller_deadline =
    (let d = \<lparr>dr_phase = Idle, dr_sequence = 1, dr_stderr = stderr_new (hl_stderr_total_bytes limits),
       dr_inbound = queue_new (hl_inbound_frames limits), dr_outbound = queue_new (hl_outbound_frames limits),
       dr_sent = [], dr_received = [], dr_answers = []\<rparr> in
     case instant_add opened_at (hl_handshake_timeout limits) of
       None \<Rightarrow> finish (Err (host_error ValidationError)) d
     | Some timeout \<Rightarrow>
       (case pass_frame (dr_outbound d) (hello_envelope limits expected) of
          Inl e \<Rightarrow> finish (Err e) d
        | Inr (hello, queue) \<Rightarrow> d\<lparr>dr_phase := Sending_Hello (earlier_deadline caller_deadline timeout),
            dr_outbound := queue, dr_sent := [hello]\<rparr>))"

definition open_session ::
  "plugin_host_limits \<Rightarrow> expected_session \<Rightarrow> nat \<Rightarrow> nat \<Rightarrow> plugin_host_error + plugin_driver" where
  "open_session limits expected opened_at caller_deadline =
    (if caller_deadline \<le> opened_at then Err (host_error DeadlineExceeded)
     else Ok (run_session limits expected opened_at caller_deadline))"

text \<open>What a caller is told: \<open>None\<close> is the branch marked unreachable.\<close>

fun answer_of :: "plugin_command \<Rightarrow> exchange_outcome \<Rightarrow> answer option" where
  "answer_of (Command_Ping _ _) outcome = map_option Answer_Ping (map_ping outcome)"
| "answer_of (Command_Shutdown _) outcome = map_option Answer_Shutdown (map_shutdown outcome)"

definition advance_sequence :: "plugin_command \<Rightarrow> u64 \<Rightarrow> u64 option" where
  "advance_sequence command sequence =
    (case command of Command_Ping _ _ \<Rightarrow> checked_add sequence 1 | Command_Shutdown _ \<Rightarrow> Some sequence)"

definition after_exchange ::
  "plugin_driver \<Rightarrow> wake \<Rightarrow> plugin_command \<Rightarrow> plugin_host_error + exchange_outcome \<Rightarrow> plugin_driver" where
  "after_exchange d w command result =
    (case advance_sequence command (dr_sequence d) of
       None \<Rightarrow> finish (Err internal_failure) d
     | Some sequence \<Rightarrow>
       (let d = d\<lparr>dr_sequence := sequence\<rparr> in
        case result of
          Inl e \<Rightarrow>
            finish (Err (if wk_listening w then e else session_cancelled)) (d\<lparr>dr_answers := dr_answers d @ [(command, Err e)]\<rparr>)
        | Inr outcome \<Rightarrow>
          (case answer_of command outcome of
             None \<Rightarrow> finish (Err internal_failure) d
           | Some reply \<Rightarrow>
             (let d = d\<lparr>dr_answers := dr_answers d @ [(command, Ok reply)]\<rparr> in
              if \<not> wk_listening w then finish (Err session_cancelled) d
              else case (command, outcome) of
                (Command_Ping _ _, _) \<Rightarrow> d\<lparr>dr_phase := Idle\<rparr>
              | (Command_Shutdown _, Exchange_Rejected _) \<Rightarrow>
                  finish (Err (terminal_error PluginProtocolViolation ShutdownRejected)) d
              | (Command_Shutdown _, _) \<Rightarrow> finish (Ok CooperativeShutdown) d))))"

definition start_exchange :: "plugin_driver \<Rightarrow> wake \<Rightarrow> plugin_command \<Rightarrow> plugin_driver" where
  "start_exchange d w command =
    (case pass_frame (dr_outbound d) (request_envelope (dr_sequence d) command) of
       Inl e \<Rightarrow> after_exchange d w command (Err e)
     | Inr (request, queue) \<Rightarrow>
         d\<lparr>dr_phase := Sending command, dr_outbound := queue, dr_sent := dr_sent d @ [request]\<rparr>)"

definition receive :: "plugin_driver \<Rightarrow> plugin_envelope \<Rightarrow> plugin_host_error + (plugin_envelope \<times> plugin_driver)" where
  "receive d envelope =
    and_then (pass_frame (dr_inbound d) envelope) (\<lambda>(envelope, queue).
      Ok (envelope, d\<lparr>dr_inbound := queue, dr_received := dr_received d @ [envelope]\<rparr>))"

definition idle_step :: "plugin_driver \<Rightarrow> wake \<Rightarrow> plugin_driver" where
  "idle_step d w =
    (if wk_cancelled w then finish (Err session_cancelled) d
     else case wk_envelope w of
       Some (Inl e) \<Rightarrow> finish (Err (map_codec_error e)) d
     | Some (Inr envelope) \<Rightarrow>
       (case receive d envelope of Inl e \<Rightarrow> finish (Err e) d | Inr (_, d) \<Rightarrow> finish (Err protocol_failure) d)
     | None \<Rightarrow>
       (case poll_stderr (dr_stderr d) (wk_stderr w) :: unit polled of
          Ready (Inl e) \<Rightarrow> finish (Err e) d
        | Ready (Inr _) \<Rightarrow> d
        | Drained st \<Rightarrow> d\<lparr>dr_stderr := st\<rparr>
        | Pending \<Rightarrow>
          (case wk_command w of
             None \<Rightarrow> d
           | Some None \<Rightarrow> finish (Err session_cancelled) d
           | Some (Some command) \<Rightarrow> start_exchange d w command)))"

definition hello_step :: "expected_session \<Rightarrow> plugin_driver \<Rightarrow> wake \<Rightarrow> nat \<Rightarrow> plugin_envelope \<Rightarrow> plugin_driver" where
  "hello_step expected d w deadline envelope =
    (case receive d envelope of
       Inl e \<Rightarrow> finish (Err e) d
     | Inr (envelope, d) \<Rightarrow>
       (case and_then (validate_hello envelope expected) (\<lambda>_.
          ensure_commit_allowed (wk_final_cancelled w) (wk_final_now w) deadline) of
          Inl e \<Rightarrow> finish (Err e) d
        | Inr _ \<Rightarrow> d\<lparr>dr_phase := Idle\<rparr>))"

definition response_step :: "plugin_driver \<Rightarrow> wake \<Rightarrow> plugin_command \<Rightarrow> plugin_envelope \<Rightarrow> plugin_driver" where
  "response_step d w command envelope =
    (case receive d envelope of
       Inl e \<Rightarrow> after_exchange d w command (Err e)
     | Inr (envelope, d) \<Rightarrow>
         after_exchange d w command
           (and_then (validate_response envelope (dr_sequence d) (command_expects command)) (\<lambda>outcome.
            and_then (ensure_commit_allowed (wk_final_cancelled w) (wk_final_now w) (command_deadline command)) (\<lambda>_.
            Ok outcome))))"

fun driver_step :: "expected_session \<Rightarrow> plugin_driver \<Rightarrow> wake \<Rightarrow> plugin_driver" where
  "driver_step expected d w =
    (case dr_phase d of
       Sending_Hello deadline \<Rightarrow>
         (case drive_with_stderr w deadline (wk_written w) (dr_stderr d) of
            Ready (Inl e) \<Rightarrow> finish (Err e) d
          | Ready (Inr _) \<Rightarrow> d\<lparr>dr_phase := Awaiting_Hello deadline\<rparr>
          | Drained st \<Rightarrow> d\<lparr>dr_stderr := st\<rparr>
          | Pending \<Rightarrow> d)
     | Awaiting_Hello deadline \<Rightarrow>
         (case drive_with_stderr w deadline (wk_envelope w) (dr_stderr d) of
            Ready (Inl e) \<Rightarrow> finish (Err e) d
          | Ready (Inr envelope) \<Rightarrow> hello_step expected d w deadline envelope
          | Drained st \<Rightarrow> d\<lparr>dr_stderr := st\<rparr>
          | Pending \<Rightarrow> d)
     | Idle \<Rightarrow> idle_step d w
     | Sending command \<Rightarrow>
         (case drive_with_stderr w (command_deadline command) (wk_written w) (dr_stderr d) of
            Ready (Inl e) \<Rightarrow> after_exchange d w command (Err e)
          | Ready (Inr _) \<Rightarrow> d\<lparr>dr_phase := Awaiting command\<rparr>
          | Drained st \<Rightarrow> d\<lparr>dr_stderr := st\<rparr>
          | Pending \<Rightarrow> d)
     | Awaiting command \<Rightarrow>
         (case drive_with_stderr w (command_deadline command) (wk_envelope w) (dr_stderr d) of
            Ready (Inl e) \<Rightarrow> after_exchange d w command (Err e)
          | Ready (Inr envelope) \<Rightarrow> response_step d w command envelope
          | Drained st \<Rightarrow> d\<lparr>dr_stderr := st\<rparr>
          | Pending \<Rightarrow> d)
     | Finished _ \<Rightarrow> d)"

definition drive :: "expected_session \<Rightarrow> plugin_driver \<Rightarrow> wake list \<Rightarrow> plugin_driver" where
  "drive expected d ws = foldl (driver_step expected) d ws"


section \<open>Moves of a session\<close>

definition is_terminal_error :: "plugin_host_error \<Rightarrow> bool" where
  "is_terminal_error e = (phe_termination e \<noteq> None)"

lemma terminal_errors [simp]:
  "is_terminal_error (terminal_error code reason)" "is_terminal_error protocol_failure" "is_terminal_error session_cancelled"
  "is_terminal_error deadline_exceeded" "is_terminal_error resource_limit" "is_terminal_error internal_failure"
  "is_terminal_error (map_codec_error c)"
  by (simp_all add: is_terminal_error_def terminal_error_def protocol_failure_def session_cancelled_def
      deadline_exceeded_def resource_limit_def internal_failure_def) (cases c; simp add: terminal_error_def protocol_failure_def)

text \<open>The reply that an envelope of the plugin is to a command.\<close>

fun replies :: "plugin_command \<Rightarrow> plugin_envelope \<Rightarrow> answer \<Rightarrow> bool" where
  "replies (Command_Ping nonce _) e (Answer_Ping (Completed n)) = (n = nonce \<and> pe_body e = Some (Plugin_Ping nonce))"
| "replies (Command_Ping _ _) e (Answer_Ping (Request_Rejected failure)) =
    (\<exists>code. pe_body e = Some (Plugin_Failed code) \<and> failure_of_code code = Some failure)"
| "replies (Command_Shutdown _) e (Answer_Shutdown (Completed _)) = (pe_body e = Some Plugin_Shutdown)"
| "replies (Command_Shutdown _) e (Answer_Shutdown (Request_Rejected failure)) =
    (\<exists>code. pe_body e = Some (Plugin_Failed code) \<and> failure_of_code code = Some failure)"
| "replies _ _ _ = False"

fun is_ping :: "plugin_command \<Rightarrow> bool" where
  "is_ping (Command_Ping _ _) = True"
| "is_ping (Command_Shutdown _) = False"

fun waits_for :: "session_phase \<Rightarrow> plugin_command list" where
  "waits_for (Sending command) = [command]"
| "waits_for (Awaiting command) = [command]"
| "waits_for _ = []"

fun in_handshake :: "session_phase \<Rightarrow> bool" where
  "in_handshake (Sending_Hello _) = True"
| "in_handshake (Awaiting_Hello _) = True"
| "in_handshake _ = False"

fun is_finished :: "session_phase \<Rightarrow> bool" where
  "is_finished (Finished _) = True"
| "is_finished _ = False"

inductive session_move :: "expected_session \<Rightarrow> plugin_driver \<Rightarrow> plugin_driver \<Rightarrow> bool"
  for expected :: expected_session where
  drained: "se_limit st = se_limit (dr_stderr d) \<Longrightarrow> se_total st \<le> se_limit st \<Longrightarrow> session_move expected d (d\<lparr>dr_stderr := st\<rparr>)"
| greeted: "dr_phase d = Sending_Hello t \<Longrightarrow> session_move expected d (d\<lparr>dr_phase := Awaiting_Hello t\<rparr>)"
| welcomed: "dr_phase d = Awaiting_Hello t \<Longrightarrow> validate_hello e expected = Ok () \<Longrightarrow>
    session_move expected d (d\<lparr>dr_received := dr_received d @ [e], dr_phase := Idle\<rparr>)"
| requested: "dr_phase d = Idle \<Longrightarrow>
    session_move expected d (d\<lparr>dr_phase := Sending c, dr_sent := dr_sent d @ [request_envelope (dr_sequence d) c]\<rparr>)"
| written: "dr_phase d = Sending c \<Longrightarrow> session_move expected d (d\<lparr>dr_phase := Awaiting c\<rparr>)"
| failed: "\<not> is_finished (dr_phase d) \<Longrightarrow> is_terminal_error e \<Longrightarrow>
    session_move expected d (d\<lparr>dr_received := dr_received d @ es, dr_phase := Finished (Err e)\<rparr>)"
| refused: "waits_for (dr_phase d) = [c] \<Longrightarrow> is_terminal_error e \<Longrightarrow> is_terminal_error e' \<Longrightarrow>
    session_move expected d (d\<lparr>dr_received := dr_received d @ es, dr_sequence := n,
      dr_answers := dr_answers d @ [(c, Err e')], dr_phase := Finished (Err e)\<rparr>)"
| answered: "dr_phase d = Awaiting c \<Longrightarrow> is_ping c \<Longrightarrow> checked_add (dr_sequence d) 1 = Some n \<Longrightarrow>
    pe_sequence e = dr_sequence d \<Longrightarrow> replies c e a \<Longrightarrow>
    session_move expected d (d\<lparr>dr_received := dr_received d @ [e], dr_sequence := n,
      dr_answers := dr_answers d @ [(c, Ok a)], dr_phase := Idle\<rparr>)"
| closed: "dr_phase d = Awaiting c \<Longrightarrow> pe_sequence e = dr_sequence d \<Longrightarrow> replies c e a \<Longrightarrow>
    (\<And>x. r = Err x \<Longrightarrow> is_terminal_error x) \<Longrightarrow> (is_ok r \<Longrightarrow> a = Answer_Shutdown (Completed ())) \<Longrightarrow>
    session_move expected d (d\<lparr>dr_received := dr_received d @ [e], dr_sequence := n,
      dr_answers := dr_answers d @ [(c, Ok a)], dr_phase := Finished r\<rparr>)"

section \<open>Every step is a move\<close>

text \<open>Between two polls both queues are empty, so a frame always passes.\<close>

definition driver_ready :: "plugin_driver \<Rightarrow> bool" where
  "driver_ready d =
    (fq_frames (dr_inbound d) = [] \<and> fq_frames (dr_outbound d) = [] \<and> 0 < fq_capacity (dr_inbound d)
     \<and> 0 < fq_capacity (dr_outbound d) \<and> se_total (dr_stderr d) \<le> se_limit (dr_stderr d)
     \<and> se_limit (dr_stderr d) + 1 < 2 ^ 64)"

lemma pass_frame_empty: "fq_frames q = [] \<Longrightarrow> 0 < fq_capacity q \<Longrightarrow> pass_frame q f = Ok (f, q)"
  by (simp add: pass_frame_def try_push_def queue_pop_def)

lemma drain_stderr_ok:
  assumes "drain_stderr_once st input = Ok st'" "se_total st \<le> se_limit st"
  shows "se_limit st' = se_limit st \<and> se_total st' \<le> se_limit st'"
  using assms
  by (cases input) (auto simp add: drain_stderr_once_def and_then_ok_iff Let_def split: if_splits)

lemma drain_stderr_err: "drain_stderr_once st input = Err e \<Longrightarrow> is_terminal_error e"
  by (cases input) (auto simp add: drain_stderr_once_def stderr_window_def and_then_err_iff ok_or_def Let_def
      split: if_splits option.splits)

lemma poll_stderr_cases:
  assumes "se_total st \<le> se_limit st"
  shows "poll_stderr st input = Ready (Inl e) \<Longrightarrow> is_terminal_error e" "poll_stderr st input \<noteq> Ready (Inr v)"
    "poll_stderr st input = Drained st' \<Longrightarrow> se_limit st' = se_limit st \<and> se_total st' \<le> se_limit st'"
  using assms
  by (auto simp add: poll_stderr_def stderr_window_def and_then_err_iff ok_or_def drain_stderr_err
      dest: drain_stderr_ok split: if_splits option.splits sum.splits)

lemma drive_cases:
  assumes "se_total st \<le> se_limit st"
  shows "drive_with_stderr w t oper st = Ready (Inl e) \<Longrightarrow> is_terminal_error e"
    "drive_with_stderr w t oper st = Ready (Inr v) \<Longrightarrow> oper = Some (Inr v)"
    "drive_with_stderr w t oper st = Drained st' \<Longrightarrow> se_limit st' = se_limit st \<and> se_total st' \<le> se_limit st'"
  by (auto simp add: drive_with_stderr_def and_then_err_iff and_then_ok_iff map_err_ok_iff ensure_commit_allowed_def
      map_err_def poll_stderr_cases(1,2) [OF assms] dest: poll_stderr_cases(3) [OF assms] split: if_splits option.splits sum.splits)

lemma validate_response_ok:
  assumes "validate_response e n (command_expects c) = Ok outcome"
  shows "pe_sequence e = n \<and> (\<exists>a. answer_of c outcome = Some a \<and> replies c e a
    \<and> (\<not> is_ping c \<longrightarrow> (outcome = Exchanged_Shutdown \<and> a = Answer_Shutdown (Completed ())) \<or> (\<exists>f. outcome = Exchange_Rejected f)))"
  using assms
  by (cases c) (auto simp add: validate_response_def split: if_splits option.splits plugin_body.splits)

lemma validate_response_err: "validate_response e n x = Err f \<Longrightarrow> is_terminal_error f"
  by (auto simp add: validate_response_def split: if_splits option.splits plugin_body.splits expected_response.splits)


lemma receive_ready: "driver_ready d \<Longrightarrow> receive d e = Ok (e, d\<lparr>dr_received := dr_received d @ [e]\<rparr>)"
  by (simp add: receive_def driver_ready_def pass_frame_empty)

lemma unchanged: "d\<lparr>dr_received := dr_received d\<rparr> = d" "d\<lparr>dr_sequence := dr_sequence d\<rparr> = d"
  by simp_all

text \<open>The end of an exchange that failed.\<close>

lemma after_exchange_err:
  assumes "waits_for (dr_phase d) = [c]" "is_terminal_error e"
  shows "session_move expected d (after_exchange (d\<lparr>dr_received := dr_received d @ es\<rparr>) w c (Err e))"
proof (cases "advance_sequence c (dr_sequence d)")
  case None
  have "\<not> is_finished (dr_phase d)" using assms(1) by (cases "dr_phase d") auto
  from failed [OF this, where e = internal_failure and es = es and expected = expected] show ?thesis
    using None by (simp add: after_exchange_def finish_def)
next
  case (Some n)
  from refused [OF assms(1), where e = "if wk_listening w then e else session_cancelled" and e' = e and es = es and n = n and expected = expected] show ?thesis
    using Some assms(2) by (simp add: after_exchange_def finish_def Let_def)
qed

lemma after_exchange_ok:
  assumes "dr_phase d = Awaiting c" "validate_response e (dr_sequence d) (command_expects c) = Ok outcome"
  shows "session_move expected d (after_exchange (d\<lparr>dr_received := dr_received d @ [e]\<rparr>) w c (Ok outcome))"
proof -
  obtain a where a: "pe_sequence e = dr_sequence d" "answer_of c outcome = Some a" "replies c e a"
    "\<not> is_ping c \<Longrightarrow> (outcome = Exchanged_Shutdown \<and> a = Answer_Shutdown (Completed ())) \<or> (\<exists>f. outcome = Exchange_Rejected f)"
    using validate_response_ok [OF assms(2)] by blast
  show ?thesis
  proof (cases "advance_sequence c (dr_sequence d)")
    case None
    from failed [of d internal_failure, where es = "[e]" and expected = expected] show ?thesis
      using None assms(1) by (simp add: after_exchange_def finish_def)
  next
    case (Some n)
    note final = closed [OF assms(1) a(1,3), where expected = expected and n = n]
    show ?thesis
    proof (cases "wk_listening w")
      case False
      from final [of "Err session_cancelled"] show ?thesis
        using Some a(2) False by (simp add: after_exchange_def finish_def Let_def)
    next
      case True
      show ?thesis
      proof (cases c)
        case (Command_Ping nonce t)
        then have "checked_add (dr_sequence d) 1 = Some n" using Some by (simp add: advance_sequence_def)
        from answered [OF assms(1) _ this a(1,3), of expected] show ?thesis
          using Some a(2) True Command_Ping by (auto simp add: after_exchange_def Let_def)
      next
        case (Command_Shutdown t)
        then consider "outcome = Exchanged_Shutdown" "a = Answer_Shutdown (Completed ())" | f where "outcome = Exchange_Rejected f"
          using a(4) by auto
        then show ?thesis
        proof cases
          case 1
          from final [of "Ok CooperativeShutdown"] show ?thesis
            using Some a(2) True Command_Shutdown 1 by (simp add: after_exchange_def finish_def Let_def)
        next
          case (2 f)
          from final [of "Err (terminal_error PluginProtocolViolation ShutdownRejected)"] show ?thesis
            using Some a(2) True Command_Shutdown 2 by (simp add: after_exchange_def finish_def Let_def)
        qed
      qed
    qed
  qed
qed

lemma response_moves:
  assumes "driver_ready d" "dr_phase d = Awaiting c"
  shows "session_move expected d (response_step d w c e)"
proof (cases "validate_response e (dr_sequence d) (command_expects c)")
  case (Inl f)
  then show ?thesis
    using after_exchange_err [of d c f expected "[e]"] assms receive_ready [OF assms(1)] validate_response_err
    by (simp add: response_step_def)
next
  case (Inr outcome)
  show ?thesis
  proof (cases "ensure_commit_allowed (wk_final_cancelled w) (wk_final_now w) (command_deadline c)")
    case (Inl f)
    then have "is_terminal_error f" by (auto simp add: ensure_commit_allowed_def split: if_splits)
    then show ?thesis
      using after_exchange_err [of d c f expected "[e]"] assms receive_ready [OF assms(1)] Inr Inl
      by (simp add: response_step_def)
  next
    case (Inr u)
    then show ?thesis
      using after_exchange_ok [OF assms(2)] receive_ready [OF assms(1)] \<open>validate_response e _ _ = Ok outcome\<close>
      by (simp add: response_step_def)
  qed
qed

lemma hello_moves:
  assumes "driver_ready d" "dr_phase d = Awaiting_Hello t"
  shows "session_move expected d (hello_step expected d w t e)"
proof (cases "and_then (validate_hello e expected) (\<lambda>_. ensure_commit_allowed (wk_final_cancelled w) (wk_final_now w) t)")
  case (Inl f)
  then have "is_terminal_error f"
    by (auto simp add: and_then_err_iff validate_hello_def ensure_commit_allowed_def split: if_splits option.splits plugin_body.splits)
  from failed [OF _ this, where es = "[e]" and d = d and expected = expected] show ?thesis
    using Inl assms(2) receive_ready [OF assms(1)] by (simp add: hello_step_def finish_def)
next
  case (Inr u)
  then have "validate_hello e expected = Ok ()" by (auto simp add: and_then_ok_iff)
  from welcomed [OF assms(2) this] show ?thesis
    using Inr receive_ready [OF assms(1)] by (simp add: hello_step_def)
qed


lemma finish_moves: "\<not> is_finished (dr_phase d) \<Longrightarrow> is_terminal_error e \<Longrightarrow> session_move expected d (finish (Err e) d)"
  using failed [of d e expected "[]"] by (simp add: finish_def)

lemma exchange_fails: "waits_for (dr_phase d) = [c] \<Longrightarrow> is_terminal_error e \<Longrightarrow> session_move expected d (after_exchange d w c (Err e))"
  using after_exchange_err [of d c e expected "[]" w] by simp

lemma idle_moves:
  assumes "driver_ready d" "dr_phase d = Idle"
  shows "idle_step d w = d \<or> session_move expected d (idle_step d w)"
proof -
  have st: "se_total (dr_stderr d) \<le> se_limit (dr_stderr d)" using assms(1) by (simp add: driver_ready_def)
  have stop: "session_move expected d (finish (Err e) d)" if "is_terminal_error e" for e
    using finish_moves that assms(2) by simp
  show ?thesis
  proof (cases "wk_cancelled w \<or> wk_envelope w \<noteq> None")
    case True
    have "session_move expected d (finish (Err protocol_failure) (d\<lparr>dr_received := dr_received d @ [e]\<rparr>))" for e
      using failed [of d protocol_failure expected "[e]"] assms(2) by (simp add: finish_def)
    with True show ?thesis
      using stop by (auto simp add: idle_step_def receive_ready [OF assms(1)] split: sum.splits)
  next
    case False
    show ?thesis
    proof (cases "poll_stderr (dr_stderr d) (wk_stderr w) :: unit polled")
      case (Ready r)
      then obtain e where "r = Inl e" by (cases r) (simp_all add: poll_stderr_cases(2) [OF st])
      moreover from this Ready have "is_terminal_error e" by (simp add: poll_stderr_cases(1) [OF st])
      ultimately show ?thesis using False Ready stop by (simp add: idle_step_def)
    next
      case (Drained st')
      then show ?thesis
        using False drained [of st' d expected] poll_stderr_cases(3) [OF st Drained] by (simp add: idle_step_def)
    next
      case Pending
      have "start_exchange d w c = d\<lparr>dr_phase := Sending c, dr_sent := dr_sent d @ [request_envelope (dr_sequence d) c]\<rparr>" for c
        using assms(1) by (simp add: start_exchange_def driver_ready_def pass_frame_empty)
      then show ?thesis
        using False Pending stop requested [OF assms(2), of expected] by (simp add: idle_step_def split: option.split)
    qed
  qed
qed

lemma driver_step_moves:
  assumes "driver_ready d"
  shows "driver_step expected d w = d \<or> session_move expected d (driver_step expected d w)"
proof -
  have st: "se_total (dr_stderr d) \<le> se_limit (dr_stderr d)" using assms by (simp add: driver_ready_def)
  have step: "case drive_with_stderr w t oper (dr_stderr d) of Ready (Inl e) \<Rightarrow> is_terminal_error e
      | Ready (Inr v) \<Rightarrow> True | Drained st' \<Rightarrow> session_move expected d (d\<lparr>dr_stderr := st'\<rparr>) | Pending \<Rightarrow> True" for t and oper :: "(protocol_codec_error + 'x) option"
    by (auto simp add: drive_cases(1) [OF st] dest!: drive_cases(3) [OF st] intro!: drained split: polled.split sum.split)
  show ?thesis
  proof (cases "dr_phase d")
    case (Sending_Hello t)
    then show ?thesis
      using step [of t "wk_written w"] finish_moves [of d] greeted [of d t] by (auto split: polled.splits sum.splits)
  next
    case (Awaiting_Hello t)
    then show ?thesis
      using step [of t "wk_envelope w"] finish_moves [of d] hello_moves [OF assms] by (auto split: polled.splits sum.splits)
  next
    case Idle
    then show ?thesis using idle_moves [OF assms] by simp
  next
    case (Sending c)
    then show ?thesis
      using step [of "command_deadline c" "wk_written w"] exchange_fails [of d c] written [of d c] by (auto split: polled.splits sum.splits)
  next
    case (Awaiting c)
    then show ?thesis
      using step [of "command_deadline c" "wk_envelope w"] exchange_fails [of d c] response_moves [OF assms] by (auto split: polled.splits sum.splits)
  qed simp
qed

lemma session_move_ready:
  assumes "session_move expected d d'" "driver_ready d"
  shows "driver_ready d'"
  using assms by cases (simp_all add: driver_ready_def)


section \<open>The transcript of a session\<close>

lemma of_nat_unat_id: "of_nat (unat w) = (w :: u64)"
  by simp

fun requests_from :: "nat \<Rightarrow> plugin_command list \<Rightarrow> host_envelope list" where
  "requests_from n [] = []"
| "requests_from n (c # cs) = request_envelope (of_nat n) c # requests_from (Suc n) cs"

lemma requests_from_append: "requests_from n (cs @ [c]) = requests_from n cs @ [request_envelope (of_nat (n + length cs)) c]"
  by (induction cs arbitrary: n) (simp_all add: add.assoc)

definition answers_justified :: "plugin_driver \<Rightarrow> bool" where
  "answers_justified d =
    (\<forall>i < length (dr_answers d). case dr_answers d ! i of (c, r) \<Rightarrow>
       (case r of
          Inl e \<Rightarrow> is_terminal_error e
        | Inr a \<Rightarrow> \<exists>e \<in> set (dr_received d). pe_sequence e = of_nat (Suc i) \<and> replies c e a))"

definition commands_answered :: "plugin_driver \<Rightarrow> plugin_command list" where
  "commands_answered d = map fst (dr_answers d)"

definition transcript_ok :: "host_envelope \<Rightarrow> plugin_driver \<Rightarrow> bool" where
  "transcript_ok hello d =
    (answers_justified d
     \<and> (case dr_phase d of
          Finished r \<Rightarrow>
            (\<exists>cs. length cs \<le> 1 \<and> dr_sent d = hello # requests_from 1 (commands_answered d @ cs))
            \<and> (case r of
                 Inl e \<Rightarrow> is_terminal_error e
               | Inr _ \<Rightarrow> dr_answers d \<noteq> [] \<and> snd (last (dr_answers d)) = Ok (Answer_Shutdown (Completed ())))
        | phase \<Rightarrow> dr_sent d = hello # requests_from 1 (commands_answered d @ waits_for phase)
            \<and> unat (dr_sequence d) = Suc (length (dr_answers d)) \<and> list_all is_ping (commands_answered d)))"

lemma answers_justified_step:
  assumes "answers_justified d" "dr_answers d' = dr_answers d" "set (dr_received d) \<subseteq> set (dr_received d')"
  shows "answers_justified d'"
  using assms unfolding answers_justified_def by (fastforce split: sum.splits prod.splits)

lemma answers_justified_snoc:
  assumes "answers_justified d" "dr_answers d' = dr_answers d @ [(c, r)]" "set (dr_received d) \<subseteq> set (dr_received d')"
    "case r of Inl e \<Rightarrow> is_terminal_error e
     | Inr a \<Rightarrow> \<exists>e \<in> set (dr_received d'). pe_sequence e = of_nat (Suc (length (dr_answers d))) \<and> replies c e a"
  shows "answers_justified d'"
  unfolding answers_justified_def
proof (intro allI impI)
  fix i
  assume "i < length (dr_answers d')"
  then consider "i < length (dr_answers d)" | "i = length (dr_answers d)" using assms(2) by force
  then show "case dr_answers d' ! i of (c, r) \<Rightarrow> (case r of Inl e \<Rightarrow> is_terminal_error e
      | Inr a \<Rightarrow> \<exists>e \<in> set (dr_received d'). pe_sequence e = of_nat (Suc i) \<and> replies c e a)"
  proof cases
    case 1
    then have "dr_answers d' ! i = dr_answers d ! i" using assms(2) by (simp add: nth_append)
    moreover have "case dr_answers d ! i of (c, r) \<Rightarrow> (case r of Inl e \<Rightarrow> is_terminal_error e
      | Inr a \<Rightarrow> \<exists>e \<in> set (dr_received d). pe_sequence e = of_nat (Suc i) \<and> replies c e a)"
      using assms(1) 1 by (simp add: answers_justified_def)
    ultimately show ?thesis using assms(3) by (fastforce split: sum.splits prod.splits)
  next
    case 2
    then show ?thesis using assms(2,4) by (simp split: sum.splits)
  qed
qed


lemma answers_justified_frame [simp]:
  "answers_justified (d\<lparr>dr_stderr := st\<rparr>) = answers_justified d"
  "answers_justified (d\<lparr>dr_phase := ph\<rparr>) = answers_justified d"
  by (simp_all add: answers_justified_def cong: prod.case_cong sum.case_cong)

lemma session_move_transcript:
  assumes "session_move expected d d'" "transcript_ok hello d"
  shows "transcript_ok hello d'"
  using assms
proof cases
  case (failed e es)
  have "answers_justified d'"
    using answers_justified_step [of d d'] assms(2) failed by (simp add: transcript_ok_def)
  moreover have "\<exists>cs. length cs \<le> 1 \<and> dr_sent d = hello # requests_from 1 (commands_answered d @ cs)"
    using assms(2) failed(2)
    by (cases "dr_phase d") (auto simp add: transcript_ok_def intro: exI [of _ "[]"] exI [of _ "[c]" for c])
  ultimately show ?thesis using failed by (simp add: transcript_ok_def commands_answered_def)
next
  case (refused c e e' es n)
  have "answers_justified d'"
    using answers_justified_snoc [of d d' c "Inl e'"] assms(2) refused by (simp add: transcript_ok_def)
  moreover have "dr_sent d = hello # requests_from 1 (commands_answered d @ [c])"
    using assms(2) refused(2) by (cases "dr_phase d") (auto simp add: transcript_ok_def)
  ultimately show ?thesis using refused by (simp add: transcript_ok_def commands_answered_def exI [of _ "[]"])
next
  case (answered c n e a)
  have seq: "unat (dr_sequence d) = Suc (length (dr_answers d))"
    and sent: "dr_sent d = hello # requests_from 1 (commands_answered d @ [c])" and "list_all is_ping (commands_answered d)"
    using assms(2) answered(2) by (simp_all add: transcript_ok_def)
  moreover have "unat n = Suc (unat (dr_sequence d))" using answered(4) by (simp add: checked_add_Some_iff)
  moreover have "dr_sequence d = of_nat (Suc (length (dr_answers d)))" using seq by (simp flip: seq)
  then have "answers_justified d'"
    using answers_justified_snoc [of d d' c "Inr a"] assms(2) answered by (simp add: transcript_ok_def subset_insertI)
  ultimately show ?thesis using answered(1,3) by (simp add: transcript_ok_def commands_answered_def)
next
  case (closed c e a r n)
  have seq: "unat (dr_sequence d) = Suc (length (dr_answers d))"
    and sent: "dr_sent d = hello # requests_from 1 (commands_answered d @ [c])"
    using assms(2) closed(2) by (simp_all add: transcript_ok_def)
  have "dr_sequence d = of_nat (Suc (length (dr_answers d)))" using seq by (simp flip: seq)
  then have "answers_justified d'"
    using answers_justified_snoc [of d d' c "Inr a"] assms(2) closed by (simp add: transcript_ok_def subset_insertI)
  then show ?thesis using closed(1,5,6) sent
    by (cases r) (auto simp add: transcript_ok_def commands_answered_def intro: exI [of _ "[]"])
next
  case (requested c)
  have "unat (dr_sequence d) = Suc (length (dr_answers d))" using assms(2) requested(2) by (simp add: transcript_ok_def)
  then have "dr_sequence d = of_nat (1 + length (commands_answered d))"
    by (metis of_nat_unat_id commands_answered_def length_map plus_1_eq_Suc)
  then show ?thesis
    using assms(2) requested requests_from_append [of 1 "commands_answered d" c] answers_justified_step [of d d']
    by (simp add: transcript_ok_def commands_answered_def)
next
  case (drained st)
  then show ?thesis
    using assms(2) by (simp add: transcript_ok_def commands_answered_def split: session_phase.splits sum.splits)
next
  case (welcomed t e)
  have "answers_justified d'" using answers_justified_step [of d d'] assms(2) welcomed by (simp add: transcript_ok_def subset_insertI)
  then show ?thesis using assms(2) welcomed by (simp add: transcript_ok_def commands_answered_def)
qed (simp_all add: transcript_ok_def commands_answered_def)


lemma driver_step_invariant:
  assumes "driver_ready d \<and> transcript_ok hello d"
  shows "driver_ready (driver_step expected d w) \<and> transcript_ok hello (driver_step expected d w)"
  using driver_step_moves [of d expected w] session_move_ready session_move_transcript assms by metis

lemma drive_invariant:
  "driver_ready d \<and> transcript_ok hello d \<Longrightarrow> driver_ready (drive expected d ws) \<and> transcript_ok hello (drive expected d ws)"
  unfolding drive_def
proof (induction ws arbitrary: d)
  case (Cons w ws)
  then show ?case using Cons.IH [OF driver_step_invariant [OF Cons.prems, of expected w]] by (simp del: driver_step.simps)
qed simp

lemma drive_stderr_limit: "se_limit (dr_stderr (drive expected d ws)) = se_limit (dr_stderr d)" if "driver_ready d"
proof -
  have "se_limit (dr_stderr d') = se_limit (dr_stderr d)" if "session_move expected d d'" for d d' :: plugin_driver
    using that by cases simp_all
  then have step: "se_limit (dr_stderr (driver_step expected d w)) = se_limit (dr_stderr d)" if "driver_ready d" for d w
    using driver_step_moves [OF that] by metis
  have ready: "driver_ready (driver_step expected d w)" if "driver_ready d" for d w
    using driver_step_moves [OF that, of expected w] session_move_ready [OF _ that] that by metis
  show ?thesis
    using that unfolding drive_def
    by (induction ws arbitrary: d) (simp_all add: step ready del: driver_step.simps)
qed

text \<open>The bounds that validated limits have.\<close>

lemma limits_new_ok:
  assumes "plugin_host_limits_new frame depth inb outb active err h r s = Ok limits"
  shows "0 < hl_inbound_frames limits" "0 < hl_outbound_frames limits" "hl_stderr_total_bytes limits \<le> DEFAULT_STDERR_TOTAL_BYTES"
    "hl_aggregate_payload_bytes limits \<le> MAX_AGGREGATE_PAYLOAD_BYTES"
    "hl_aggregate_payload_bytes limits =
      ((hl_inbound_frames limits + hl_outbound_frames limits + 4) * unat (hl_frame_limit limits) + STDERR_BUFFER_BYTES) * hl_active_sessions limits"
  using assms
  by (auto simp add: plugin_host_limits_new_def and_then_ok_iff ok_or_ok_iff map_err_ok_iff usize_add_def usize_mul_def
      frame_limit_new_def split: if_splits bind_splits)

lemma open_session_ready:
  assumes "plugin_host_limits_new frame depth inb outb active err h r s = Ok limits"
    "open_session limits expected opened_at t = Ok d" "opened_at + hl_handshake_timeout limits < INSTANT_LIMIT"
  shows "driver_ready d \<and> transcript_ok (hello_envelope limits expected) d \<and> se_limit (dr_stderr d) = hl_stderr_total_bytes limits"
proof -
  have start: "d = run_session limits expected opened_at t" using assms(2) by (simp add: open_session_def split: if_splits)
  have "pass_frame (queue_new (hl_outbound_frames limits)) (hello_envelope limits expected)
      = Ok (hello_envelope limits expected, queue_new (hl_outbound_frames limits))"
    using limits_new_ok(2) [OF assms(1)] by (simp add: pass_frame_empty queue_new_def)
  then show ?thesis
    using start assms(3) limits_new_ok(1-3) [OF assms(1)]
    by (simp add: run_session_def instant_add_def driver_ready_def queue_new_def stderr_new_def transcript_ok_def
        answers_justified_def commands_answered_def DEFAULT_STDERR_TOTAL_BYTES_def)
qed


section \<open>Properties\<close>

text \<open>C3. Whatever the plugin, the callers, the clock and the transport do, a session keeps the protocol: the host sends
  its hello and then one request at a time, numbered 1, 2, 3 and so on; the next request goes out only after the one
  before was answered; a caller is told that the plugin answered or rejected a request only when an envelope with the
  number of that request and a fitting body arrived; the session ends well only after the plugin acknowledged a shutdown;
  and every other end names why the process has to be terminated.\<close>

theorem plugin_session_protocol:
  assumes "plugin_host_limits_new frame depth inb outb active err h r s = Ok limits"
    "open_session limits expected opened_at t = Ok d" "opened_at + hl_handshake_timeout limits < INSTANT_LIMIT"
  shows "let d = drive expected d wakes in
    (\<exists>cs. length cs \<le> 1 \<and> dr_sent d = hello_envelope limits expected # requests_from 1 (map fst (dr_answers d) @ cs))
    \<and> (\<forall>i < length (dr_answers d). case dr_answers d ! i of
         (c, Inl e) \<Rightarrow> phe_termination e \<noteq> None
       | (c, Inr a) \<Rightarrow> \<exists>e \<in> set (dr_received d). pe_sequence e = of_nat (Suc i) \<and> replies c e a)
    \<and> (\<forall>r. dr_phase d = Finished r \<longrightarrow> (case r of
         Inl e \<Rightarrow> phe_termination e \<noteq> None
       | Inr _ \<Rightarrow> dr_answers d \<noteq> [] \<and> snd (last (dr_answers d)) = Ok (Answer_Shutdown (Completed ()))))"
proof -
  let ?d = "drive expected d wakes"
  have ok: "transcript_ok (hello_envelope limits expected) ?d"
    using drive_invariant open_session_ready [OF assms] by blast
  have "\<exists>cs. length cs \<le> 1 \<and> dr_sent ?d = hello_envelope limits expected # requests_from 1 (commands_answered ?d @ cs)"
    using ok by (cases "dr_phase ?d") (auto simp add: transcript_ok_def intro: exI [of _ "[]"] exI [of _ "[c]" for c])
  moreover have "answers_justified ?d" using ok by (simp add: transcript_ok_def)
  moreover have "case r of Inl e \<Rightarrow> is_terminal_error e
      | Inr _ \<Rightarrow> dr_answers ?d \<noteq> [] \<and> snd (last (dr_answers ?d)) = Ok (Answer_Shutdown (Completed ()))"
    if "dr_phase ?d = Finished r" for r
    using ok that by (simp add: transcript_ok_def)
  ultimately show ?thesis
    unfolding answers_justified_def is_terminal_error_def commands_answered_def Let_def by blast
qed

text \<open>A quiet wake-up, and a session that pings once and shuts down.\<close>

definition quiet :: wake where
  "quiet = \<lparr>wk_cancelled = False, wk_expired = False, wk_written = None, wk_envelope = None, wk_stderr = None, wk_command = None,
    wk_commit_cancelled = False, wk_commit_now = 0, wk_final_cancelled = False, wk_final_now = 0, wk_listening = True\<rparr>"

definition sample_limits :: plugin_host_limits where
  "sample_limits = \<lparr>hl_frame_limit = 262144, hl_decode_depth = 16, hl_inbound_frames = 16, hl_outbound_frames = 16,
    hl_active_sessions = 4, hl_stderr_total_bytes = 1048576, hl_handshake_timeout = 5000000000, hl_request_timeout = 30000000000,
    hl_shutdown_timeout = 2000000000, hl_aggregate_payload_bytes = 37781504\<rparr>"

lemma sample_limits_valid: "default_limits = Ok sample_limits"
  by (simp add: default_limits_def plugin_host_limits_new_def sample_limits_def host_defaults duration_in_range_def
      frame_limit_new_def MIN_FRAME_BYTES_def MAX_FRAME_BYTES_def plugin_depth_new_def MIN_PLUGIN_DEPTH_def MAX_PLUGIN_DEPTH_def
      usize_add_def usize_mul_def)

definition sample_expected :: expected_session where
  "sample_expected = \<lparr>xs_package_digest = replicate 32 0, xs_challenge = [1]\<rparr>"

definition sample_wakes :: "wake list" where
  "sample_wakes =
    [quiet\<lparr>wk_written := Some (Inr ())\<rparr>,
     quiet\<lparr>wk_envelope := Some (Inr \<lparr>pe_sequence = 0, pe_body = Some (Plugin_Hello \<lparr>ph_protocol_major = 1, ph_protocol_minor = 0, ph_session_challenge = [1]\<rparr>)\<rparr>)\<rparr>,
     quiet\<lparr>wk_command := Some (Some (Command_Ping 7 10))\<rparr>,
     quiet\<lparr>wk_written := Some (Inr ())\<rparr>,
     quiet\<lparr>wk_stderr := Some (Stderr_Waiting 100)\<rparr>,
     quiet\<lparr>wk_envelope := Some (Inr \<lparr>pe_sequence = 1, pe_body = Some (Plugin_Ping 7)\<rparr>)\<rparr>,
     quiet\<lparr>wk_command := Some (Some (Command_Shutdown 10))\<rparr>,
     quiet\<lparr>wk_written := Some (Inr ())\<rparr>,
     quiet\<lparr>wk_envelope := Some (Inr \<lparr>pe_sequence = 2, pe_body = Some Plugin_Shutdown\<rparr>)\<rparr>]"


lemmas session_run = drive_def drive_with_stderr_def poll_stderr_def stderr_window_def drain_stderr_once_def hello_step_def
  idle_step_def start_exchange_def response_step_def after_exchange_def receive_def pass_frame_def try_push_def queue_pop_def
  validate_hello_def validate_response_def ensure_commit_allowed_def advance_sequence_def finish_def usize_add_def

definition sample_driver :: plugin_driver where
  "sample_driver = run_session sample_limits sample_expected 0 20"

lemma sample_session_ends:
  "dr_phase (drive sample_expected sample_driver sample_wakes) = Finished (Ok CooperativeShutdown)"
  by (simp add: sample_driver_def run_session_def instant_add_def INSTANT_LIMIT_def earlier_deadline_def sample_limits_def
      sample_wakes_def quiet_def sample_expected_def session_run queue_new_def stderr_new_def STDERR_BUFFER_BYTES_def
      request_envelope_def hello_envelope_def checked_add_def PROTOCOL_MAJOR_def PROTOCOL_MINOR_def Let_def)

theorem plugin_session_protocol_witness:
  "dr_phase (drive sample_expected sample_driver sample_wakes) = Finished (Ok CooperativeShutdown)
   \<and> snd (last (dr_answers (drive sample_expected sample_driver sample_wakes))) = Ok (Answer_Shutdown (Completed ()))"
proof -
  have "open_session sample_limits sample_expected 0 20 = Ok sample_driver" by (simp add: open_session_def sample_driver_def)
  moreover have "0 + hl_handshake_timeout sample_limits < INSTANT_LIMIT" by (simp add: sample_limits_def INSTANT_LIMIT_def)
  ultimately show ?thesis
    using plugin_session_protocol [OF sample_limits_valid [unfolded default_limits_def], of sample_expected 0 20 sample_driver sample_wakes]
      sample_session_ends by (simp add: Let_def)
qed



end
