(* ===== verification/Ingest.thy ===== *)
theory Ingest
  imports Store_History
begin

text \<open>
  The service that copies a file into the library, \<open>crates/mengxia-app/src/ingest.rs\<close>, with the guard of a
  claim from \<open>asset_persistence.rs\<close>, on top of the store's operations.  The blob storage is the interface
  \<open>BlobStorage\<close>: what it answers is an input of an execution, as are the readings of the clock, the
  generated identifiers, the directives of the control and the operations that other commands run between the claim
  and its settlement.
\<close>

section \<open>Requests and failures\<close>

record ingest_request =
  ir_command_id :: uuid
  ir_source_path :: bytes
  ir_asset_kind :: string
  ir_content_kind :: string
  ir_representation_purpose :: string
  ir_resource_kind :: string
  ir_logical_name :: utext
  ir_expected_digest :: "sha256_digest option"

record ingest_result =
  in_asset_id :: uuid
  in_asset_revision_id :: uuid
  in_representation_id :: uuid
  in_resource_id :: uuid
  in_location_id :: uuid
  in_blob_digest :: sha256_digest

datatype ingest_retry =
    RetryNo | SameCommandAfterBoundedDelay | FreshCommandAfterBoundedDelay | AfterSourceStabilizesWithSameCommand
  | AfterSourceStabilizesWithFreshCommand | AfterOperatorOrRuntimeAction

datatype ingest_error = Respond error_code ingest_retry | RuntimeFailed

datatype blob_source_error = Source_InvalidPath | Source_UnsupportedType | Source_Io | Source_Modified

datatype blob_storage_error =
    Blob_Validation | Blob_SourceModified | Blob_Io | Blob_Corruption | Blob_Configuration | Blob_RecoveryRequired
  | Blob_Conflict | Blob_Backpressure | Blob_EntropyUnavailable | Blob_StagingNamespaceUnavailable | Blob_CleanupFailed
  | Blob_ShuttingDown | Blob_Internal

datatype ingest_outcome = Ingest_Stored durable_blob | Ingest_Stopped ingest_stop

datatype retry_stage = PreClaim | PostClaim

fun stop_failure :: "ingest_stop \<Rightarrow> retry_stage \<Rightarrow> ingest_error" where
  "stop_failure stop stage =
    Respond (case stop of Cancelled \<Rightarrow> OperationCancelled | DeadlineReached \<Rightarrow> DeadlineExceeded)
      (case stage of PreClaim \<Rightarrow> SameCommandAfterBoundedDelay | PostClaim \<Rightarrow> FreshCommandAfterBoundedDelay)"

fun checkpoint :: "ingest_directive \<Rightarrow> retry_stage \<Rightarrow> ingest_error + unit" where
  "checkpoint Continue stage = Ok ()"
| "checkpoint (Stop stop) stage = Err (stop_failure stop stage)"

fun map_source_error :: "blob_source_error \<Rightarrow> ingest_error" where
  "map_source_error Source_InvalidPath = Respond ValidationError RetryNo"
| "map_source_error Source_UnsupportedType = Respond ValidationError RetryNo"
| "map_source_error Source_Io = Respond StorageIoError SameCommandAfterBoundedDelay"
| "map_source_error Source_Modified = Respond SourceModifiedDuringIngest AfterSourceStabilizesWithSameCommand"

fun map_claim_error :: "asset_store_error \<Rightarrow> ingest_error" where
  "map_claim_error Store_Validation = Respond ValidationError RetryNo"
| "map_claim_error Store_Conflict = Respond Conflict RetryNo"
| "map_claim_error Store_IdGenerationUnavailable = Respond IdGenerationUnavailable AfterOperatorOrRuntimeAction"
| "map_claim_error Store_StorageBusy = Respond StorageBusy SameCommandAfterBoundedDelay"
| "map_claim_error Store_StorageConfiguration = Respond StorageConfigurationError AfterOperatorOrRuntimeAction"
| "map_claim_error Store_Backpressure = Respond Backpressure SameCommandAfterBoundedDelay"
| "map_claim_error Store_ShuttingDown = Respond StorageIoError AfterOperatorOrRuntimeAction"
| "map_claim_error _ = RuntimeFailed"

definition retry_for_terminal :: "error_code \<Rightarrow> ingest_retry" where
  "retry_for_terminal code =
    (if code = SourceModifiedDuringIngest then AfterSourceStabilizesWithFreshCommand
     else if code \<in> set [ValidationError, StorageIoError, Backpressure, DeadlineExceeded, OperationCancelled]
       then FreshCommandAfterBoundedDelay
     else AfterOperatorOrRuntimeAction)"

text \<open>How a failure of the storage settles the claim; \<open>None\<close> leaves it to the guard.\<close>

fun storage_failure :: "blob_storage_error \<Rightarrow> (external_disposition \<times> ingest_error) option" where
  "storage_failure Blob_Validation =
    Some (DispositionRejected ValidationError, Respond ValidationError FreshCommandAfterBoundedDelay)"
| "storage_failure Blob_SourceModified = Some (DispositionRejected SourceModifiedDuringIngest,
    Respond SourceModifiedDuringIngest AfterSourceStabilizesWithFreshCommand)"
| "storage_failure Blob_Io = Some (DispositionRejected StorageIoError, Respond StorageIoError FreshCommandAfterBoundedDelay)"
| "storage_failure Blob_Corruption =
    Some (DispositionRejected StorageCorruption, Respond StorageCorruption AfterOperatorOrRuntimeAction)"
| "storage_failure Blob_Configuration =
    Some (DispositionRejected StorageConfigurationError, Respond StorageConfigurationError AfterOperatorOrRuntimeAction)"
| "storage_failure Blob_Backpressure =
    Some (DispositionRejected Backpressure, Respond Backpressure FreshCommandAfterBoundedDelay)"
| "storage_failure Blob_EntropyUnavailable =
    Some (DispositionRejected IdGenerationUnavailable, Respond IdGenerationUnavailable AfterOperatorOrRuntimeAction)"
| "storage_failure Blob_RecoveryRequired =
    Some (DispositionRecovery StorageConfigurationError, Respond StorageConfigurationError AfterOperatorOrRuntimeAction)"
| "storage_failure Blob_StagingNamespaceUnavailable =
    Some (DispositionRecovery StorageConfigurationError, Respond StorageConfigurationError AfterOperatorOrRuntimeAction)"
| "storage_failure _ = None"

fun result_from_command :: "command_result \<Rightarrow> ingest_error + ingest_result" where
  "result_from_command (ManagedRegistrationResult asset revision representation resource location digest) =
    Ok \<lparr>in_asset_id = asset, in_asset_revision_id = revision, in_representation_id = representation,
      in_resource_id = resource, in_location_id = location, in_blob_digest = digest\<rparr>"
| "result_from_command _ = Err RuntimeFailed"

section \<open>The identity of a request\<close>


text \<open>The bytes of a text.\<close>

definition utf8_char :: "nat \<Rightarrow> bytes" where
  "utf8_char c =
    (if c < 128 then [of_nat c]
     else if c < 2048 then [of_nat (192 + c div 64), of_nat (128 + c mod 64)]
     else if c < 65536 then [of_nat (224 + c div 4096), of_nat (128 + c div 64 mod 64), of_nat (128 + c mod 64)]
     else [of_nat (240 + c div 262144), of_nat (128 + c div 4096 mod 64), of_nat (128 + c div 64 mod 64), of_nat (128 + c mod 64)])"

definition text_bytes :: "utext \<Rightarrow> bytes" where "text_bytes t = concat (map utf8_char t)"

definition request_tlv :: "byte \<Rightarrow> bytes \<Rightarrow> bytes" where
  "request_tlv tag v = tag # u32_to_be_bytes (if length v < 2 ^ 32 then of_nat (length v) else - 1) @ v"

text \<open>The digest of a path that fits a 16-bit length, as the selector check ensures; \<open>None\<close> is
  the panic.\<close>

definition source_selector_digest :: "(bytes \<Rightarrow> bytes) \<Rightarrow> bytes \<Rightarrow> bytes option" where
  "source_selector_digest sha256 path =
    (if length path < 2 ^ 16
     then Some (sha256 (str_bytes ''MENGXIA_SOURCE_SELECTOR_V1'' @ [0] @ u16_to_be_bytes (of_nat (length path)) @ path))
     else None)"

definition canonical_request_digest :: "(bytes \<Rightarrow> bytes) \<Rightarrow> ingest_request \<Rightarrow> sha256_digest option" where
  "canonical_request_digest sha256 q =
    map_option (\<lambda>selector. sha256 (str_bytes ''MENGXIA_ASSET_INGEST_COPY_REQUEST_V1'' @ [0]
      @ request_tlv 1 (str_bytes ''COPY_V1'') @ request_tlv 2 selector @ request_tlv 3 (str_bytes (ir_asset_kind q))
      @ request_tlv 4 (str_bytes (ir_content_kind q)) @ request_tlv 5 (str_bytes (ir_representation_purpose q))
      @ request_tlv 6 (str_bytes (ir_resource_kind q)) @ request_tlv 7 (text_bytes (ir_logical_name q)) @ request_tlv 8 [0]
      @ request_tlv 9 (case ir_expected_digest q of Some d \<Rightarrow> 1 # d | None \<Rightarrow> [0])))
      (source_selector_digest sha256 (ir_source_path q))"

fun split_slash :: "bytes \<Rightarrow> bytes list" where
  "split_slash [] = [[]]"
| "split_slash (b # bs) =
    (if b = 47 then [] # split_slash bs
     else case split_slash bs of [] \<Rightarrow> [[b]] | part # parts \<Rightarrow> (b # part) # parts)"

definition validate_source_selector :: "bytes \<Rightarrow> ingest_error + unit" where
  "validate_source_selector path =
    ensure (1 \<le> length path \<and> length path \<le> 1023 \<and> 0 \<notin> set path \<and> hd path = 47 \<and> length path > 1 \<and> last path \<noteq> 47
      \<and> list_all (\<lambda>component. component \<noteq> [] \<and> component \<noteq> [46] \<and> component \<noteq> [46, 46]) (split_slash (tl path)))
      (Respond ValidationError RetryNo)"


section \<open>Admission\<close>

record admission_limits =
  al_binding_capacity :: nat
  al_execution_capacity :: nat

definition admission_limits_new :: "nat \<Rightarrow> nat \<Rightarrow> admission_limits option" where
  "admission_limits_new bindings executions =
    (if bindings = 0 \<or> executions = 0 then None
     else Some \<lparr>al_binding_capacity = bindings, al_execution_capacity = executions\<rparr>)"

text \<open>The commands under way with the digests of their requests.\<close>

record admission_state =
  ad_bindings :: "(uuid \<times> sha256_digest) list"
  ad_executions :: nat

definition admission_acquire ::
  "admission_limits \<Rightarrow> command_binding \<Rightarrow> admission_state \<Rightarrow> ingest_error + admission_state" where
  "admission_acquire limits b st =
    (case map_of (ad_bindings st) (binding_command_id b) of
       Some existing \<Rightarrow>
         Err (if existing = binding_digest b then Respond CommandInProgress SameCommandAfterBoundedDelay else Respond Conflict RetryNo)
     | None \<Rightarrow>
         if length (ad_bindings st) \<ge> al_binding_capacity limits \<or> ad_executions st \<ge> al_execution_capacity limits
         then Err (Respond Backpressure SameCommandAfterBoundedDelay)
         else Ok (st\<lparr>ad_bindings := (binding_command_id b, binding_digest b) # ad_bindings st,
           ad_executions := ad_executions st + 1\<rparr>))"

definition admission_drop :: "uuid \<Rightarrow> admission_state \<Rightarrow> admission_state" where
  "admission_drop i st = st\<lparr>ad_bindings := filter (\<lambda>(j, _). j \<noteq> i) (ad_bindings st), ad_executions := ad_executions st - 1\<rparr>"

section \<open>One execution\<close>

text \<open>What an execution meets: the directives of its control, the source, the clock, the generated identifiers,
  the storage, operations of other commands between claim and settlement, and failures of the store that commit
  nothing.\<close>

record ingest_inputs =
  ii_directive :: "nat \<Rightarrow> ingest_directive"
  ii_source :: "blob_source_error + unit"
  ii_clock :: "nat \<Rightarrow> timestamp option"
  ii_id :: "nat \<Rightarrow> uuid option"
  ii_storage :: "blob_storage_error + ingest_outcome"
  ii_others :: "(store_context \<times> store_request) list"
  ii_claim_fault :: "asset_store_error option"
  ii_settle_fault :: "asset_store_error option"

record ingest_world =
  iw_db :: database
  iw_admission :: admission_state
  iw_failed :: bool

definition fail_current_runtime :: "ingest_world \<Rightarrow> ingest_world" where
  "fail_current_runtime w = w\<lparr>iw_failed := True\<rparr>"

fun run_others :: "store_env \<Rightarrow> (store_context \<times> store_request) list \<Rightarrow> database \<Rightarrow> database" where
  "run_others E [] db = db"
| "run_others E ((ctx, r) # rs) db = run_others E rs (case store_run E ctx r db of Inl _ \<Rightarrow> db | Inr db' \<Rightarrow> db')"

text \<open>An operation of the store, or the failure it had before.\<close>

definition through :: "asset_store_error option \<Rightarrow> asset_store_error + 'a \<Rightarrow> asset_store_error + 'a" where
  "through fault m = (case fault of Some e \<Rightarrow> Err e | None \<Rightarrow> m)"

type_synonym ingest_step = "(ingest_error + ingest_result) \<times> ingest_world"

text \<open>A claim whose guard is dropped unsettled fails the runtime.\<close>

definition unsettled :: "ingest_world \<Rightarrow> ingest_step" where
  "unsettled w = (Err RuntimeFailed, fail_current_runtime w)"

definition finish_disposition ::
  "store_env \<Rightarrow> store_context \<Rightarrow> ingest_inputs \<Rightarrow> command_binding \<Rightarrow> external_disposition \<Rightarrow> timestamp \<Rightarrow> ingest_error
    \<Rightarrow> ingest_world \<Rightarrow> ingest_step" where
  "finish_disposition E ctx inp b disposition observed_at failure w =
    (case external_ingest_disposition_new \<lparr>eid_binding = b, eid_disposition = disposition, eid_observed_at = observed_at\<rparr> of
       Inl _ \<Rightarrow> unsettled w
     | Inr q \<Rightarrow>
       (case through (ii_settle_fault inp) (finish_external E ctx q (iw_db w)) of
          Inl _ \<Rightarrow> unsettled w
        | Inr (Stored, db) \<Rightarrow> (Err failure, w\<lparr>iw_db := db\<rparr>)
        | Inr (DispositionReplay code, db) \<Rightarrow>
            if code = disposition_code disposition then (Err failure, w\<lparr>iw_db := db\<rparr>)
            else unsettled (w\<lparr>iw_db := db\<rparr>)))"

definition finish_stop ::
  "store_env \<Rightarrow> store_context \<Rightarrow> ingest_inputs \<Rightarrow> command_binding \<Rightarrow> ingest_error \<Rightarrow> ingest_world \<Rightarrow> ingest_step" where
  "finish_stop E ctx inp b failure w =
    (case failure of
       RuntimeFailed \<Rightarrow> unsettled w
     | Respond code _ \<Rightarrow>
       (case ii_clock inp 1 of
          None \<Rightarrow> unsettled w
        | Some at \<Rightarrow> finish_disposition E ctx inp b (DispositionRejected code) at failure w))"

definition finish_storage_error ::
  "store_env \<Rightarrow> store_context \<Rightarrow> ingest_inputs \<Rightarrow> command_binding \<Rightarrow> blob_storage_error \<Rightarrow> ingest_world \<Rightarrow> ingest_step" where
  "finish_storage_error E ctx inp b e w =
    (case storage_failure e of
       None \<Rightarrow> unsettled w
     | Some (disposition, failure) \<Rightarrow>
       (case ii_clock inp 1 of
          None \<Rightarrow> unsettled w
        | Some at \<Rightarrow> finish_disposition E ctx inp b disposition at failure w))"

fun next_ids :: "ingest_inputs \<Rightarrow> nat \<Rightarrow> nat \<Rightarrow> uuid list option" where
  "next_ids inp k 0 = Some []"
| "next_ids inp k (Suc n) =
    (case ii_id inp k of None \<Rightarrow> None | Some i \<Rightarrow> map_option (Cons i) (next_ids inp (Suc k) n))"

definition registration_ids :: "ingest_inputs \<Rightarrow> uuid list option" where
  "registration_ids inp =
    (case next_ids inp 0 7 of None \<Rightarrow> None | Some ids \<Rightarrow> if has_repeat ids then None else Some ids)"

definition ingest_completion ::
  "command_binding \<Rightarrow> durable_blob \<Rightarrow> ingest_request \<Rightarrow> uuid list \<Rightarrow> timestamp \<Rightarrow> external_ingest_completion" where
  "ingest_completion b blob q ids at =
    \<lparr>eco_binding = b, eco_durable_blob = blob,
     eco_plan = \<lparr>plan_asset_id = ids ! 0, plan_asset_kind = ir_asset_kind q, plan_asset_revision_id = ids ! 1,
       plan_content_kind = ir_content_kind q, plan_representation_id = ids ! 2,
       plan_representation_purpose = ir_representation_purpose q, plan_resource_id = ids ! 3,
       plan_resource_kind = ir_resource_kind q, plan_logical_name = ir_logical_name q, plan_media_type = None,
       plan_candidate_location_id = ids ! 4\<rparr>,
     eco_domain_event_id = ids ! 5, eco_provenance_event_id = ids ! 6, eco_completed_at = at\<rparr>"

definition complete_ingest ::
  "store_env \<Rightarrow> store_context \<Rightarrow> ingest_inputs \<Rightarrow> command_binding \<Rightarrow> ingest_request \<Rightarrow> durable_blob \<Rightarrow> ingest_world \<Rightarrow> ingest_step" where
  "complete_ingest E ctx inp b q blob w =
    (case ii_clock inp 1 of
       None \<Rightarrow> unsettled w
     | Some at \<Rightarrow>
       (case registration_ids inp of
          None \<Rightarrow> finish_disposition E ctx inp b (DispositionRecovery IdGenerationUnavailable) at
            (Respond IdGenerationUnavailable AfterOperatorOrRuntimeAction) w
        | Some ids \<Rightarrow>
          (case external_ingest_completion_new (ingest_completion b blob q ids at) of
             Inl _ \<Rightarrow> unsettled w
           | Inr completion \<Rightarrow>
             (case through (ii_settle_fault inp) (complete_external E ctx completion (iw_db w)) of
                Inl _ \<Rightarrow> unsettled w
              | Inr (outcome, db) \<Rightarrow>
                (let w = w\<lparr>iw_db := db\<rparr> in
                 case outcome of
                   Applied r \<Rightarrow> (result_from_command r, if is_ok (result_from_command r) then w else fail_current_runtime w)
                 | Replay r \<Rightarrow> (result_from_command r, if is_ok (result_from_command r) then w else fail_current_runtime w)
                 | RecoveryRequired code \<Rightarrow> (Err (Respond code AfterOperatorOrRuntimeAction), w)
                 | TerminalRejected _ \<Rightarrow> unsettled w)))))"

text \<open>The part after the claim.\<close>

definition ingest_claimed ::
  "store_env \<Rightarrow> store_context \<Rightarrow> ingest_inputs \<Rightarrow> command_binding \<Rightarrow> ingest_request \<Rightarrow> ingest_world \<Rightarrow> ingest_step" where
  "ingest_claimed E ctx inp b q w =
    (case checkpoint (ii_directive inp 3) PostClaim of
       Inl failure \<Rightarrow> finish_stop E ctx inp b failure w
     | Inr _ \<Rightarrow>
       (case ii_storage inp of
          Inr (Ingest_Stored blob) \<Rightarrow> complete_ingest E ctx inp b q blob w
        | Inr (Ingest_Stopped stop) \<Rightarrow> finish_stop E ctx inp b (stop_failure stop PostClaim) w
        | Inl e \<Rightarrow> finish_storage_error E ctx inp b e w))"

text \<open>Claiming: \<open>None\<close> is the way to \<open>ingest_claimed\<close>.\<close>

definition claim_ingest ::
  "store_env \<Rightarrow> store_context \<Rightarrow> ingest_inputs \<Rightarrow> command_binding \<Rightarrow> ingest_world \<Rightarrow> (ingest_error + ingest_result) option \<times> ingest_world" where
  "claim_ingest E ctx inp b w =
    (case ii_clock inp 0 of
       None \<Rightarrow> (Some (Err (Respond IdGenerationUnavailable AfterOperatorOrRuntimeAction)), w)
     | Some at \<Rightarrow>
       (case external_ingest_claim_new \<lparr>eic_binding = b, eic_claimed_at = at\<rparr> of
          Inl _ \<Rightarrow> (Some (Err RuntimeFailed), w)
        | Inr claim \<Rightarrow>
          (case through (ii_claim_fault inp) (claim_external E ctx claim (iw_db w)) of
             Inl e \<Rightarrow> (Some (Err (map_claim_error e)), w)
           | Inr (outcome, db) \<Rightarrow>
             (let w = w\<lparr>iw_db := db\<rparr> in
              case outcome of
                ExternalClaimed \<Rightarrow> (None, w)
              | ExternalInProgress \<Rightarrow> (Some (Err (Respond CommandInProgress SameCommandAfterBoundedDelay)), w)
              | ExternalReplay r \<Rightarrow>
                  (Some (result_from_command r), if is_ok (result_from_command r) then w else fail_current_runtime w)
              | ExternalTerminalRejected code \<Rightarrow> (Some (Err (Respond code (retry_for_terminal code))), w)
              | ExternalRecoveryRequired code \<Rightarrow> (Some (Err (Respond code AfterOperatorOrRuntimeAction)), w)))))"

definition ingest_binding :: "store_env \<Rightarrow> ingest_request \<Rightarrow> command_binding option" where
  "ingest_binding E q = map_option (\<lambda>digest. \<lparr>binding_command_id = ir_command_id q,
    binding_operation_id = ASSET_INGEST_COPY_V1, binding_digest = digest\<rparr>) (canonical_request_digest (env_sha256 E) q)"

text \<open>The whole execution; \<open>None\<close> is a panic.\<close>

definition ingest_execute ::
  "store_env \<Rightarrow> store_context \<Rightarrow> admission_limits \<Rightarrow> ingest_inputs \<Rightarrow> ingest_request \<Rightarrow> ingest_world \<Rightarrow> ingest_step option" where
  "ingest_execute E ctx limits inp q w =
    (case and_then (checkpoint (ii_directive inp 0) PreClaim) (\<lambda>_.
       and_then (validate_source_selector (ir_source_path q)) (\<lambda>_.
       and_then (map_err map_source_error (ii_source inp)) (\<lambda>_.
       checkpoint (ii_directive inp 1) PreClaim))) of
       Inl e \<Rightarrow> Some (Err e, w)
     | Inr _ \<Rightarrow>
       (case ingest_binding E q of
          None \<Rightarrow> None
        | Some b \<Rightarrow>
          (case admission_acquire limits b (iw_admission w) of
             Inl e \<Rightarrow> Some (Err e, w)
           | Inr admission \<Rightarrow>
             (let w = w\<lparr>iw_admission := admission\<rparr>;
                  (r, w) = (case checkpoint (ii_directive inp 2) PreClaim of
                     Inl e \<Rightarrow> (Err e, w)
                   | Inr _ \<Rightarrow>
                     (case claim_ingest E ctx inp b w of
                        (Some r, w) \<Rightarrow> (r, w)
                      | (None, w) \<Rightarrow> ingest_claimed E ctx inp b q (w\<lparr>iw_db := run_others E (ii_others inp) (iw_db w)\<rparr>))) in
              Some (r, w\<lparr>iw_admission := admission_drop (ir_command_id q) (iw_admission w)\<rparr>)))))"


section \<open>What settles a claim\<close>

definition rejected_with :: "database \<Rightarrow> uuid \<Rightarrow> error_code \<Rightarrow> bool" where
  "rejected_with db i code =
    (\<exists>row. phase db i = Settled row \<and> cmd_state row = ''TERMINAL_REJECTED'' \<and> cmd_safe_error_code row = Some (error_code_as_str code))"

text \<open>The command has been completed and answers \<open>res\<close>.\<close>

definition ingested :: "store_env \<Rightarrow> store_context \<Rightarrow> command_binding \<Rightarrow> database \<Rightarrow> ingest_result \<Rightarrow> bool" where
  "ingested E ctx b db res =
    (\<exists>row r. read_command db b = Some row \<and> binding_matches row b (owner_uid ctx) \<and> validate_command_row E row = Ok row
      \<and> cmd_state row = ''COMPLETED'' \<and> replay_external_result E db row = Ok r \<and> result_from_command r = Ok res)"

lemma ingested_phase: "ingested E ctx b db res \<Longrightarrow> \<exists>row. phase db (binding_command_id b) = Settled row \<and> cmd_state row = ''COMPLETED''"
  by (auto simp add: ingested_def phase_def row_phase_def read_command_def)

lemma parse_safe_code_ok: "parse_safe_code row = Ok c \<longleftrightarrow> cmd_safe_error_code row = Some (error_code_as_str c)"
  by (auto simp add: parse_safe_code_def and_then_ok_iff ok_or_ok_iff map_err_ok_iff error_code_as_from_str)

lemma result_from_command_ok: "result_from_command r = Ok res \<Longrightarrow> \<exists>a b c d e f. r = ManagedRegistrationResult a b c d e f"
  by (cases r) simp_all

lemma finish_external_phase:
  assumes "finish_external E ctx q db = Ok (out, db')"
    and "out = Stored \<or> out = DispositionReplay (disposition_code (eid_disposition q))"
  shows "case eid_disposition q of
      DispositionRejected code \<Rightarrow> rejected_with db' (binding_command_id (eid_binding q)) code
    | DispositionRecovery _ \<Rightarrow> phase db' (binding_command_id (eid_binding q)) = Recovery"
proof -
  let ?b = "eid_binding q" and ?st = "disposition_state (eid_disposition q)" and ?code = "disposition_code (eid_disposition q)"
  obtain row where row: "bound_row E ctx ?b db = Ok row" and run: "owns_claim ctx row \<and> commands db' = update_rows
      (\<lambda>r. cmd_id r = binding_command_id ?b \<and> cmd_state r = ''CLAIMED'') (dispose_row ?st ?code (eid_observed_at q)) (commands db)
    \<or> db' = db \<and> cmd_state row = ?st \<and> parse_safe_code row = Ok ?code"
    using assms by (auto simp add: finish_external_def update_command_def Let_def and_then_ok_iff split: if_splits)
  have "\<exists>row'. find (\<lambda>r. cmd_id r = binding_command_id ?b) (commands db') = Some row'
      \<and> cmd_state row' = ?st \<and> cmd_safe_error_code row' = Some (error_code_as_str ?code)"
  proof (cases "db' = db \<and> cmd_state row = ?st \<and> parse_safe_code row = Ok ?code")
    case True
    then show ?thesis using bound_row_ok(1) [OF row] by (auto simp add: read_command_def parse_safe_code_ok)
  next
    case False
    then have moved: "owns_claim ctx row" "commands db' = update_rows
      (\<lambda>r. cmd_id r = binding_command_id ?b \<and> cmd_state r = ''CLAIMED'') (dispose_row ?st ?code (eid_observed_at q)) (commands db)"
      using run by auto
    have at: "find (\<lambda>r. cmd_id r = binding_command_id ?b) (commands db) = Some row" "cmd_id row = binding_command_id ?b"
      using bound_row_ok(1) [OF row] find_row [of _ "commands db" row] unfolding read_command_def by auto
    have "find (\<lambda>r. cmd_id r = binding_command_id ?b) (commands db') = Some (dispose_row ?st ?code (eid_observed_at q) row)"
      unfolding moved(2) using at moved(1) find_update_rows [of "\<lambda>r. cmd_id r = binding_command_id ?b"
          "dispose_row ?st ?code (eid_observed_at q)" "\<lambda>r. cmd_id r = binding_command_id ?b \<and> cmd_state r = ''CLAIMED''" "commands db"]
      by (simp add: owns_claim_def dispose_row_def)
    then show ?thesis by (simp add: dispose_row_def)
  qed
  then show ?thesis by (cases "eid_disposition q") (auto simp add: rejected_with_def phase_def row_phase_def)
qed


lemma replay_external_ok: "replay_external_result E db row = Ok r \<longleftrightarrow> replay_result E db row = Ok r \<and> (\<exists>a b c d e f. r = ManagedRegistrationResult a b c d e f)"
proof (cases "replay_result E db row")
  case (Inr x)
  then show ?thesis by (cases x) (auto simp add: replay_external_result_def)
qed (simp add: replay_external_result_def)

lemma registered_row_simps [simp]:
  "cmd_id (registered_row a l at row) = cmd_id row" "cmd_state (registered_row a l at row) = ''COMPLETED''"
  "binding_matches (registered_row a l at row) b uid = binding_matches row b uid"
  by (simp_all add: registered_row_def binding_matches_def)

lemma register_external_ingested:
  assumes "bound_row E ctx (eco_binding q) db = Ok row" "owns_claim ctx row" "register_external E q db = Ok (out, db')"
  shows "\<exists>r. out = Applied r \<and> (\<forall>res. result_from_command r = Ok res \<longrightarrow> ingested E ctx (eco_binding q) db' res)"
proof -
  let ?b = "eco_binding q" and ?p = "\<lambda>r. cmd_id r = binding_command_id (eco_binding q) \<and> cmd_state r = ''CLAIMED''"
  obtain db1 l where same: "commands db1 = commands db" and complete: "complete_command E ?b
      (registered_row (plan_asset_id (eco_plan q)) l (eco_completed_at q))
      (\<lambda>r. case r of ManagedRegistrationResult _ _ _ _ _ _ \<Rightarrow> True | _ \<Rightarrow> False) db1 = Ok (out, db')"
    using assms(3) by (auto simp add: register_external_def and_then_ok_iff Let_def dest!: registration_commands allocate_commands)
  let ?f = "registered_row (plan_asset_id (eco_plan q)) l (eco_completed_at q)"
  obtain row' row'' r where read: "read_command db' ?b = Some row'" "validate_command_row E row' = Ok row''" "replay_result E db' row'' = Ok r"
      "case r of ManagedRegistrationResult _ _ _ _ _ _ \<Rightarrow> True | _ \<Rightarrow> False" "out = Applied r"
    and cmds: "commands db' = update_rows ?p ?f (commands db)"
    using complete same
    by (auto simp add: complete_command_def update_command_def and_then_ok_iff ok_or_ok_iff Let_def split: if_splits)
  note row' = read [unfolded validate_command_row_ok [OF read(2)]]
  have at: "find (\<lambda>r. cmd_id r = binding_command_id ?b) (commands db) = Some row" "cmd_id row = binding_command_id ?b"
    using bound_row_ok(1) [OF assms(1)] find_row [of _ "commands db" row] unfolding read_command_def by auto
  have "read_command db' ?b = Some (?f row)"
    unfolding read_command_def cmds
    using at assms(2) find_update_rows [of "\<lambda>r. cmd_id r = binding_command_id ?b" ?f ?p "commands db"] by (simp add: owns_claim_def)
  then have "row' = ?f row" using row'(1) by simp
  then show ?thesis
    using row' bound_row_ok(2) [OF assms(1)]
    by (auto simp add: ingested_def replay_external_ok split: command_result.splits)
qed

lemma complete_external_result:
  assumes "complete_external E ctx q db = Ok (out, db')"
  shows "case out of
      Applied r \<Rightarrow> \<forall>res. result_from_command r = Ok res \<longrightarrow> ingested E ctx (eco_binding q) db' res
    | Replay r \<Rightarrow> \<forall>res. result_from_command r = Ok res \<longrightarrow> ingested E ctx (eco_binding q) db' res
    | RecoveryRequired _ \<Rightarrow> phase db' (binding_command_id (eco_binding q)) = Recovery
    | TerminalRejected _ \<Rightarrow> False"
proof -
  obtain row where row: "bound_row E ctx (eco_binding q) db = Ok row"
    using assms by (auto simp add: complete_external_def and_then_ok_iff)
  note facts = bound_row_ok [OF row]
  consider (done_before) r where "cmd_state row = ''COMPLETED''" "replay_external_result E db row = Ok r" "out = Replay r" "db' = db"
    | (recover) c where "cmd_state row = ''RECOVERY_REQUIRED''" "out = RecoveryRequired c" "db' = db"
    | (apply_now) "owns_claim ctx row" "register_external E q db = Ok (out, db')"
    using assms row by (auto simp add: complete_external_def and_then_ok_iff split: if_splits)
  then show ?thesis
  proof cases
    case done_before
    then show ?thesis using facts by (auto simp add: ingested_def)
  next
    case recover
    then show ?thesis using facts(1) by (simp add: phase_def row_phase_def read_command_def)
  next
    case apply_now
    then show ?thesis using register_external_ingested [OF row] by fastforce
  qed
qed

lemma claim_external_result:
  assumes "claim_external E ctx q db = Ok (out, db')"
  shows "case out of
      ExternalClaimed \<Rightarrow> phase db (binding_command_id (eic_binding q)) = Absent
        \<and> phase db' (binding_command_id (eic_binding q)) = Claimed (context_runtime_id ctx)
    | ExternalInProgress \<Rightarrow> db' = db
    | ExternalReplay r \<Rightarrow> db' = db \<and> (\<forall>res. result_from_command r = Ok res \<longrightarrow> ingested E ctx (eic_binding q) db res)
    | ExternalTerminalRejected c \<Rightarrow> db' = db \<and> rejected_with db (binding_command_id (eic_binding q)) c
    | ExternalRecoveryRequired _ \<Rightarrow> phase db' (binding_command_id (eic_binding q)) = Recovery"
proof (cases "read_command db (eic_binding q)")
  case None
  then have run: "out = ExternalClaimed" "commands db' = commands db @ [claimed_row ctx (eic_binding q) (eic_claimed_at q)]"
    using assms insert_claim_fresh [OF None, of ctx "eic_claimed_at q"] by (auto simp add: claim_external_def and_then_ok_iff)
  then show ?thesis
    using None by (simp add: phase_def read_command_def find_append row_phase_def claimed_row_def)
next
  case (Some row)
  let ?b = "eic_binding q"
  have ex: "external_existing E ctx ?b row (eic_claimed_at q) db = Ok (out, db')" using assms Some by (simp add: claim_external_def)
  then have row: "binding_matches row ?b (owner_uid ctx)" "validate_command_row E row = Ok row"
    using validate_command_row_ok by (auto simp add: external_existing_def and_then_ok_iff)
  have at: "find (\<lambda>r. cmd_id r = binding_command_id ?b) (commands db) = Some row" "cmd_id row = binding_command_id ?b"
    using Some find_row [of _ "commands db" row] unfolding read_command_def by auto
  have moved: "phase (snd (update_command (\<lambda>r. cmd_id r = binding_command_id ?b \<and> cmd_state r = ''CLAIMED'')
      (dispose_row ''RECOVERY_REQUIRED'' c t) db)) (binding_command_id ?b) = Recovery" if "cmd_state row = ''CLAIMED''" for c t
    using at that find_update_rows [of "\<lambda>r. cmd_id r = binding_command_id ?b" "dispose_row ''RECOVERY_REQUIRED'' c t"
        "\<lambda>r. cmd_id r = binding_command_id ?b \<and> cmd_state r = ''CLAIMED''" "commands db"]
    by (simp add: phase_def row_phase_def update_command_def dispose_row_def)
  show ?thesis
    using ex row Some at(1) moved
    by (auto simp add: external_existing_def and_then_ok_iff ingested_def rejected_with_def phase_def row_phase_def parse_safe_code_ok
        split: if_splits)
qed


section \<open>What an execution reports\<close>

text \<open>Admissible operations of other commands than \<open>i\<close>.\<close>

abbreviation apart :: "store_env \<Rightarrow> uuid \<Rightarrow> (store_context \<times> store_request) list \<Rightarrow> bool" where
  "apart E i rs \<equiv> list_all (\<lambda>(c, r). store_ok E c r
    \<and> (case request_binding r of None \<Rightarrow> False | Some b \<Rightarrow> binding_command_id b \<noteq> i)) rs"

definition ingest_ok :: "store_env \<Rightarrow> store_context \<Rightarrow> ingest_inputs \<Rightarrow> ingest_request \<Rightarrow> bool" where
  "ingest_ok E ctx inp q =
    ((\<forall>b. ingest_binding E q = Some b \<longrightarrow> binding_wf E ctx b)
     \<and> (\<forall>k at. ii_clock inp k = Some at \<longrightarrow> clock_ok E at)
     \<and> apart E (ir_command_id q) (ii_others inp))"

text \<open>What an answer means for the journal: a result is recorded and will be given again; a fresh command is advised
  only after this one has been rejected for good with the code answered; the same command is advised only when the journal was
  left as it was; and a claim is left open only by a runtime that is declared failed.\<close>

definition reported ::
  "store_env \<Rightarrow> store_context \<Rightarrow> command_binding \<Rightarrow> database \<Rightarrow> ingest_error + ingest_result \<Rightarrow> database \<Rightarrow> bool \<Rightarrow> bool" where
  "reported E ctx b db r db' has_failed =
    (let i = binding_command_id b in
     case r of
       Inr res \<Rightarrow> ingested E ctx b db' res
     | Inl RuntimeFailed \<Rightarrow> has_failed \<or> phase db' i = phase db i
     | Inl (Respond code retry) \<Rightarrow>
         (if retry = FreshCommandAfterBoundedDelay \<or> retry = AfterSourceStabilizesWithFreshCommand then rejected_with db' i code
          else if retry = AfterOperatorOrRuntimeAction
            then phase db' i = phase db i \<or> phase db' i = Recovery \<or> rejected_with db' i code
          else phase db' i = phase db i))"

lemma run_others_phase:
  assumes "apart E i rs" "ledger_wf E db"
  shows "ledger_wf E (run_others E rs db) \<and> phase (run_others E rs db) i = phase db i"
  using assms
proof (induction rs arbitrary: db)
  case (Cons x rs)
  obtain c r where x: "x = (c, r)" by (cases x)
  obtain b where ok: "store_ok E c r" and other: "request_binding r = Some b" "binding_command_id b \<noteq> i"
    using Cons.prems(1) x by (auto split: option.splits)
  show ?case
  proof (cases "store_run E c r db")
    case (Inl e)
    then show ?thesis using Cons x by simp
  next
    case (Inr db1)
    have "ledger_wf E db1" using store_run_ledger [OF ok Cons.prems(2) Inr] .
    moreover have "phase db1 i = phase db i"
      using store_run_phase [OF ok ledger_journal [OF Cons.prems(2)] Inr, of i] other by auto
    ultimately show ?thesis using Cons.IH [of db1] Cons.prems(1) x Inr by simp
  qed
qed simp

text \<open>The ways in which a claim is settled.\<close>

definition settles_claim :: "store_env \<Rightarrow> store_context \<Rightarrow> command_binding \<Rightarrow> ingest_step \<Rightarrow> bool" where
  "settles_claim E ctx b out =
    (ledger_wf E (iw_db (snd out)) \<and> (case fst out of
       Inr res \<Rightarrow> ingested E ctx b (iw_db (snd out)) res
     | Inl RuntimeFailed \<Rightarrow> iw_failed (snd out)
     | Inl (Respond code retry) \<Rightarrow>
         retry \<in> {FreshCommandAfterBoundedDelay, AfterSourceStabilizesWithFreshCommand, AfterOperatorOrRuntimeAction}
         \<and> (rejected_with (iw_db (snd out)) (binding_command_id b) code
            \<or> retry = AfterOperatorOrRuntimeAction \<and> phase (iw_db (snd out)) (binding_command_id b) = Recovery)))"

lemma unsettled_settles: "ledger_wf E (iw_db w) \<Longrightarrow> settles_claim E ctx b (unsettled w)"
  by (simp add: settles_claim_def unsettled_def fail_current_runtime_def)

lemma finish_disposition_settles:
  assumes "ledger_wf E (iw_db w)" "binding_wf E ctx b" "clock_ok E at"
    and "failure = Respond (disposition_code disposition) retry"
    and "case disposition of
        DispositionRejected _ \<Rightarrow> retry \<in> {FreshCommandAfterBoundedDelay, AfterSourceStabilizesWithFreshCommand, AfterOperatorOrRuntimeAction}
      | DispositionRecovery _ \<Rightarrow> retry = AfterOperatorOrRuntimeAction"
  shows "settles_claim E ctx b (finish_disposition E ctx inp b disposition at failure w)"
proof -
  let ?q = "\<lparr>eid_binding = b, eid_disposition = disposition, eid_observed_at = at\<rparr>"
  show ?thesis
  proof (cases "external_ingest_disposition_new ?q")
    case (Inl e)
    then show ?thesis using unsettled_settles [OF assms(1)] by (simp add: finish_disposition_def)
  next
    case (Inr q)
    then have q: "q = ?q" by (auto simp add: external_ingest_disposition_new_def and_then_ok_iff Let_def split: if_splits)
    show ?thesis
    proof (cases "through (ii_settle_fault inp) (finish_external E ctx q (iw_db w))")
      case (Inl e)
      then show ?thesis using unsettled_settles [OF assms(1)] Inr by (simp add: finish_disposition_def)
    next
      case (Inr x)
      obtain out db' where x: "x = (out, db')" by (cases x)
      then have run: "finish_external E ctx ?q (iw_db w) = Ok (out, db')" using Inr q by (auto simp add: through_def split: option.splits)
      have "store_ok E ctx (FinishExternal ?q)"
        using \<open>external_ingest_disposition_new ?q = Ok q\<close> assms(2,3) by (simp add: external_ok_def)
      then have wf: "ledger_wf E db'" using store_run_ledger [of E ctx "FinishExternal ?q" "iw_db w" db'] assms(1) run by simp
      show ?thesis
      proof (cases "out = Stored \<or> out = DispositionReplay (disposition_code disposition)")
        case True
        then have "finish_disposition E ctx inp b disposition at failure w = (Err failure, w\<lparr>iw_db := db'\<rparr>)"
          using \<open>external_ingest_disposition_new ?q = Ok q\<close> Inr x by (auto simp add: finish_disposition_def)
        moreover note finish_external_phase [OF run]
        ultimately show ?thesis
          using True wf assms(4,5) by (cases disposition) (simp_all add: settles_claim_def)
      next
        case False
        then have "finish_disposition E ctx inp b disposition at failure w = unsettled (w\<lparr>iw_db := db'\<rparr>)"
          using \<open>external_ingest_disposition_new ?q = Ok q\<close> Inr x by (cases out) (auto simp add: finish_disposition_def)
        then show ?thesis using unsettled_settles [of E "w\<lparr>iw_db := db'\<rparr>"] wf by simp
      qed
    qed
  qed
qed


lemma ledger_failed: "ledger_wf E (iw_db (fail_current_runtime w)) = ledger_wf E (iw_db w)"
  by (simp add: fail_current_runtime_def)

lemma answer_settles:
  assumes "ledger_wf E (iw_db w)" "\<And>res. result_from_command r = Ok res \<Longrightarrow> ingested E ctx b (iw_db w) res"
  shows "settles_claim E ctx b (result_from_command r, if is_ok (result_from_command r) then w else fail_current_runtime w)"
  using assms by (cases r) (simp_all add: settles_claim_def fail_current_runtime_def)

lemma complete_ingest_settles:
  assumes "ledger_wf E (iw_db w)" "binding_wf E ctx b" "\<And>k at. ii_clock inp k = Some at \<Longrightarrow> clock_ok E at"
  shows "settles_claim E ctx b (complete_ingest E ctx inp b q blob w)"
proof (cases "ii_clock inp 1")
  case None
  then show ?thesis using unsettled_settles [OF assms(1)] by (simp add: complete_ingest_def)
next
  case (Some at)
  show ?thesis
  proof (cases "registration_ids inp")
    case None
    then show ?thesis
      using Some finish_disposition_settles [OF assms(1,2) assms(3) [OF Some], of _ "DispositionRecovery IdGenerationUnavailable"]
      by (simp add: complete_ingest_def)
  next
    case (Some ids)
    let ?c = "ingest_completion b blob q ids at"
    show ?thesis
    proof (cases "external_ingest_completion_new ?c")
      case (Inl e)
      then show ?thesis using \<open>ii_clock inp 1 = Some at\<close> Some unsettled_settles [OF assms(1)] by (simp add: complete_ingest_def)
    next
      case (Inr c)
      then have c: "c = ?c" by (auto simp add: external_ingest_completion_new_def and_then_ok_iff Let_def split: if_splits)
      show ?thesis
      proof (cases "through (ii_settle_fault inp) (complete_external E ctx c (iw_db w))")
        case (Inl e)
        then show ?thesis
          using \<open>ii_clock inp 1 = Some at\<close> Some Inr unsettled_settles [OF assms(1)] by (simp add: complete_ingest_def)
      next
        case result: (Inr x)
        obtain out db' where x: "x = (out, db')" by (cases x)
        then have run: "complete_external E ctx ?c (iw_db w) = Ok (out, db')"
          using result c by (auto simp add: through_def split: option.splits)
        have wf: "ledger_wf E db'"
          using store_run_ledger [of E ctx "CompleteExternal ?c" "iw_db w" db'] assms(1) run Inr by simp
        have b: "eco_binding ?c = b" by (simp add: ingest_completion_def)
        note outcome = complete_external_result [OF run, unfolded b]
        have "complete_ingest E ctx inp b q blob w =
          (let w = w\<lparr>iw_db := db'\<rparr> in case out of
             Applied r \<Rightarrow> (result_from_command r, if is_ok (result_from_command r) then w else fail_current_runtime w)
           | Replay r \<Rightarrow> (result_from_command r, if is_ok (result_from_command r) then w else fail_current_runtime w)
           | RecoveryRequired code \<Rightarrow> (Err (Respond code AfterOperatorOrRuntimeAction), w)
           | TerminalRejected _ \<Rightarrow> unsettled w)"
          using \<open>ii_clock inp 1 = Some at\<close> Some Inr result x by (simp add: complete_ingest_def)
        moreover have "settles_claim E ctx b (Err (Respond code AfterOperatorOrRuntimeAction), w\<lparr>iw_db := db'\<rparr>)"
          if "out = RecoveryRequired code" for code
          using outcome wf that by (simp add: settles_claim_def)
        moreover note answer_settles [of E "w\<lparr>iw_db := db'\<rparr>" _ ctx b]
        ultimately show ?thesis using outcome wf by (cases out) (simp_all add: Let_def)
      qed
    qed
  qed
qed

lemma ingest_claimed_settles:
  assumes "ledger_wf E (iw_db w)" "binding_wf E ctx b" "\<And>k at. ii_clock inp k = Some at \<Longrightarrow> clock_ok E at"
  shows "settles_claim E ctx b (ingest_claimed E ctx inp b q w)"
proof -
  have rejects: "settles_claim E ctx b (finish_disposition E ctx inp b (DispositionRejected c) at (Respond c retry) w)"
    if "ii_clock inp 1 = Some at"
      "retry \<in> {FreshCommandAfterBoundedDelay, AfterSourceStabilizesWithFreshCommand, AfterOperatorOrRuntimeAction}" for c at retry
    using finish_disposition_settles [OF assms(1,2) assms(3) [OF that(1)], of _ "DispositionRejected c"] that(2) by simp
  have recovers: "settles_claim E ctx b (finish_disposition E ctx inp b (DispositionRecovery c) at (Respond c AfterOperatorOrRuntimeAction) w)"
    if "ii_clock inp 1 = Some at" for c at
    using finish_disposition_settles [OF assms(1,2) assms(3) [OF that], of _ "DispositionRecovery c"] by simp
  have stop: "settles_claim E ctx b (finish_stop E ctx inp b (stop_failure s PostClaim) w)" for s
    using rejects unsettled_settles [OF assms(1)] by (simp add: finish_stop_def split: option.split ingest_stop.split)
  have storage: "settles_claim E ctx b (finish_storage_error E ctx inp b e w)" for e
    using rejects recovers unsettled_settles [OF assms(1)] by (cases e) (simp_all add: finish_storage_error_def split: option.split)
  show ?thesis
    using stop storage complete_ingest_settles [OF assms]
    by (cases "ii_directive inp 3") (auto simp add: ingest_claimed_def split: sum.split ingest_outcome.split)
qed

lemma settles_reported:
  assumes "settles_claim E ctx b (r, w')"
  shows "reported E ctx b db r (iw_db w') (iw_failed w')"
  using assms by (auto simp add: settles_claim_def reported_def Let_def split: sum.splits ingest_error.splits)


lemma unchanged_reported:
  assumes "phase db' (binding_command_id b) = phase db (binding_command_id b)"
    and "case e of RuntimeFailed \<Rightarrow> True
      | Respond _ retry \<Rightarrow> retry \<noteq> FreshCommandAfterBoundedDelay \<and> retry \<noteq> AfterSourceStabilizesWithFreshCommand"
  shows "reported E ctx b db (Inl e) db' has_failed"
  using assms by (cases e) (simp_all add: reported_def)

lemma map_claim_error_retry: "case map_claim_error e of RuntimeFailed \<Rightarrow> True
    | Respond _ retry \<Rightarrow> retry \<noteq> FreshCommandAfterBoundedDelay \<and> retry \<noteq> AfterSourceStabilizesWithFreshCommand"
  by (cases e) simp_all

lemma retry_for_terminal_cases:
  "retry_for_terminal c \<in> {FreshCommandAfterBoundedDelay, AfterSourceStabilizesWithFreshCommand, AfterOperatorOrRuntimeAction}"
  by (auto simp add: retry_for_terminal_def)

lemma claim_ingest_reported:
  assumes "ledger_wf E (iw_db w)" "binding_wf E ctx b" "\<And>k at. ii_clock inp k = Some at \<Longrightarrow> clock_ok E at"
    and "claim_ingest E ctx inp b w = (r, w')"
  shows "ledger_wf E (iw_db w') \<and> iw_admission w' = iw_admission w \<and> (case r of
      None \<Rightarrow> phase (iw_db w') (binding_command_id b) = Claimed (context_runtime_id ctx)
    | Some r \<Rightarrow> reported E ctx b (iw_db w) r (iw_db w') (iw_failed w'))"
proof (cases "ii_clock inp 0")
  case None
  then show ?thesis using assms(1,4) unchanged_reported [of "iw_db w" b "iw_db w"] by (auto simp add: claim_ingest_def)
next
  case (Some at)
  let ?q = "\<lparr>eic_binding = b, eic_claimed_at = at\<rparr>"
  show ?thesis
  proof (cases "external_ingest_claim_new ?q")
    case (Inl e)
    then show ?thesis using Some assms(1,4) unchanged_reported [of "iw_db w" b "iw_db w" RuntimeFailed] by (auto simp add: claim_ingest_def)
  next
    case new: (Inr q)
    then have q: "q = ?q" by (auto simp add: external_ingest_claim_new_def and_then_ok_iff)
    show ?thesis
    proof (cases "through (ii_claim_fault inp) (claim_external E ctx q (iw_db w))")
      case (Inl e)
      then show ?thesis
        using Some new assms(1,4) unchanged_reported [of "iw_db w" b "iw_db w", OF _ map_claim_error_retry] by (auto simp add: claim_ingest_def)
    next
      case result: (Inr x)
      obtain out db' where x: "x = (out, db')" by (cases x)
      then have run: "claim_external E ctx ?q (iw_db w) = Ok (out, db')"
        using result q by (auto simp add: through_def split: option.splits)
      have wf: "ledger_wf E db'"
        using store_run_ledger [of E ctx "ClaimExternal ?q" "iw_db w" db'] assms(1,2) assms(3) [OF Some] run new
        by (simp add: external_ok_def)
      note outcome = claim_external_result [OF run]
      have w': "(r, w') = (let w = w\<lparr>iw_db := db'\<rparr> in case out of
            ExternalClaimed \<Rightarrow> (None, w)
          | ExternalInProgress \<Rightarrow> (Some (Err (Respond CommandInProgress SameCommandAfterBoundedDelay)), w)
          | ExternalReplay r \<Rightarrow> (Some (result_from_command r), if is_ok (result_from_command r) then w else fail_current_runtime w)
          | ExternalTerminalRejected code \<Rightarrow> (Some (Err (Respond code (retry_for_terminal code))), w)
          | ExternalRecoveryRequired code \<Rightarrow> (Some (Err (Respond code AfterOperatorOrRuntimeAction)), w))"
        using assms(4) Some new result x by (simp add: claim_ingest_def)
      show ?thesis
      proof (cases out)
        case (ExternalReplay y)
        then have "settles_claim E ctx b (result_from_command y, w')" "iw_admission w' = iw_admission w" "r = Some (result_from_command y)"
          using w' answer_settles [of E "w\<lparr>iw_db := db'\<rparr>" y ctx b] outcome wf by (simp_all add: Let_def fail_current_runtime_def)
        then show ?thesis using settles_reported by (auto simp add: settles_claim_def)
      next
        case (ExternalTerminalRejected c)
        then show ?thesis
          using w' outcome wf retry_for_terminal_cases [of c] by (auto simp add: Let_def reported_def)
      qed (use w' outcome wf in \<open>simp_all add: Let_def reported_def\<close>)
    qed
  qed
qed

lemma admission_restored:
  assumes "admission_acquire limits b st = Ok st'"
  shows "admission_drop (binding_command_id b) st' = st"
proof -
  have "map_of (ad_bindings st) (binding_command_id b) = None"
    and st': "st' = st\<lparr>ad_bindings := (binding_command_id b, binding_digest b) # ad_bindings st, ad_executions := ad_executions st + 1\<rparr>"
    using assms by (auto simp add: admission_acquire_def split: option.splits if_splits)
  then have "filter (\<lambda>(j, _). j \<noteq> binding_command_id b) (ad_bindings st) = ad_bindings st"
    by (force simp add: filter_id_conv map_of_eq_None_iff)
  then show ?thesis using st' by (simp add: admission_drop_def)
qed

lemma selector_bound: "validate_source_selector path = Ok () \<Longrightarrow> length path < 2 ^ 16"
  by (simp add: validate_source_selector_def ensure_ok_iff)


lemma unsettled_admission [simp]: "iw_admission (snd (unsettled w)) = iw_admission w"
  by (simp add: unsettled_def fail_current_runtime_def)

lemma finish_admission [simp]: "iw_admission (snd (finish_disposition E ctx inp b disp at failure w)) = iw_admission w"
  by (simp add: finish_disposition_def split: sum.split prod.split disposition_outcome.split)

lemma complete_admission [simp]: "iw_admission (snd (complete_ingest E ctx inp b q blob w)) = iw_admission w"
  by (simp add: complete_ingest_def Let_def fail_current_runtime_def split: option.split sum.split prod.split mutation_outcome.split)

lemma ingest_claimed_admission: "iw_admission (snd (ingest_claimed E ctx inp b q w)) = iw_admission w"
  by (simp add: ingest_claimed_def finish_stop_def finish_storage_error_def split: sum.split option.split ingest_error.split ingest_outcome.split prod.split)

abbreviation no_fresh_advice :: "ingest_error \<Rightarrow> bool" where
  "no_fresh_advice e \<equiv> (case e of RuntimeFailed \<Rightarrow> True
    | Respond _ retry \<Rightarrow> retry \<noteq> FreshCommandAfterBoundedDelay \<and> retry \<noteq> AfterSourceStabilizesWithFreshCommand)"

lemma preclaim_advice:
  "checkpoint dir PreClaim = Err e \<Longrightarrow> no_fresh_advice e" "validate_source_selector path = Err e \<Longrightarrow> no_fresh_advice e"
  "no_fresh_advice (map_source_error s)" "admission_acquire limits b st = Err e \<Longrightarrow> no_fresh_advice e"
proof -
  show "checkpoint dir PreClaim = Err e \<Longrightarrow> no_fresh_advice e" by (cases dir) auto
  show "validate_source_selector path = Err e \<Longrightarrow> no_fresh_advice e" by (auto simp add: validate_source_selector_def ensure_err_iff)
  show "no_fresh_advice (map_source_error s)" by (cases s) simp_all
  show "admission_acquire limits b st = Err e \<Longrightarrow> no_fresh_advice e"
    by (auto simp add: admission_acquire_def split: option.splits if_splits)
qed

lemma ingest_execute_reported:
  assumes "ledger_wf E (iw_db w)" "ingest_ok E ctx inp q" "ingest_binding E q = Some b"
  shows "\<exists>r w'. ingest_execute E ctx limits inp q w = Some (r, w') \<and> ledger_wf E (iw_db w') \<and> iw_admission w' = iw_admission w
    \<and> reported E ctx b (iw_db w) r (iw_db w') (iw_failed w')"
proof -
  let ?pre = "and_then (checkpoint (ii_directive inp 0) PreClaim) (\<lambda>_. and_then (validate_source_selector (ir_source_path q)) (\<lambda>_.
     and_then (map_err map_source_error (ii_source inp)) (\<lambda>_. checkpoint (ii_directive inp 1) PreClaim)))"
  have id: "binding_command_id b = ir_command_id q" using assms(3) by (auto simp add: ingest_binding_def)
  have ok: "binding_wf E ctx b" "\<And>k at. ii_clock inp k = Some at \<Longrightarrow> clock_ok E at"
    using assms(2,3) by (auto simp add: ingest_ok_def)
  have early: "reported E ctx b (iw_db w) (Inl e) (iw_db w) x" if "no_fresh_advice e" for e x
    using unchanged_reported [OF refl that] .
  show ?thesis
  proof (cases ?pre)
    case (Inl e)
    then have "no_fresh_advice e"
      using preclaim_advice(1,2) preclaim_advice(3) by (auto simp add: and_then_err_iff map_err_def split: sum.splits)
    then show ?thesis using Inl assms(1) early by (simp add: ingest_execute_def)
  next
    case pre: (Inr u)
    show ?thesis
    proof (cases "admission_acquire limits b (iw_admission w)")
      case (Inl e)
      then show ?thesis using pre assms(1,3) early [OF preclaim_advice(4) [OF Inl]] by (simp add: ingest_execute_def)
    next
      case adm: (Inr st)
      let ?w = "w\<lparr>iw_admission := st\<rparr>"
      note restored = admission_restored [OF adm, unfolded id]
      show ?thesis
      proof (cases "checkpoint (ii_directive inp 2) PreClaim")
        case (Inl e)
        then show ?thesis
          using pre adm assms(1,3) restored early [OF preclaim_advice(1) [OF Inl]] by (simp add: ingest_execute_def Let_def)
      next
        case check: (Inr v)
        obtain r1 w1 where claim: "claim_ingest E ctx inp b ?w = (r1, w1)" by fastforce
        note claimed = claim_ingest_reported [OF _ ok claim]
        show ?thesis
        proof (cases r1)
          case (Some r)
          then show ?thesis
            using pre adm check claim assms(1,3) claimed restored by (simp add: ingest_execute_def Let_def)
        next
          case None
          let ?w1 = "w1\<lparr>iw_db := run_others E (ii_others inp) (iw_db w1)\<rparr>"
          have "ledger_wf E (iw_db ?w1)"
            using run_others_phase [of E "ir_command_id q" "ii_others inp" "iw_db w1"] claimed assms(1,2) None by (simp add: ingest_ok_def)
          then have settled: "settles_claim E ctx b (ingest_claimed E ctx inp b q ?w1)" using ingest_claimed_settles ok by blast
          moreover obtain r w2 where end_state: "ingest_claimed E ctx inp b q ?w1 = (r, w2)" by fastforce
          ultimately have "reported E ctx b (iw_db w) r (iw_db w2) (iw_failed w2)" "ledger_wf E (iw_db w2)"
            using settles_reported [of E ctx b r w2] by (simp_all add: settles_claim_def)
          moreover have "iw_admission w2 = iw_admission w1" using ingest_claimed_admission [of E ctx inp b q ?w1] end_state by simp
          ultimately show ?thesis
            using pre adm check claim assms(1,3) claimed None end_state restored by (simp add: ingest_execute_def Let_def)
        qed
      qed
    qed
  qed
qed


section \<open>Properties\<close>

text \<open>C2. Whatever the source, the storage, the clock, the control and other commands do, an execution returns and its
  answer is true of the journal: a result is recorded under the command; a fresh command is advised only when this one has
  been rejected for good with the code that is answered, so that a retry never copies twice; the same command is advised only
  when the journal was left as it was; a claim left open has failed the runtime; the ledger is intact, and the place of the
  execution is free again.\<close>

theorem ingest_answers_truthfully:
  assumes "ledger_wf E (iw_db w)" "ingest_ok E ctx inp q"
  shows "\<exists>r w'. ingest_execute E ctx limits inp q w = Some (r, w') \<and> ledger_wf E (iw_db w') \<and> iw_admission w' = iw_admission w
    \<and> (\<forall>b. ingest_binding E q = Some b \<longrightarrow> reported E ctx b (iw_db w) r (iw_db w') (iw_failed w'))"
proof (cases "ingest_binding E q")
  case None
  then have "\<not> length (ir_source_path q) < 2 ^ 16"
    by (auto simp add: ingest_binding_def canonical_request_digest_def source_selector_digest_def split: if_splits)
  then have "validate_source_selector (ir_source_path q) \<noteq> Ok ()" using selector_bound by blast
  then obtain e where "validate_source_selector (ir_source_path q) = Err e" by (cases "validate_source_selector (ir_source_path q)") auto
  then obtain e' where "ingest_execute E ctx limits inp q w = Some (Err e', w)"
    by (cases "checkpoint (ii_directive inp 0) PreClaim") (auto simp add: ingest_execute_def)
  then show ?thesis using None assms(1) by simp
next
  case (Some b)
  then show ?thesis using ingest_execute_reported [OF assms Some, of limits] by auto
qed

lemma ingested_claim:
  assumes "ingested E ctx b db res" "eic_binding q = b"
  shows "\<exists>r. claim_external E ctx q db = Ok (ExternalReplay r, db) \<and> result_from_command r = Ok res"
  using assms by (auto simp add: ingested_def claim_external_def external_existing_def)

text \<open>C12. A copy that was answered is answered again: repeating the request at once gives the same identifiers, and neither the
  database nor the service changes.\<close>

theorem ingest_repeats:
  assumes "ledger_wf E (iw_db w)" "ingest_ok E ctx inp q" "ingest_execute E ctx limits inp q w = Some (Ok res, w')"
    and "\<And>k. ii_directive again k = Continue" "ii_source again = Ok ()" "ii_clock again 0 = Some at" "ii_claim_fault again = None"
  shows "ingest_execute E ctx limits again q w' = Some (Ok res, w')"
proof -
  have selector: "validate_source_selector (ir_source_path q) = Ok ()"
    and "\<exists>b st. ingest_binding E q = Some b \<and> admission_acquire limits b (iw_admission w) = Ok st"
    using assms(3) by (auto simp add: ingest_execute_def and_then_ok_iff split: sum.splits option.splits)
  then obtain b st where b: "ingest_binding E q = Some b" and st: "admission_acquire limits b (iw_admission w) = Ok st" by blast
  have "ingested E ctx b (iw_db w') res" and same: "iw_admission w' = iw_admission w"
    using ingest_execute_reported [OF assms(1,2) b, of limits] assms(3) by (auto simp add: reported_def)
  then obtain r where r: "claim_external E ctx \<lparr>eic_binding = b, eic_claimed_at = at\<rparr> (iw_db w') = Ok (ExternalReplay r, iw_db w')"
      "result_from_command r = Ok res"
    using ingested_claim [of E ctx b "iw_db w'" res "\<lparr>eic_binding = b, eic_claimed_at = at\<rparr>"] by auto
  have "binding_operation_id b = ASSET_INGEST_COPY_V1" and id: "binding_command_id b = ir_command_id q"
    using b by (auto simp add: ingest_binding_def)
  then have "external_ingest_claim_new \<lparr>eic_binding = b, eic_claimed_at = at\<rparr> = Ok \<lparr>eic_binding = b, eic_claimed_at = at\<rparr>"
    by (simp add: external_ingest_claim_new_def require_operation_def)
  then have claim: "claim_ingest E ctx again b (w'\<lparr>iw_admission := st\<rparr>) = (Some (Ok res), w'\<lparr>iw_admission := st\<rparr>)"
    using assms(6,7) r by (simp add: claim_ingest_def through_def Let_def)
  have "admission_acquire limits b (iw_admission w') = Ok st" "admission_drop (ir_command_id q) st = iw_admission w'"
    using st same admission_restored [OF st, unfolded id] by simp_all
  then show ?thesis
    using selector assms(4,5) b claim by (simp add: ingest_execute_def Let_def)
qed


definition sample_ingest :: ingest_request where
  "sample_ingest = \<lparr>ir_command_id = sample_id 5, ir_source_path = [47, 97], ir_asset_kind = ''image'', ir_content_kind = ''raster'',
    ir_representation_purpose = ''original'', ir_resource_kind = ''file'', ir_logical_name = [97], ir_expected_digest = None\<rparr>"

definition sample_blob :: durable_blob where
  "sample_blob = \<lparr>durable_digest = replicate 32 3, durable_byte_length = 10, durable_backend_id = [97], durable_locator = [98]\<rparr>"

definition sample_inputs :: "blob_storage_error + ingest_outcome \<Rightarrow> ingest_inputs" where
  "sample_inputs outcome = \<lparr>ii_directive = (\<lambda>_. Continue), ii_source = Ok (), ii_clock = (\<lambda>_. Some sample_at),
    ii_id = (\<lambda>k. Some (sample_id (60 + k))), ii_storage = outcome, ii_others = [], ii_claim_fault = None, ii_settle_fault = None\<rparr>"

definition sample_world :: ingest_world where
  "sample_world = \<lparr>iw_db = empty_database, iw_admission = \<lparr>ad_bindings = [], ad_executions = 0\<rparr>, iw_failed = False\<rparr>"

definition sample_copy :: command_binding where
  "sample_copy = \<lparr>binding_command_id = sample_id 5, binding_operation_id = ASSET_INGEST_COPY_V1, binding_digest = replicate 32 7\<rparr>"

lemma sample_ingest_binding: "ingest_binding sample_env sample_ingest = Some sample_copy"
  by (simp add: ingest_binding_def canonical_request_digest_def source_selector_digest_def sample_ingest_def sample_env_def sample_copy_def)

lemma sample_ingest_ok: "ingest_ok sample_env sample_ctx (sample_inputs outcome) sample_ingest"
  using sample_id_wf sample_clock_ok
  by (simp add: ingest_ok_def sample_ingest_binding binding_wf_def sample_copy_def sample_ctx_def sample_inputs_def)

lemma sample_claim_run:
  "claim_ingest sample_env sample_ctx (sample_inputs outcome) sample_copy w =
    (None, w\<lparr>iw_db := empty_database\<lparr>commands := [claimed_row sample_ctx sample_copy sample_at]\<rparr>\<rparr>)" if "iw_db w = empty_database"
proof -
  have fresh: "read_command empty_database sample_copy = None" by (simp add: read_command_def empty_database_def)
  have "commands empty_database = []" by (simp add: empty_database_def)
  then have "claim_external sample_env sample_ctx \<lparr>eic_binding = sample_copy, eic_claimed_at = sample_at\<rparr> empty_database =
      Ok (ExternalClaimed, empty_database\<lparr>commands := [claimed_row sample_ctx sample_copy sample_at]\<rparr>)"
    using insert_claim_fresh [OF fresh, of sample_ctx sample_at] fresh by (simp add: claim_external_def)
  moreover have "binding_operation_id sample_copy = ASSET_INGEST_COPY_V1" by (simp add: sample_copy_def)
  ultimately show ?thesis
    using that by (simp add: claim_ingest_def sample_inputs_def external_ingest_claim_new_def require_operation_def through_def)
qed

definition sample_claimed_copy :: database where
  "sample_claimed_copy = empty_database\<lparr>commands := [claimed_row sample_ctx sample_copy sample_at]\<rparr>"

lemma sample_copy_wf: "binding_wf sample_env sample_ctx sample_copy"
  using sample_id_wf by (simp add: binding_wf_def sample_copy_def sample_ctx_def)

lemma sample_copy_op [simp]: "binding_operation_id sample_copy = ASSET_INGEST_COPY_V1" "binding_command_id sample_copy = sample_id 5"
  by (simp_all add: sample_copy_def)

lemma sample_copy_bound: "bound_row sample_env sample_ctx sample_copy sample_claimed_copy = Ok (claimed_row sample_ctx sample_copy sample_at)"
  using claimed_row_valid [OF sample_copy_wf sample_clock_ok]
  by (simp add: bound_row_def read_command_def sample_claimed_copy_def binding_matches_def claimed_row_def)

definition sample_ingest_limits :: admission_limits where
  "sample_ingest_limits = \<lparr>al_binding_capacity = 1, al_execution_capacity = 1\<rparr>"

lemma sample_execute:
  assumes "ingest_claimed sample_env sample_ctx (sample_inputs outcome) sample_copy sample_ingest
    (sample_world\<lparr>iw_admission := \<lparr>ad_bindings = [(sample_id 5, binding_digest sample_copy)], ad_executions = 1\<rparr>, iw_db := sample_claimed_copy\<rparr>) = (r, w')"
  shows "\<exists>w''. ingest_execute sample_env sample_ctx sample_ingest_limits (sample_inputs outcome) sample_ingest sample_world = Some (r, w'')"
proof -
  let ?w = "sample_world\<lparr>iw_admission := \<lparr>ad_bindings = [(sample_id 5, binding_digest sample_copy)], ad_executions = 1\<rparr>\<rparr>"
  have inputs: "ii_directive (sample_inputs outcome) k = Continue" "ii_source (sample_inputs outcome) = Ok ()"
      "ii_others (sample_inputs outcome) = []" for k by (simp_all add: sample_inputs_def)
  have "validate_source_selector (ir_source_path sample_ingest) = Ok ()"
    by (simp add: validate_source_selector_def sample_ingest_def)
  moreover have "admission_acquire sample_ingest_limits sample_copy (iw_admission sample_world) = Ok (iw_admission ?w)"
    by (simp add: admission_acquire_def sample_ingest_limits_def sample_world_def)
  moreover have "claim_ingest sample_env sample_ctx (sample_inputs outcome) sample_copy ?w = (None, ?w\<lparr>iw_db := sample_claimed_copy\<rparr>)"
    using sample_claim_run [of ?w] by (simp add: sample_claimed_copy_def sample_world_def)
  ultimately show ?thesis
    using assms by (simp add: ingest_execute_def sample_ingest_binding inputs Let_def)
qed

lemma sample_copy_rejects:
  "\<exists>w'. ingest_claimed sample_env sample_ctx (sample_inputs (Err Blob_Io)) sample_copy sample_ingest
      (w\<lparr>iw_db := sample_claimed_copy\<rparr>) = (Err (Respond StorageIoError FreshCommandAfterBoundedDelay), w')"
proof -
  have "owns_claim sample_ctx (claimed_row sample_ctx sample_copy sample_at)" by (simp add: owns_claim_def claimed_row_def)
  then have "\<exists>db'. finish_external sample_env sample_ctx \<lparr>eid_binding = sample_copy, eid_disposition = DispositionRejected StorageIoError,
      eid_observed_at = sample_at\<rparr> sample_claimed_copy = Ok (Stored, db')"
    using sample_copy_bound by (simp add: finish_external_def)
  then show ?thesis
    by (auto simp add: ingest_claimed_def finish_storage_error_def finish_disposition_def sample_inputs_def through_def
        external_ingest_disposition_new_def require_operation_def)
qed

definition sample_completion :: external_ingest_completion where
  "sample_completion = ingest_completion sample_copy sample_blob sample_ingest (map (\<lambda>k. sample_id (60 + k)) [0..<7]) sample_at"

lemma sample_copy_ids: "sample_id m = sample_id n \<longleftrightarrow> (word_of_nat m :: 8 word) = word_of_nat n"
  by (simp add: sample_id_def)

lemma sample_persists: "persist_blob_and_location sample_env sample_blob (sample_id 64) None sample_at sample_claimed_copy =
    Ok (sample_id 64, sample_claimed_copy\<lparr>blobs := [\<lparr>bl_digest = replicate 32 3, bl_byte_length = 10, bl_media_type = None,
      bl_lifecycle = ''AVAILABLE'', bl_revision = revision_bytes 1, bl_verified_at = stamp sample_at\<rparr>],
      locations := [managed_location (sample_id 64) sample_blob sample_at]\<rparr>)"
  by (simp add: persist_blob_and_location_def persist_blob_def sample_claimed_copy_def empty_database_def sample_blob_def
      insert_row_def find_location_def insert_location_def)

lemma sample_completion_simps [simp]:
  "eco_binding sample_completion = sample_copy" "eco_durable_blob sample_completion = sample_blob"
  "eco_completed_at sample_completion = sample_at"
  "eco_domain_event_id sample_completion = sample_id 65" "eco_provenance_event_id sample_completion = sample_id 66"
  "plan_asset_id (eco_plan sample_completion) = sample_id 60" "plan_asset_revision_id (eco_plan sample_completion) = sample_id 61"
  "plan_representation_id (eco_plan sample_completion) = sample_id 62" "plan_resource_id (eco_plan sample_completion) = sample_id 63"
  "plan_candidate_location_id (eco_plan sample_completion) = sample_id 64" "plan_media_type (eco_plan sample_completion) = None"
  by (simp_all add: sample_completion_def ingest_completion_def)

lemma sample_registered_row:
  "validate_command_row sample_env (registered_row (sample_id 60) (sample_id 64) sample_at (claimed_row sample_ctx sample_copy sample_at))
    = Ok (registered_row (sample_id 60) (sample_id 64) sample_at (claimed_row sample_ctx sample_copy sample_at))"
  (is "_ = Ok ?row")
proof -
  have "row_header_ok ?row"
    by (intro external_header) (simp_all add: registered_row_def claimed_row_def u32_try_from_uint)
  moreover have "stored_id sample_env (Some (sample_id n)) = Ok (sample_id n)" for n by (simp add: stored_id_wf sample_id_wf)
  moreover obtain t where "persisted_timestamp sample_env (stamp sample_at) = Ok t"
    using sample_clock_ok by (cases "persisted_timestamp sample_env (stamp sample_at)") (auto simp add: clock_ok_def)
  ultimately show ?thesis
    by (simp add: validate_command_row_def stored_code_def payload_present_def validate_state_def no_result_def
        validate_completed_def validate_known_command_matrix_def external_matrix_def registered_row_def claimed_row_def sample_ctx_def
        sample_copy_def)
qed

text \<open>The registered database, before its command is completed.\<close>

definition sample_registered :: database where
  "sample_registered = sample_claimed_copy\<lparr>last_sequence := 1,
     domain_events := [\<lparr>ev_id = sample_id 65, ev_commit_sequence = 1, ev_command_id = sample_id 5, ev_type = ''asset.registered.v1'',
       ev_aggregate_kind = ''ASSET'', ev_aggregate_id = sample_id 60, ev_aggregate_revision = revision_bytes 1, ev_payload = None,
       ev_payload_sha256 = None, ev_occurred_at = stamp sample_at\<rparr>],
     assets := [\<lparr>as_id = sample_id 60, as_kind = ''image'', as_lifecycle = ''ACTIVE'', as_revision = revision_bytes 1,
       as_created_at = stamp sample_at, as_updated_at = None\<rparr>],
     asset_revisions := [\<lparr>ar_id = sample_id 61, ar_asset_id = sample_id 60, ar_sequence = 1, ar_content_kind = ''raster'',
       ar_created_at = stamp sample_at\<rparr>],
     representations := [\<lparr>rp_id = sample_id 62, rp_asset_revision_id = sample_id 61, rp_purpose = ''original''\<rparr>],
     resources := [\<lparr>rs_id = sample_id 63, rs_representation_id = sample_id 62, rs_kind = ''file''\<rparr>],
     resource_members := [\<lparr>rm_resource_id = sample_id 63, rm_ordinal = 0, rm_logical_name = [97], rm_blob_digest = replicate 32 3\<rparr>],
     blobs := [\<lparr>bl_digest = replicate 32 3, bl_byte_length = 10, bl_media_type = None, bl_lifecycle = ''AVAILABLE'',
       bl_revision = revision_bytes 1, bl_verified_at = stamp sample_at\<rparr>],
     locations := [managed_location (sample_id 64) sample_blob sample_at],
     provenance_events := [\<lparr>pv_id = sample_id 66, pv_command_id = sample_id 5, pv_type = ''asset.ingested.copy.v1'',
       pv_asset_revision_id = sample_id 61, pv_blob_digest = Some (replicate 32 3), pv_occurred_at = stamp sample_at\<rparr>]\<rparr>"

abbreviation sample_answer :: command_result where
  "sample_answer \<equiv> ManagedRegistrationResult (sample_id 60) (sample_id 61) (sample_id 62) (sample_id 63) (sample_id 64) (replicate 32 3)"

lemma sample_replays:
  "replay_result sample_env (sample_registered\<lparr>commands := rows\<rparr>)
    (registered_row (sample_id 60) (sample_id 64) sample_at (claimed_row sample_ctx sample_copy sample_at)) = Ok sample_answer"
proof -
  have "stored_id sample_env (Some (sample_id n)) = Ok (sample_id n)" "length (sample_id n) = 16" for n
    by (simp_all add: stored_id_wf sample_id_wf) (simp add: sample_id_def)
  then show ?thesis
    by (simp add: replay_result_def replay_registration_def registered_row_def claimed_row_def id_bytes_def sample_registered_def
        first_row_def count_rows_def command_events_def as_id_result_def digest_of_def managed_location_def sample_blob_def
        sample_claimed_copy_def creative_operations_def operation_ids)
qed

lemma sample_registers: "\<exists>db'. register_external sample_env sample_completion sample_claimed_copy = Ok (Applied sample_answer, db')"
proof -
  obtain g where "register_managed (registration_values sample_completion) = Ok g"
    by (simp add: register_managed_def registration_values_def Let_def sample_copy_ids)
  moreover have "and_then (insert_registration_graph sample_completion (sample_claimed_copy\<lparr>blobs := blobs sample_registered,
      locations := locations sample_registered\<rparr>)) (\<lambda>db. and_then (allocate_event_sequences 1 db) (\<lambda>(s, db).
      insert_registration_events sample_completion s db)) = Ok sample_registered"
    by (simp add: insert_registration_graph_def insert_row_def insert_asset_revision_def insert_representation_def insert_resource_def
        insert_resource_member_def allocate_event_sequences_def insert_registration_events_def insert_domain_event_def insert_event_def
        insert_provenance_def EVENT_SEQUENCE_MAX_def sample_registered_def sample_claimed_copy_def empty_database_def Let_def
        sample_completion_def ingest_completion_def sample_ingest_def sample_blob_def)
  moreover have "complete_command sample_env sample_copy (registered_row (sample_id 60) (sample_id 64) sample_at)
      (\<lambda>r. case r of ManagedRegistrationResult _ _ _ _ _ _ \<Rightarrow> True | _ \<Rightarrow> False) sample_registered
    = Ok (Applied sample_answer, sample_registered\<lparr>commands := [registered_row (sample_id 60) (sample_id 64) sample_at
        (claimed_row sample_ctx sample_copy sample_at)]\<rparr>)"
    using sample_replays sample_registered_row
    by (simp add: complete_command_def update_command_def read_command_def sample_registered_def [THEN arg_cong, of commands]
       count_rows_def sample_claimed_copy_def claimed_row_def [THEN arg_cong, of cmd_state] claimed_row_def [THEN arg_cong, of cmd_id])
  ultimately show ?thesis
    by (auto simp add: register_external_def sample_persists Let_def and_then_ok_iff sample_registered_def)
qed

lemma sample_next_ids: "next_ids (sample_inputs outcome) k n = Some (map (\<lambda>k. sample_id (60 + k)) [k..<k + n])"
  by (induction n arbitrary: k) (simp_all add: upt_conv_Cons sample_inputs_def del: upt_Suc)

lemma sample_copy_completes:
  "\<exists>w'. ingest_claimed sample_env sample_ctx (sample_inputs (Ok (Ingest_Stored sample_blob))) sample_copy sample_ingest
      (w\<lparr>iw_db := sample_claimed_copy\<rparr>) = (result_from_command sample_answer, w')"
proof -
  have "owns_claim sample_ctx (claimed_row sample_ctx sample_copy sample_at)" "cmd_state (claimed_row sample_ctx sample_copy sample_at) = ''CLAIMED''"
    by (simp_all add: owns_claim_def claimed_row_def)
  then have "\<exists>db'. complete_external sample_env sample_ctx sample_completion sample_claimed_copy = Ok (Applied sample_answer, db')"
    using sample_registers sample_copy_bound
    by (simp add: complete_external_def validate_descriptor_def sample_blob_def is_control_def text_len_def utf8_width_def)
  moreover have seven: "[0..<7::nat] = [0, 1, 2, 3, 4, 5, 6]" by (simp add: upt_rec)
  then have "registration_ids (sample_inputs outcome) = Some (map (\<lambda>k. sample_id (60 + k)) [0..<7])" for outcome
    by (simp add: registration_ids_def sample_next_ids seven) (simp add: sample_copy_ids)
  moreover have "external_ingest_completion_new sample_completion = Ok sample_completion"
    by (simp add: external_ingest_completion_new_def require_operation_def Let_def sample_copy_ids)
  ultimately show ?thesis
    by (auto simp add: ingest_claimed_def complete_ingest_def sample_inputs_def through_def sample_completion_def)
qed

theorem ingest_answers_truthfully_witness:
  "\<exists>w'. ingest_execute sample_env sample_ctx sample_ingest_limits (sample_inputs (Err Blob_Io)) sample_ingest sample_world
      = Some (Err (Respond StorageIoError FreshCommandAfterBoundedDelay), w')
    \<and> rejected_with (iw_db w') (sample_id 5) StorageIoError"
proof -
  obtain w' where "ingest_execute sample_env sample_ctx sample_ingest_limits (sample_inputs (Err Blob_Io)) sample_ingest sample_world
      = Some (Err (Respond StorageIoError FreshCommandAfterBoundedDelay), w')"
    using sample_copy_rejects sample_execute by fast
  moreover have "ledger_wf sample_env (iw_db sample_world)" by (simp add: sample_world_def empty_wf)
  ultimately show ?thesis
    using ingest_answers_truthfully [OF _ sample_ingest_ok [of "Err Blob_Io"], of sample_world sample_ingest_limits]
    by (auto simp add: sample_ingest_binding reported_def)
qed

theorem ingest_repeats_witness:
  "\<exists>w'. ingest_execute sample_env sample_ctx sample_ingest_limits (sample_inputs (Ok (Ingest_Stored sample_blob))) sample_ingest sample_world
      = Some (result_from_command sample_answer, w')
    \<and> ingest_execute sample_env sample_ctx sample_ingest_limits (sample_inputs (Err Blob_Io)) sample_ingest w'
      = Some (result_from_command sample_answer, w')"
proof -
  obtain w' where run: "ingest_execute sample_env sample_ctx sample_ingest_limits (sample_inputs (Ok (Ingest_Stored sample_blob))) sample_ingest sample_world
      = Some (result_from_command sample_answer, w')"
    using sample_copy_completes sample_execute by fast
  have wf: "ledger_wf sample_env (iw_db sample_world)" by (simp add: sample_world_def empty_wf)
  obtain res where res: "result_from_command sample_answer = Ok res" by simp
  show ?thesis
    using ingest_repeats [OF wf sample_ingest_ok run [unfolded res], of "sample_inputs (Err Blob_Io)" sample_at] run res
    by (simp add: sample_inputs_def)
qed

end
