(* ===== verification/Materialize.thy ===== *)
theory Materialize
  imports Ingest
begin

text \<open>
  The service that writes a member of an asset to a destination, \<open>crates/mengxia-app/src/materialize.rs\<close>, with the
  guard of its claim (\<open>MaterializationClaimGuard\<close> of \<open>asset_persistence.rs\<close>) and the query that resolves the
  member (\<open>resolve_materialization\<close> of \<open>crates/mengxia-store-sqlite/src/asset_query.rs\<close>).  The physical effects are
  the platform's: their outcomes are inputs, and the order in which the service asks for them is recorded.
\<close>

section \<open>Requests and results\<close>

record materialize_request =
  mq_command_id :: uuid
  mq_asset_id :: uuid
  mq_asset_revision_id :: uuid
  mq_representation_id :: uuid
  mq_resource_id :: uuid
  mq_member_ordinal :: u32
  mq_destination :: bytes

definition materialize_request_new :: "materialize_request \<Rightarrow> error_code + materialize_request" where
  "materialize_request_new q =
    (if mq_member_ordinal q > 4095 \<or> mq_destination q = [] \<or> length (mq_destination q) > 1023 \<or> 0 \<in> set (mq_destination q)
     then Err ValidationError else Ok q)"

record materialize_answer =
  ma_result :: materialization_result
  ma_replayed :: bool
  ma_cleanup_pending :: bool

definition update_tlv :: "byte \<Rightarrow> bytes \<Rightarrow> bytes" where
  "update_tlv tag v = tag # u32_to_be_bytes (of_nat (length v)) @ v"

definition materialize_digest :: "(bytes \<Rightarrow> bytes) \<Rightarrow> materialize_request \<Rightarrow> sha256_digest" where
  "materialize_digest sha256 q =
    (let destination = sha256 (str_bytes ''MENGXIA_DESTINATION_SELECTOR_V1'' @ [0]
           @ u16_to_be_bytes (of_nat (length (mq_destination q))) @ mq_destination q) in
     sha256 (str_bytes ''MENGXIA_ASSET_MATERIALIZE_MEMBER_REQUEST_V1'' @ [0]
       @ update_tlv 1 (mq_asset_id q) @ update_tlv 2 (mq_asset_revision_id q) @ update_tlv 3 (mq_representation_id q)
       @ update_tlv 4 (mq_resource_id q) @ update_tlv 5 (u32_to_be_bytes (mq_member_ordinal q)) @ update_tlv 6 destination
       @ update_tlv 7 (str_bytes ''NO_REPLACE_FILE_V1'')))"

fun stop_code :: "ingest_stop \<Rightarrow> error_code" where
  "stop_code Cancelled = OperationCancelled"
| "stop_code DeadlineReached = DeadlineExceeded"

fun control_point :: "ingest_directive \<Rightarrow> error_code + unit" where
  "control_point Continue = Ok ()"
| "control_point (Stop stop) = Err (stop_code stop)"

fun recovery_code :: "asset_store_error \<Rightarrow> error_code" where
  "recovery_code Store_StorageIo = StorageIoError"
| "recovery_code Store_ShuttingDown = StorageIoError"
| "recovery_code Store_StorageConfiguration = StorageConfigurationError"
| "recovery_code Store_Conflict = StorageConfigurationError"
| "recovery_code Store_Validation = StorageConfigurationError"
| "recovery_code Store_IdGenerationUnavailable = IdGenerationUnavailable"
| "recovery_code _ = InternalError"


section \<open>Resolving the member\<close>

definition is_lower_hex :: "nat \<Rightarrow> bool" where
  "is_lower_hex c = (48 \<le> c \<and> c \<le> 57 \<or> 97 \<le> c \<and> c \<le> 102)"

definition LOCAL_CAS_PREFIX :: utext where "LOCAL_CAS_PREFIX = str_text ''mengxia.local-cas.v1/''"

definition valid_backend_id :: "utext \<Rightarrow> bool" where
  "valid_backend_id v =
    (text_len v = text_len LOCAL_CAS_PREFIX + 64 \<and> take (length LOCAL_CAS_PREFIX) v = LOCAL_CAS_PREFIX
     \<and> list_all is_lower_hex (drop (length LOCAL_CAS_PREFIX) v))"

record materialization_selection =
  sl_asset_id :: uuid
  sl_asset_revision_id :: uuid
  sl_representation_id :: uuid
  sl_resource_id :: uuid
  sl_member_ordinal :: u32
  sl_current_backend_id :: utext

definition materialization_selection_new :: "materialization_selection \<Rightarrow> asset_store_error + materialization_selection" where
  "materialization_selection_new s =
    (if sl_member_ordinal s > 4095 \<or> \<not> valid_backend_id (sl_current_backend_id s) then Err Store_Validation else Ok s)"

record resolved_member =
  rv_asset_id :: uuid
  rv_asset_revision_id :: uuid
  rv_representation_id :: uuid
  rv_resource_id :: uuid
  rv_member_ordinal :: u32
  rv_blob_digest :: sha256_digest
  rv_byte_length :: u64
  rv_location_id :: uuid
  rv_backend_id :: utext
  rv_locator :: utext

definition resolved_member_from_store :: "resolved_member \<Rightarrow> asset_store_error + resolved_member" where
  "resolved_member_from_store m =
    (if rv_member_ordinal m > 4095 \<or> rv_backend_id m = [] \<or> text_len (rv_backend_id m) > 255 \<or> 0 \<in> set (rv_backend_id m)
        \<or> rv_locator m = [] \<or> text_len (rv_locator m) > 1024 \<or> 0 \<in> set (rv_locator m)
     then Err Store_StorageCorruption else Ok m)"

definition canonical_local_locator :: "sha256_digest \<Rightarrow> utext" where
  "canonical_local_locator d =
    (let digest = sha256_display d in
     str_text (''sha256-v1/'' @ take 2 digest @ ''/'' @ take 2 (drop 2 digest) @ ''/'' @ digest @ ''.blob''))"

definition selected_members :: "materialization_selection \<Rightarrow> database \<Rightarrow> (bytes \<times> int \<times> string) list" where
  "selected_members s db =
    [(rm_blob_digest rm, bl_byte_length b, bl_lifecycle b).
      a \<leftarrow> assets db, as_id a = sl_asset_id s,
      ar \<leftarrow> asset_revisions db, ar_asset_id ar = as_id a \<and> ar_id ar = sl_asset_revision_id s,
      rp \<leftarrow> representations db, rp_asset_revision_id rp = ar_id ar \<and> rp_id rp = sl_representation_id s,
      rs \<leftarrow> resources db, rs_representation_id rs = rp_id rp \<and> rs_id rs = sl_resource_id s,
      rm \<leftarrow> resource_members db, rm_resource_id rm = rs_id rs \<and> rm_ordinal rm = uint (sl_member_ordinal s),
      b \<leftarrow> blobs db, bl_digest b = rm_blob_digest rm]"

definition resolve_materialization ::
  "store_env \<Rightarrow> materialization_selection \<Rightarrow> database \<Rightarrow> asset_store_error + resolved_member" where
  "resolve_materialization E s db =
    and_then (ok_or Store_NotFound (first_row (selected_members s db))) (\<lambda>(raw, len, lifecycle).
    and_then (ensure (lifecycle = ''AVAILABLE'') Store_StorageCorruption) (\<lambda>_.
    and_then (digest_of raw) (\<lambda>digest.
    and_then (ok_or Store_StorageCorruption (u64_try_from len)) (\<lambda>n.
    and_then (ensure (n \<le> 1099511627776) Store_StorageCorruption) (\<lambda>_.
    case filter (\<lambda>l. lo_blob_digest l = digest \<and> lo_backend_id l = sl_current_backend_id s) (locations db) of
      [] \<Rightarrow> Err Store_StorageConfiguration
    | l # others \<Rightarrow>
      if others \<noteq> [] \<or> lo_backend_id l \<noteq> sl_current_backend_id s \<or> lo_custody l \<noteq> ''MANAGED'' \<or> lo_durability l \<noteq> ''DURABLE''
        \<or> lo_lifecycle l \<noteq> ''AVAILABLE'' \<or> lo_locator l \<noteq> canonical_local_locator digest
      then Err Store_StorageCorruption
      else and_then (stored_id E (Some (lo_id l))) (\<lambda>i.
        resolved_member_from_store
          \<lparr>rv_asset_id = sl_asset_id s, rv_asset_revision_id = sl_asset_revision_id s,
           rv_representation_id = sl_representation_id s, rv_resource_id = sl_resource_id s,
           rv_member_ordinal = sl_member_ordinal s, rv_blob_digest = digest, rv_byte_length = n, rv_location_id = i,
           rv_backend_id = lo_backend_id l, rv_locator = lo_locator l\<rparr>))))))"

record materialization_effect =
  me_command :: materialization_command
  me_member :: resolved_member
  me_destination :: bytes

definition materialization_effect_new :: "materialization_effect \<Rightarrow> asset_store_error + materialization_effect" where
  "materialization_effect_new e =
    (let command = me_command e; member = me_member e in
     if me_destination e = [] \<or> length (me_destination e) > 1023 \<or> 0 \<in> set (me_destination e)
       \<or> mc_asset_id command \<noteq> rv_asset_id member \<or> mc_asset_revision_id command \<noteq> rv_asset_revision_id member
       \<or> mc_representation_id command \<noteq> rv_representation_id member \<or> mc_resource_id command \<noteq> rv_resource_id member
       \<or> mc_member_ordinal command \<noteq> rv_member_ordinal member
     then Err Store_Validation else Ok e)"


section \<open>One execution\<close>

text \<open>The physical operations the service asks for, in order.\<close>

datatype physical_operation =
    Prepare resolved_member | Prepare_Recovery resolved_member | Publish resolved_member | Cleanup | Cleanup_Completed resolved_member

datatype publish_outcome = Published | Publish_Stopped ingest_stop

record materialize_inputs =
  mi_directive :: "nat \<Rightarrow> ingest_directive"
  mi_clock :: "nat \<Rightarrow> timestamp option"
  mi_prepare :: "asset_store_error + unit"
  mi_publish :: "asset_store_error + publish_outcome"
  mi_cleanup :: "asset_store_error + unit"
  mi_before_resolve :: "(store_context \<times> store_request) list"
  mi_before_claim :: "(store_context \<times> store_request) list"
  mi_after_claim :: "(store_context \<times> store_request) list"
  mi_observe_fault :: "asset_store_error option"
  mi_resolve_fault :: "asset_store_error option"
  mi_claim_fault :: "asset_store_error option"
  mi_settle_fault :: "asset_store_error option"

record materialize_world =
  mw_db :: database
  mw_failed :: bool
  mw_performed :: "physical_operation list"

definition perform :: "physical_operation \<Rightarrow> materialize_world \<Rightarrow> materialize_world" where
  "perform operation w = w\<lparr>mw_performed := mw_performed w @ [operation]\<rparr>"

type_synonym materialize_step = "(error_code + materialize_answer) \<times> materialize_world"

text \<open>An error after which the guard of the claim is dropped while it is armed.\<close>

definition abandon_claim :: "asset_store_error \<Rightarrow> materialize_world \<Rightarrow> materialize_step" where
  "abandon_claim e w = (Err (store_error_code e), w\<lparr>mw_failed := True\<rparr>)"

definition finish_claim ::
  "store_env \<Rightarrow> store_context \<Rightarrow> materialize_inputs \<Rightarrow> materialization_transition \<Rightarrow> external_disposition \<Rightarrow> materialize_world \<Rightarrow> materialize_step" where
  "finish_claim E ctx inp t disposition w =
    (case materialization_finish_new \<lparr>mf_transition = t, mf_disposition = disposition\<rparr> of
       Inl e \<Rightarrow> abandon_claim e w
     | Inr finish \<Rightarrow>
       (case through (mi_settle_fault inp) (finish_materialization E ctx finish (mw_db w)) of
          Inl e \<Rightarrow> abandon_claim e w
        | Inr (_, db) \<Rightarrow> (Err (disposition_code disposition), w\<lparr>mw_db := db\<rparr>)))"

definition complete_claim ::
  "store_env \<Rightarrow> store_context \<Rightarrow> materialize_inputs \<Rightarrow> materialization_transition \<Rightarrow> materialize_world \<Rightarrow> materialize_step" where
  "complete_claim E ctx inp t w =
    (case through (mi_settle_fault inp) (complete_materialization E ctx t (mw_db w)) of
       Inl e \<Rightarrow> abandon_claim e w
     | Inr (result, db) \<Rightarrow>
         (Ok \<lparr>ma_result = result, ma_replayed = False, ma_cleanup_pending = \<not> is_ok (mi_cleanup inp)\<rparr>,
          perform Cleanup (w\<lparr>mw_db := db\<rparr>)))"

text \<open>From the claim, made at \<open>claimed_at\<close>, to its settlement.\<close>

definition materialize_claimed ::
  "store_env \<Rightarrow> store_context \<Rightarrow> materialize_inputs \<Rightarrow> materialization_command \<Rightarrow> resolved_member \<Rightarrow> timestamp \<Rightarrow> materialize_world \<Rightarrow> materialize_step" where
  "materialize_claimed E ctx inp command member claimed_at w =
    (let t = \<lparr>mt_command = command, mt_at = claimed_at\<rparr> in
     case control_point (mi_directive inp 4) of
       Inl code \<Rightarrow> finish_claim E ctx inp t (DispositionRejected code) w
     | Inr _ \<Rightarrow>
       (let w = perform (Publish member) w in
        case mi_publish inp of
          Inr Published \<Rightarrow>
            (case mi_clock inp 1 of
               None \<Rightarrow> finish_claim E ctx inp t (DispositionRecovery IdGenerationUnavailable) w
             | Some completed_at \<Rightarrow> complete_claim E ctx inp \<lparr>mt_command = command, mt_at = completed_at\<rparr> w)
        | Inr (Publish_Stopped stop) \<Rightarrow> finish_claim E ctx inp t (DispositionRejected (stop_code stop)) w
        | Inl e \<Rightarrow> finish_claim E ctx inp t (DispositionRecovery (recovery_code e)) w))"

definition resolve_effect ::
  "store_env \<Rightarrow> utext \<Rightarrow> materialize_inputs \<Rightarrow> materialize_request \<Rightarrow> materialization_command \<Rightarrow> database \<Rightarrow> asset_store_error + resolved_member" where
  "resolve_effect E backend inp q command db =
    and_then (materialization_selection_new \<lparr>sl_asset_id = mq_asset_id q, sl_asset_revision_id = mq_asset_revision_id q,
      sl_representation_id = mq_representation_id q, sl_resource_id = mq_resource_id q, sl_member_ordinal = mq_member_ordinal q,
      sl_current_backend_id = backend\<rparr>) (\<lambda>selection.
    through (mi_resolve_fault inp) (resolve_materialization E selection db))"

definition effect_request ::
  "materialize_request \<Rightarrow> materialization_command \<Rightarrow> resolved_member \<Rightarrow> asset_store_error + materialization_effect" where
  "effect_request q command member =
    materialization_effect_new \<lparr>me_command = command, me_member = member, me_destination = mq_destination q\<rparr>"

definition replay_completed ::
  "store_env \<Rightarrow> utext \<Rightarrow> materialize_inputs \<Rightarrow> materialize_request \<Rightarrow> materialization_command \<Rightarrow> materialization_result \<Rightarrow> materialize_world \<Rightarrow> materialize_step" where
  "replay_completed E backend inp q command result w =
    (case resolve_effect E backend inp q command (mw_db w) of
       Inl e \<Rightarrow> (Err (store_error_code e), w)
     | Inr member \<Rightarrow>
       if rv_blob_digest member \<noteq> mr_blob_digest result \<or> rv_byte_length member \<noteq> mr_byte_length result
       then (Err StorageCorruption, w)
       else (case effect_request q command member of
         Inl e \<Rightarrow> (Err (store_error_code e), w)
       | Inr _ \<Rightarrow> (Ok \<lparr>ma_result = result, ma_replayed = True, ma_cleanup_pending = \<not> is_ok (mi_cleanup inp)\<rparr>,
           perform (Cleanup_Completed member) w)))"

text \<open>Everything up to the claim, for a command that was observed absent (\<open>None\<close>) or left over with the code
  \<open>Some c\<close>; \<open>Ok\<close> is the prepared member with the time of the claim.\<close>

definition prepare_and_claim ::
  "store_env \<Rightarrow> store_context \<Rightarrow> utext \<Rightarrow> materialize_inputs \<Rightarrow> materialize_request \<Rightarrow> materialization_command
    \<Rightarrow> error_code option option \<Rightarrow> materialize_world \<Rightarrow> (error_code + resolved_member \<times> timestamp) \<times> materialize_world" where
  "prepare_and_claim E ctx backend inp q command recovery w =
    (case and_then (control_point (mi_directive inp 2)) (\<lambda>_. map_err store_error_code
        (and_then (resolve_effect E backend inp q command (mw_db w)) (effect_request q command))) of
       Inl code \<Rightarrow> (Err code, w)
     | Inr effect \<Rightarrow>
       (let member = me_member effect; w = perform (if recovery = None then Prepare member else Prepare_Recovery member) w in
        case and_then (map_err store_error_code (mi_prepare inp)) (\<lambda>_. control_point (mi_directive inp 3)) of
          Inl code \<Rightarrow> (Err code, w)
        | Inr _ \<Rightarrow>
          (case mi_clock inp 0 of
             None \<Rightarrow> (Err IdGenerationUnavailable, w)
           | Some claimed_at \<Rightarrow>
             (let t = \<lparr>mt_command = command, mt_at = claimed_at\<rparr>; w = w\<lparr>mw_db := run_others E (mi_before_claim inp) (mw_db w)\<rparr> in
              case through (mi_claim_fault inp) (case recovery of
                  Some expected \<Rightarrow> reacquire_materialization E ctx t expected (mw_db w)
                | None \<Rightarrow> claim_new_materialization ctx t (mw_db w)) of
                Inl e \<Rightarrow> (Err (store_error_code e), w)
              | Inr db \<Rightarrow> (Ok (member, claimed_at), w\<lparr>mw_db := db\<rparr>)))))"

definition materialize_open ::
  "store_env \<Rightarrow> store_context \<Rightarrow> utext \<Rightarrow> materialize_inputs \<Rightarrow> materialize_request \<Rightarrow> materialization_command
    \<Rightarrow> error_code option option \<Rightarrow> materialize_world \<Rightarrow> materialize_step" where
  "materialize_open E ctx backend inp q command recovery w =
    (case prepare_and_claim E ctx backend inp q command recovery w of
       (Inl code, w) \<Rightarrow> (Err code, w)
     | (Inr (member, claimed_at), w) \<Rightarrow>
         materialize_claimed E ctx inp command member claimed_at (w\<lparr>mw_db := run_others E (mi_after_claim inp) (mw_db w)\<rparr>))"

definition materialize_command :: "store_env \<Rightarrow> materialize_request \<Rightarrow> materialization_command" where
  "materialize_command E q = \<lparr>mc_binding = \<lparr>binding_command_id = mq_command_id q, binding_operation_id = ASSET_MATERIALIZE_V1,
      binding_digest = materialize_digest (env_sha256 E) q\<rparr>, mc_asset_id = mq_asset_id q,
    mc_asset_revision_id = mq_asset_revision_id q, mc_representation_id = mq_representation_id q,
    mc_resource_id = mq_resource_id q, mc_member_ordinal = mq_member_ordinal q\<rparr>"

definition materialize_execute ::
  "store_env \<Rightarrow> store_context \<Rightarrow> utext \<Rightarrow> materialize_inputs \<Rightarrow> materialize_request \<Rightarrow> materialize_world \<Rightarrow> materialize_step" where
  "materialize_execute E ctx backend inp q w =
    (case and_then (control_point (mi_directive inp 0)) (\<lambda>_.
       and_then (map_err store_error_code (materialization_command_new (materialize_command E q))) (\<lambda>command.
       and_then (control_point (mi_directive inp 1)) (\<lambda>_.
       and_then (map_err store_error_code (through (mi_observe_fault inp) (observe_materialization E ctx command (mw_db w)))) (\<lambda>seen.
         Ok (command, seen))))) of
       Inl code \<Rightarrow> (Err code, w)
     | Inr (command, seen) \<Rightarrow>
       (let w = w\<lparr>mw_db := run_others E (mi_before_resolve inp) (mw_db w)\<rparr> in
        case seen of
          MaterializationReplay result \<Rightarrow> replay_completed E backend inp q command result w
        | MaterializationRejected code \<Rightarrow> (Err code, w)
        | MaterializationInProgress \<Rightarrow> (Err CommandInProgress, w)
        | RecoveryCandidate code \<Rightarrow> materialize_open E ctx backend inp q command (Some code) w
        | MaterializationAbsent \<Rightarrow> materialize_open E ctx backend inp q command None w))"

section \<open>What settles a claim\<close>

text \<open>The command has been completed and answers \<open>result\<close>.\<close>

definition materialized ::
  "store_env \<Rightarrow> store_context \<Rightarrow> materialization_command \<Rightarrow> database \<Rightarrow> materialization_result \<Rightarrow> bool" where
  "materialized E ctx command db result =
    (\<exists>row. read_command db (mc_binding command) = Some row \<and> binding_matches row (mc_binding command) (owner_uid ctx)
      \<and> validate_command_row E row = Ok row \<and> cmd_state row = ''COMPLETED'' \<and> replay_materialization db row command = Ok result)"

definition open_phase :: "bytes \<Rightarrow> phase \<Rightarrow> bool" where
  "open_phase rt p = (p = Absent \<or> p = Recovery \<or> (\<exists>r. p = Claimed r \<and> r \<noteq> rt))"

lemma materialized_settled: "materialized E ctx command db result \<Longrightarrow> \<not> open_phase rt (phase db (binding_command_id (mc_binding command)))"
  by (auto simp add: materialized_def open_phase_def phase_def row_phase_def read_command_def)

lemma observed_phase:
  assumes "observe_materialization E ctx command db = Ok seen"
  shows "let p = phase db (binding_command_id (mc_binding command)) in case seen of
      MaterializationReplay result \<Rightarrow> materialized E ctx command db result
    | MaterializationRejected code \<Rightarrow> rejected_with db (binding_command_id (mc_binding command)) code
    | MaterializationInProgress \<Rightarrow> p = Claimed (context_runtime_id ctx)
    | RecoveryCandidate _ \<Rightarrow> open_phase (context_runtime_id ctx) p \<and> p \<noteq> Absent
    | MaterializationAbsent \<Rightarrow> p = Absent"
proof (cases "read_command db (mc_binding command)")
  case None
  then show ?thesis using assms by (simp add: observe_materialization_def phase_def read_command_def)
next
  case (Some row)
  then have "find (\<lambda>r. cmd_id r = binding_command_id (mc_binding command)) (commands db) = Some row" by (simp add: read_command_def)
  then show ?thesis
    using assms Some validate_command_row_ok [of E row]
    by (auto simp add: observe_materialization_def and_then_ok_iff materialized_def rejected_with_def phase_def row_phase_def open_phase_def
        parse_safe_code_ok Let_def split: if_splits)
qed

lemma finish_materialization_phase:
  assumes "finish_materialization E ctx q db = Ok (out, db')"
  shows "case mf_disposition q of
      DispositionRejected code \<Rightarrow> rejected_with db' (binding_command_id (mc_binding (mt_command (mf_transition q)))) code
    | DispositionRecovery _ \<Rightarrow> phase db' (binding_command_id (mc_binding (mt_command (mf_transition q)))) = Recovery"
proof -
  let ?b = "mc_binding (mt_command (mf_transition q))" and ?st = "disposition_state (mf_disposition q)"
    and ?code = "disposition_code (mf_disposition q)"
  obtain row where row: "bound_row E ctx ?b db = Ok row" and run: "owns_claim ctx row \<and> commands db' = update_rows
      (\<lambda>r. cmd_id r = binding_command_id ?b \<and> owns_claim ctx r) (dispose_row ?st ?code (mt_at (mf_transition q))) (commands db)
    \<or> db' = db \<and> cmd_state row = ?st \<and> parse_safe_code row = Ok ?code"
    using assms by (auto simp add: finish_materialization_def update_command_def Let_def and_then_ok_iff split: if_splits)
  have at: "find (\<lambda>r. cmd_id r = binding_command_id ?b) (commands db) = Some row" "cmd_id row = binding_command_id ?b"
    using bound_row_ok(1) [OF row] find_row [of _ "commands db" row] unfolding read_command_def by auto
  have "\<exists>row'. find (\<lambda>r. cmd_id r = binding_command_id ?b) (commands db') = Some row'
      \<and> cmd_state row' = ?st \<and> cmd_safe_error_code row' = Some (error_code_as_str ?code)"
    using run
  proof (elim disjE conjE)
    assume moved: "owns_claim ctx row" "commands db' = update_rows
      (\<lambda>r. cmd_id r = binding_command_id ?b \<and> owns_claim ctx r) (dispose_row ?st ?code (mt_at (mf_transition q))) (commands db)"
    have "find (\<lambda>r. cmd_id r = binding_command_id ?b) (commands db') = Some (dispose_row ?st ?code (mt_at (mf_transition q)) row)"
      unfolding moved(2) using at moved(1) find_update_rows [of "\<lambda>r. cmd_id r = binding_command_id ?b"
          "dispose_row ?st ?code (mt_at (mf_transition q))" "\<lambda>r. cmd_id r = binding_command_id ?b \<and> owns_claim ctx r" "commands db"]
      by (simp add: dispose_row_def)
    then show ?thesis by (simp add: dispose_row_def)
  qed (use at in \<open>auto simp add: parse_safe_code_ok\<close>)
  then show ?thesis by (cases "mf_disposition q") (auto simp add: rejected_with_def phase_def row_phase_def)
qed

lemma complete_materialization_result:
  assumes "complete_materialization E ctx t db = Ok (result, db')"
  shows "materialized E ctx (mt_command t) db' result" "\<exists>rows. db' = db\<lparr>commands := rows\<rparr>"
proof -
  let ?q = "mt_command t" and ?b = "mc_binding (mt_command t)"
  obtain row row' row'' where row: "bound_row E ctx ?b db = Ok row" and own: "owns_claim ctx row"
    and db': "db' = db\<lparr>commands := update_rows (\<lambda>r. cmd_id r = binding_command_id ?b \<and> owns_claim ctx r)
        (materialized_row (mc_asset_revision_id ?q) (mt_at t)) (commands db)\<rparr>"
    and after: "read_command db' ?b = Some row'" "validate_command_row E row' = Ok row''" "replay_materialization db' row'' ?q = Ok result"
    using assms by (auto simp add: complete_materialization_def update_command_def Let_def and_then_ok_iff ok_or_ok_iff split: if_splits)
  have at: "find (\<lambda>r. cmd_id r = binding_command_id ?b) (commands db) = Some row" "cmd_id row = binding_command_id ?b"
    using bound_row_ok(1) [OF row] find_row [of _ "commands db" row] unfolding read_command_def by auto
  have "read_command db' ?b = Some (materialized_row (mc_asset_revision_id ?q) (mt_at t) row)"
    unfolding read_command_def db'
    using at own find_update_rows [of "\<lambda>r. cmd_id r = binding_command_id ?b" "materialized_row (mc_asset_revision_id ?q) (mt_at t)"
        "\<lambda>r. cmd_id r = binding_command_id ?b \<and> owns_claim ctx r" "commands db"]
    by (simp add: materialized_row_def)
  then have "row' = materialized_row (mc_asset_revision_id ?q) (mt_at t) row" using after(1) by simp
  then show "materialized E ctx ?q db' result"
    using after validate_command_row_ok [OF after(2)] bound_row_ok(2) [OF row]
    by (auto simp add: materialized_def materialized_row_def binding_matches_def)
  show "\<exists>rows. db' = db\<lparr>commands := rows\<rparr>" using db' by blast
qed


section \<open>What an execution answers\<close>

definition materialize_ok :: "store_env \<Rightarrow> store_context \<Rightarrow> materialize_inputs \<Rightarrow> materialize_request \<Rightarrow> bool" where
  "materialize_ok E ctx inp q =
    (binding_wf E ctx (mc_binding (materialize_command E q))
     \<and> (\<forall>k at. mi_clock inp k = Some at \<longrightarrow> clock_ok E at)
     \<and> apart E (mq_command_id q) (mi_before_resolve inp @ mi_before_claim inp @ mi_after_claim inp))"

definition closes_claim :: "store_env \<Rightarrow> store_context \<Rightarrow> materialization_command \<Rightarrow> materialize_step \<Rightarrow> bool" where
  "closes_claim E ctx command out =
    (let i = binding_command_id (mc_binding command); db = mw_db (snd out) in
     ledger_wf E db \<and> (case fst out of
       Inr a \<Rightarrow> materialized E ctx command db (ma_result a) \<and> \<not> ma_replayed a
     | Inl code \<Rightarrow> mw_failed (snd out) \<or> phase db i = Recovery \<or> rejected_with db i code))"

lemma abandon_closes: "ledger_wf E (mw_db w) \<Longrightarrow> closes_claim E ctx command (abandon_claim e w)"
  by (simp add: closes_claim_def abandon_claim_def)

lemma perform_simps [simp]:
  "mw_db (perform p w) = mw_db w" "mw_failed (perform p w) = mw_failed w" "mw_performed (perform p w) = mw_performed w @ [p]"
  by (simp_all add: perform_def)

lemma finish_closes:
  assumes "ledger_wf E (mw_db w)" "binding_wf E ctx (mc_binding command)" "clock_ok E at" "materialization_command_new command = Ok command"
  shows "closes_claim E ctx command (finish_claim E ctx inp \<lparr>mt_command = command, mt_at = at\<rparr> disposition w)"
proof -
  let ?q = "\<lparr>mf_transition = \<lparr>mt_command = command, mt_at = at\<rparr>, mf_disposition = disposition\<rparr>"
  show ?thesis
  proof (cases "materialization_finish_new ?q")
    case (Inl e)
    then show ?thesis using abandon_closes [OF assms(1)] by (simp add: finish_claim_def)
  next
    case new: (Inr q)
    then have q: "q = ?q" by (auto simp add: materialization_finish_new_def Let_def split: if_splits)
    show ?thesis
    proof (cases "through (mi_settle_fault inp) (finish_materialization E ctx q (mw_db w))")
      case (Inl e)
      then show ?thesis using new abandon_closes [OF assms(1)] by (simp add: finish_claim_def)
    next
      case (Inr x)
      obtain out db' where x: "x = (out, db')" by (cases x)
      then have run: "finish_materialization E ctx ?q (mw_db w) = Ok (out, db')" using Inr q by (auto simp add: through_def split: option.splits)
      have "store_ok E ctx (FinishMaterialization ?q)" using new assms(2-4) by (simp add: external_ok_def)
      then have "ledger_wf E db'" using store_run_ledger [of E ctx "FinishMaterialization ?q" "mw_db w" db'] assms(1) run
        by (simp add: committed_def)
      moreover have "finish_claim E ctx inp \<lparr>mt_command = command, mt_at = at\<rparr> disposition w = (Err (disposition_code disposition), w\<lparr>mw_db := db'\<rparr>)"
        using new Inr x by (simp add: finish_claim_def)
      moreover note finish_materialization_phase [OF run]
      ultimately show ?thesis by (cases disposition) (simp_all add: closes_claim_def)
    qed
  qed
qed

lemma complete_closes:
  assumes "ledger_wf E (mw_db w)" "materialization_command_new command = Ok command"
  shows "closes_claim E ctx command (complete_claim E ctx inp \<lparr>mt_command = command, mt_at = at\<rparr> w)"
proof (cases "through (mi_settle_fault inp) (complete_materialization E ctx \<lparr>mt_command = command, mt_at = at\<rparr> (mw_db w))")
  case (Inl e)
  then show ?thesis using abandon_closes [OF assms(1)] by (simp add: complete_claim_def)
next
  case (Inr x)
  obtain result db' where x: "x = (result, db')" by (cases x)
  then have run: "complete_materialization E ctx \<lparr>mt_command = command, mt_at = at\<rparr> (mw_db w) = Ok (result, db')"
    using Inr by (auto simp add: through_def split: option.splits)
  have "ledger_wf E db'"
    using store_run_ledger [of E ctx "CompleteMaterialization \<lparr>mt_command = command, mt_at = at\<rparr>" "mw_db w" db'] assms run
    by (simp add: committed_def)
  then show ?thesis
    using Inr x complete_materialization_result(1) [OF run] by (simp add: complete_claim_def closes_claim_def)
qed

lemma claimed_closes:
  assumes "ledger_wf E (mw_db w)" "binding_wf E ctx (mc_binding command)" "materialization_command_new command = Ok command"
    and "\<forall>k at. mi_clock inp k = Some at \<longrightarrow> clock_ok E at" "clock_ok E claimed_at"
  shows "closes_claim E ctx command (materialize_claimed E ctx inp command member claimed_at w)"
  using finish_closes [OF assms(1,2,5,3)] finish_closes [of E "perform (Publish member) w", OF _ assms(2,5,3)]
    complete_closes [of E "perform (Publish member) w" command ctx inp] assms(1,3)
  by (simp add: materialize_claimed_def Let_def split: sum.split publish_outcome.split option.split)

text \<open>Which physical operations a claimed execution adds.\<close>

lemma finish_claim_performs: "\<exists>code w'. finish_claim E ctx inp t disposition w = (Inl code, w') \<and> mw_performed w' = mw_performed w"
  by (simp add: finish_claim_def abandon_claim_def split: sum.split prod.split)

lemma finish_claim_fails [simp]: "finish_claim E ctx inp t disposition w \<noteq> (Inr a, w')"
  by (simp add: finish_claim_def abandon_claim_def split: sum.split prod.split)

lemma complete_claim_performs: "(r, w') = complete_claim E ctx inp t w \<Longrightarrow>
    mw_performed w' = mw_performed w @ (case r of Inr _ \<Rightarrow> [Cleanup] | Inl _ \<Rightarrow> [])"
  by (auto simp add: complete_claim_def abandon_claim_def split: sum.splits prod.splits)

lemma claimed_performs:
  assumes "materialize_claimed E ctx inp command member claimed_at w = (r, w')"
  shows "\<exists>ops. mw_performed w' = mw_performed w @ ops \<and> (case r of Inr _ \<Rightarrow> ops = [Publish member, Cleanup]
    | Inl _ \<Rightarrow> ops = [] \<or> ops = [Publish member])"
proof (cases "control_point (mi_directive inp 4)")
  case (Inl code)
  then show ?thesis
    using assms finish_claim_performs [of E ctx inp "\<lparr>mt_command = command, mt_at = claimed_at\<rparr>" "DispositionRejected code" w]
    by (auto simp add: materialize_claimed_def)
next
  case (Inr u)
  let ?w = "perform (Publish member) w"
  have "(\<exists>disposition. materialize_claimed E ctx inp command member claimed_at w =
      finish_claim E ctx inp \<lparr>mt_command = command, mt_at = claimed_at\<rparr> disposition ?w)
    \<or> (\<exists>at. materialize_claimed E ctx inp command member claimed_at w = complete_claim E ctx inp \<lparr>mt_command = command, mt_at = at\<rparr> ?w)"
    using Inr by (auto simp add: materialize_claimed_def Let_def split: sum.split publish_outcome.split option.split)
  then consider (stopped) disposition where "materialize_claimed E ctx inp command member claimed_at w =
      finish_claim E ctx inp \<lparr>mt_command = command, mt_at = claimed_at\<rparr> disposition ?w"
    | (published) at where "materialize_claimed E ctx inp command member claimed_at w = complete_claim E ctx inp \<lparr>mt_command = command, mt_at = at\<rparr> ?w"
    by blast
  then show ?thesis
  proof cases
    case stopped
    then show ?thesis using assms finish_claim_performs [of E ctx inp "\<lparr>mt_command = command, mt_at = claimed_at\<rparr>" disposition ?w] by auto
  next
    case published
    then show ?thesis using assms complete_claim_performs [of r w' E ctx inp _ ?w] by (auto split: sum.splits)
  qed
qed

lemma reacquired_phase:
  assumes "reacquire_materialization E ctx t expected db = Ok db'"
  shows "phase db' (binding_command_id (mc_binding (mt_command t))) = Claimed (context_runtime_id ctx)"
proof -
  let ?b = "mc_binding (mt_command t)"
  let ?p = "\<lambda>row r. cmd_id r = binding_command_id ?b \<and> cmd_state r = cmd_state row \<and> cmd_runtime_id r = cmd_runtime_id row
      \<and> cmd_safe_error_code r = map_option error_code_as_str expected"
  obtain row where row: "bound_row E ctx ?b db = Ok row"
    and held: "expected = None \<and> cmd_state row = ''CLAIMED'' \<or> (\<exists>code. expected = Some code \<and> parse_safe_code row = Ok code)"
    and cmds: "commands db' = update_rows (?p row) (reclaim_row ctx (mt_at t)) (commands db)"
    using assms by (auto simp add: reacquire_materialization_def update_command_def Let_def and_then_ok_iff
        split: if_splits option.splits prod.splits)
  have at: "find (\<lambda>r. cmd_id r = binding_command_id ?b) (commands db) = Some row" "cmd_id row = binding_command_id ?b"
    using bound_row_ok(1) [OF row] find_row [of _ "commands db" row] unfolding read_command_def by auto
  have "?p row row" using held at(2) validate_core(5) [OF bound_row_ok(3) [OF row]] by (auto simp add: parse_safe_code_ok)
  then have "find (\<lambda>r. cmd_id r = binding_command_id ?b) (commands db') = Some (reclaim_row ctx (mt_at t) row)"
    unfolding cmds using at(1) find_update_rows [of "\<lambda>r. cmd_id r = binding_command_id ?b" "reclaim_row ctx (mt_at t)" "?p row" "commands db"]
    by (simp add: reclaim_row_def)
  then show ?thesis by (simp add: phase_def row_phase_def reclaim_row_def)
qed

lemma claim_runs:
  assumes "ledger_wf E db" "binding_wf E ctx (mc_binding command)" "materialization_command_new command = Ok command" "clock_ok E at"
    and run: "(case recovery of
        Some expected \<Rightarrow> reacquire_materialization E ctx \<lparr>mt_command = command, mt_at = at\<rparr> expected db
      | None \<Rightarrow> claim_new_materialization ctx \<lparr>mt_command = command, mt_at = at\<rparr> db) = Ok db'"
  shows "ledger_wf E db' \<and> phase db' (binding_command_id (mc_binding command)) = Claimed (context_runtime_id ctx)"
proof (cases recovery)
  case None
  let ?t = "\<lparr>mt_command = command, mt_at = at\<rparr>"
  have claim: "claim_new_materialization ctx ?t db = Ok db'" using run None by simp
  then have fresh: "read_command db (mc_binding command) = None" by (auto simp add: claim_new_materialization_def split: option.splits)
  then have "db' = db\<lparr>commands := commands db @ [claimed_row ctx (mc_binding command) at]\<rparr>"
    using claim insert_claim_fresh [OF fresh] by (simp add: claim_new_materialization_def)
  then have "phase db' (binding_command_id (mc_binding command)) = Claimed (context_runtime_id ctx)"
    using fresh by (simp add: phase_def read_command_def find_append row_phase_def claimed_row_def)
  then show ?thesis
    using store_run_ledger [of E ctx "ClaimMaterialization ?t" db db'] assms(1-4) claim by (simp add: external_ok_def)
next
  case (Some expected)
  let ?t = "\<lparr>mt_command = command, mt_at = at\<rparr>"
  have "reacquire_materialization E ctx ?t expected db = Ok db'" using run Some by simp
  then show ?thesis
    using reacquired_phase [of E ctx ?t expected db db'] store_run_ledger [of E ctx "ReacquireMaterialization ?t expected" db db'] assms(1-4)
    by (simp add: external_ok_def)
qed

lemma prepared_claims:
  assumes "ledger_wf E (mw_db w)" "binding_wf E ctx (mc_binding command)" "materialization_command_new command = Ok command"
    and clocks: "\<forall>k at. mi_clock inp k = Some at \<longrightarrow> clock_ok E at"
    and others: "apart E (binding_command_id (mc_binding command)) (mi_before_claim inp)"
    and run: "prepare_and_claim E ctx backend inp q command recovery w = (r, w')"
  shows "ledger_wf E (mw_db w') \<and> (\<exists>ops. mw_performed w' = mw_performed w @ ops \<and> (case r of
      Inl _ \<Rightarrow> phase (mw_db w') (binding_command_id (mc_binding command)) = phase (mw_db w) (binding_command_id (mc_binding command))
        \<and> (ops = [] \<or> (\<exists>member. ops = [if recovery = None then Prepare member else Prepare_Recovery member]))
    | Inr (member, claimed_at) \<Rightarrow> clock_ok E claimed_at
        \<and> phase (mw_db w') (binding_command_id (mc_binding command)) = Claimed (context_runtime_id ctx)
        \<and> ops = [if recovery = None then Prepare member else Prepare_Recovery member]))"
proof (cases "and_then (control_point (mi_directive inp 2)) (\<lambda>_. map_err store_error_code
    (and_then (resolve_effect E backend inp q command (mw_db w)) (effect_request q command)))")
  case (Inl code)
  then show ?thesis using run assms(1) by (auto simp add: prepare_and_claim_def)
next
  case effect: (Inr effect)
  let ?op = "if recovery = None then Prepare (me_member effect) else Prepare_Recovery (me_member effect)"
  show ?thesis
  proof (cases "and_then (map_err store_error_code (mi_prepare inp)) (\<lambda>_. control_point (mi_directive inp 3))")
    case (Inl code)
    then show ?thesis using run assms(1) effect by (auto simp add: prepare_and_claim_def Let_def)
  next
    case ready: (Inr u)
    show ?thesis
    proof (cases "mi_clock inp 0")
      case None
      then show ?thesis using run assms(1) effect ready by (auto simp add: prepare_and_claim_def Let_def)
    next
      case (Some at)
      let ?db = "run_others E (mi_before_claim inp) (mw_db w)" and ?t = "\<lparr>mt_command = command, mt_at = at\<rparr>"
      let ?claim = "case recovery of Some expected \<Rightarrow> reacquire_materialization E ctx ?t expected ?db
          | None \<Rightarrow> claim_new_materialization ctx ?t ?db"
      note before = run_others_phase [OF others assms(1)]
      show ?thesis
      proof (cases "through (mi_claim_fault inp) ?claim")
        case (Inl e)
        then show ?thesis using run before effect ready Some by (cases recovery) (auto simp add: prepare_and_claim_def Let_def)
      next
        case (Inr db')
        then have "?claim = Ok db'" by (auto simp add: through_def split: option.splits)
        from claim_runs [OF conjunct1 [OF before] assms(2,3) clocks [rule_format, OF Some] this]
        show ?thesis
          using run Inr effect ready Some clocks [rule_format, OF Some] by (cases recovery) (auto simp add: prepare_and_claim_def Let_def)
      qed
    qed
  qed
qed

text \<open>The physical operations of one execution.\<close>

definition operations_allowed :: "bool \<Rightarrow> physical_operation list \<Rightarrow> error_code + materialize_answer \<Rightarrow> bool" where
  "operations_allowed leftover ops r =
    (case r of
       Inl _ \<Rightarrow> ops = [] \<or> (\<exists>m. let prepare = (if leftover then Prepare_Recovery m else Prepare m) in
         ops = [prepare] \<or> ops = [prepare, Publish m])
     | Inr a \<Rightarrow> \<exists>m. ops = (if ma_replayed a then [Cleanup_Completed m]
         else [if leftover then Prepare_Recovery m else Prepare m, Publish m, Cleanup]))"

lemma open_reported:
  assumes "ledger_wf E (mw_db w)" "binding_wf E ctx (mc_binding command)" "materialization_command_new command = Ok command"
    and "\<forall>k at. mi_clock inp k = Some at \<longrightarrow> clock_ok E at"
    and "apart E (binding_command_id (mc_binding command)) (mi_before_claim inp @ mi_after_claim inp)"
    and run: "materialize_open E ctx backend inp q command recovery w = (r, w')"
  shows "ledger_wf E (mw_db w') \<and> (\<exists>ops. mw_performed w' = mw_performed w @ ops \<and> operations_allowed (recovery \<noteq> None) ops r)
    \<and> (case r of
         Inr a \<Rightarrow> materialized E ctx command (mw_db w') (ma_result a) \<and> \<not> ma_replayed a
       | Inl code \<Rightarrow> mw_failed w' \<or> rejected_with (mw_db w') (binding_command_id (mc_binding command)) code
           \<or> phase (mw_db w') (binding_command_id (mc_binding command)) \<in>
               {Recovery, phase (mw_db w) (binding_command_id (mc_binding command))})"
proof -
  obtain r1 w1 where prep: "prepare_and_claim E ctx backend inp q command recovery w = (r1, w1)" by fastforce
  have others: "apart E (binding_command_id (mc_binding command)) (mi_before_claim inp)"
    "apart E (binding_command_id (mc_binding command)) (mi_after_claim inp)"
    using assms(5) by simp_all
  note ready = prepared_claims [OF assms(1-4) others(1) prep]
  show ?thesis
  proof (cases r1)
    case (Inl code)
    then show ?thesis using ready run prep by (fastforce simp add: materialize_open_def operations_allowed_def Let_def)
  next
    case (Inr x)
    obtain member claimed_at where x: "x = (member, claimed_at)" by (cases x)
    let ?w = "w1\<lparr>mw_db := run_others E (mi_after_claim inp) (mw_db w1)\<rparr>"
    have wf: "ledger_wf E (mw_db ?w)" using run_others_phase [OF others(2)] ready by simp
    have claimed: "materialize_claimed E ctx inp command member claimed_at ?w = (r, w')" using run prep Inr x by (simp add: materialize_open_def)
    have "closes_claim E ctx command (r, w')"
      using claimed_closes [OF wf assms(2,3,4), of claimed_at member] ready claimed Inr x by simp
    moreover obtain ops where "mw_performed w' = mw_performed w1 @ ops"
      and "case r of Inr _ \<Rightarrow> ops = [Publish member, Cleanup] | Inl _ \<Rightarrow> ops = [] \<or> ops = [Publish member]"
      using claimed_performs [OF claimed] by auto
    moreover have "mw_performed w1 = mw_performed w @ [if recovery = None then Prepare member else Prepare_Recovery member]"
      using ready Inr x by simp
    ultimately show ?thesis
      by (cases r) (auto simp add: closes_claim_def operations_allowed_def Let_def)
  qed
qed

lemma replay_performs:
  assumes "replay_completed E backend inp q command result w = (r, w')"
  shows "mw_db w' = mw_db w \<and> mw_failed w' = mw_failed w \<and> (case r of
      Inl _ \<Rightarrow> mw_performed w' = mw_performed w
    | Inr a \<Rightarrow> ma_replayed a \<and> ma_result a = result \<and> (\<exists>m. mw_performed w' = mw_performed w @ [Cleanup_Completed m]))"
  using assms by (auto simp add: replay_completed_def split: sum.splits if_splits)

section \<open>What is published is what is recorded\<close>

text \<open>The rows of a member that are available; the replay reads only these.\<close>

definition available_rows :: "(bytes \<times> int \<times> string) list \<Rightarrow> (bytes \<times> int) list" where
  "available_rows rows = map (\<lambda>(d, n, _). (d, n)) (filter (\<lambda>(_, _, lifecycle). lifecycle = ''AVAILABLE'') rows)"

lemma available_concat: "available_rows (concat (map f xs)) = concat (map (\<lambda>x. available_rows (f x)) xs)"
  by (induction xs) (simp_all add: available_rows_def)

lemma available_if: "available_rows (if c then rows else []) = (if c then available_rows rows else [])"
  by (simp add: available_rows_def)

lemma available_one: "available_rows [(d, n, lifecycle)] = (if lifecycle = ''AVAILABLE'' then [(d, n)] else [])"
  by (simp add: available_rows_def)

lemma if_both: "(if p then if q then xs else [] else []) = (if p \<and> q then xs else [])"
  by simp

lemma available_members:
  "[(rm_blob_digest rm, bl_byte_length b).
      a \<leftarrow> assets db, as_id a = sl_asset_id s,
      ar \<leftarrow> asset_revisions db, ar_asset_id ar = as_id a \<and> ar_id ar = sl_asset_revision_id s,
      rp \<leftarrow> representations db, rp_asset_revision_id rp = ar_id ar \<and> rp_id rp = sl_representation_id s,
      rs \<leftarrow> resources db, rs_representation_id rs = rp_id rp \<and> rs_id rs = sl_resource_id s,
      rm \<leftarrow> resource_members db, rm_resource_id rm = rs_id rs \<and> rm_ordinal rm = uint (sl_member_ordinal s),
      b \<leftarrow> blobs db, bl_digest b = rm_blob_digest rm \<and> bl_lifecycle b = ''AVAILABLE''] =
    available_rows (selected_members s db)"
  by (simp only: selected_members_def available_concat available_if available_one if_both)

lemma first_available:
  "first_row rows = Some (d, n, ''AVAILABLE'') \<Longrightarrow> first_row (available_rows rows) = Some (d, n)"
  by (cases rows) (auto simp add: first_row_def available_rows_def)

lemma resolved_row:
  assumes "resolve_materialization E s db = Ok m"
  shows "\<exists>len. first_row (selected_members s db) = Some (rv_blob_digest m, len, ''AVAILABLE'') \<and> u64_try_from len = Some (rv_byte_length m)
    \<and> length (rv_blob_digest m) = 32"
proof -
  obtain raw len n where row: "first_row (selected_members s db) = Some (raw, len, ''AVAILABLE'')" "length raw = 32" "u64_try_from len = Some n"
    and rest: "(case filter (\<lambda>l. lo_blob_digest l = raw \<and> lo_backend_id l = sl_current_backend_id s) (locations db) of
        [] \<Rightarrow> Err Store_StorageConfiguration
      | l # others \<Rightarrow>
        if others \<noteq> [] \<or> lo_backend_id l \<noteq> sl_current_backend_id s \<or> lo_custody l \<noteq> ''MANAGED'' \<or> lo_durability l \<noteq> ''DURABLE''
          \<or> lo_lifecycle l \<noteq> ''AVAILABLE'' \<or> lo_locator l \<noteq> canonical_local_locator raw
        then Err Store_StorageCorruption
        else and_then (stored_id E (Some (lo_id l))) (\<lambda>i.
          resolved_member_from_store
            \<lparr>rv_asset_id = sl_asset_id s, rv_asset_revision_id = sl_asset_revision_id s,
             rv_representation_id = sl_representation_id s, rv_resource_id = sl_resource_id s,
             rv_member_ordinal = sl_member_ordinal s, rv_blob_digest = raw, rv_byte_length = n, rv_location_id = i,
             rv_backend_id = lo_backend_id l, rv_locator = lo_locator l\<rparr>)) = Ok m"
    using assms by (auto simp add: resolve_materialization_def and_then_ok_iff ok_or_ok_iff ensure_ok_iff digest_of_def)
  obtain l others where l: "filter (\<lambda>l. lo_blob_digest l = raw \<and> lo_backend_id l = sl_current_backend_id s) (locations db) = l # others"
    using rest by (cases "filter (\<lambda>l. lo_blob_digest l = raw \<and> lo_backend_id l = sl_current_backend_id s) (locations db)") auto
  have "rv_blob_digest m = raw" "rv_byte_length m = n"
    using rest unfolding l by (auto simp add: and_then_ok_iff resolved_member_from_store_def split: if_splits)
  then show ?thesis using row by blast
qed

lemma resolved_is_recorded:
  assumes "resolve_effect E backend inp q command db = Ok m" "replay_materialization db row (materialize_command E q) = Ok result"
  shows "rv_blob_digest m = mr_blob_digest result \<and> rv_byte_length m = mr_byte_length result"
proof -
  define s where "s = \<lparr>sl_asset_id = mq_asset_id q, sl_asset_revision_id = mq_asset_revision_id q, sl_representation_id = mq_representation_id q,
    sl_resource_id = mq_resource_id q, sl_member_ordinal = mq_member_ordinal q, sl_current_backend_id = backend\<rparr>"
  have "resolve_materialization E s db = Ok m"
    using assms(1) by (auto simp add: resolve_effect_def s_def materialization_selection_new_def through_def and_then_ok_iff
        split: option.splits if_splits)
  from resolved_row [OF this] obtain len where first: "first_row (selected_members s db) = Some (rv_blob_digest m, len, ''AVAILABLE'')"
    and len: "u64_try_from len = Some (rv_byte_length m)" by blast
  have fields: "mc_asset_id (materialize_command E q) = sl_asset_id s" "mc_asset_revision_id (materialize_command E q) = sl_asset_revision_id s"
    "mc_representation_id (materialize_command E q) = sl_representation_id s" "mc_resource_id (materialize_command E q) = sl_resource_id s"
    "mc_member_ordinal (materialize_command E q) = sl_member_ordinal s"
    by (simp_all add: materialize_command_def s_def)
  show ?thesis
    using assms(2) len unfolding replay_materialization_def fields available_members first_available [OF first]
    by (auto simp add: and_then_ok_iff ok_or_ok_iff ensure_ok_iff digest_of_def materialization_result_from_store_def split: if_splits)
qed

lemma resolve_commands [simp]: "resolve_materialization E s (db\<lparr>commands := rows\<rparr>) = resolve_materialization E s db"
proof -
  have "selected_members s (db\<lparr>commands := rows\<rparr>) = selected_members s db" by (simp add: selected_members_def cong: if_cong)
  then show ?thesis by (simp add: resolve_materialization_def)
qed

lemma resolve_again:
  assumes "resolve_effect E backend inp q command db = Ok m" "mi_resolve_fault again = None"
  shows "resolve_effect E backend again q command (db\<lparr>commands := rows\<rparr>) = Ok m"
  using assms by (auto simp add: resolve_effect_def through_def and_then_ok_iff split: option.splits)

lemma observe_again: "materialized E ctx command db result \<Longrightarrow> observe_materialization E ctx command db = Ok (MaterializationReplay result)"
  by (auto simp add: materialized_def observe_materialization_def)

lemma claim_keeps_tables:
  "claim_new_materialization ctx t db = Ok db' \<Longrightarrow> \<exists>rows. db' = db\<lparr>commands := rows\<rparr>"
  "reacquire_materialization E ctx t expected db = Ok db' \<Longrightarrow> \<exists>rows. db' = db\<lparr>commands := rows\<rparr>"
  by (auto simp add: claim_new_materialization_def insert_claim_def reacquire_materialization_def update_command_def Let_def and_then_ok_iff
      split: option.splits if_splits)

lemma prepared_member:
  assumes "prepare_and_claim E ctx backend inp q command recovery w = (Inr (m, at), w')" "mi_before_claim inp = []"
  shows "resolve_effect E backend inp q command (mw_db w) = Ok m \<and> is_ok (effect_request q command m)
    \<and> (\<exists>rows. mw_db w' = (mw_db w)\<lparr>commands := rows\<rparr>) \<and> (\<exists>p. mw_performed w' = mw_performed w @ [p])"
proof -
  obtain effect where effect: "and_then (control_point (mi_directive inp 2)) (\<lambda>_. map_err store_error_code
      (and_then (resolve_effect E backend inp q command (mw_db w)) (effect_request q command))) = Ok effect"
    using assms(1) by (auto simp add: prepare_and_claim_def split: sum.splits)
  then obtain member where member: "resolve_effect E backend inp q command (mw_db w) = Ok member" "effect_request q command member = Ok effect"
    by (auto simp add: and_then_ok_iff map_err_ok_iff)
  then have "me_member effect = member" by (auto simp add: effect_request_def materialization_effect_new_def Let_def split: if_splits)
  moreover let ?w = "perform (if recovery = None then Prepare (me_member effect) else Prepare_Recovery (me_member effect)) w"
  obtain db' where "m = me_member effect" "w' = ?w\<lparr>mw_db := db'\<rparr>"
    and claim: "(case recovery of Some expected \<Rightarrow> reacquire_materialization E ctx \<lparr>mt_command = command, mt_at = at\<rparr> expected (mw_db w)
        | None \<Rightarrow> claim_new_materialization ctx \<lparr>mt_command = command, mt_at = at\<rparr> (mw_db w)) = Ok db'"
    using assms effect
    by (cases recovery) (auto simp add: prepare_and_claim_def Let_def through_def split: sum.splits option.splits)
  moreover have "\<exists>rows. db' = (mw_db w)\<lparr>commands := rows\<rparr>"
    using claim claim_keeps_tables by (cases recovery) auto
  ultimately show ?thesis using member by auto
qed

lemma claimed_ok:
  assumes "materialize_claimed E ctx inp command m at w = (Inr a, w')"
  shows "(\<exists>rows. mw_db w' = (mw_db w)\<lparr>commands := rows\<rparr>) \<and> mw_performed w' = mw_performed w @ [Publish m, Cleanup]
    \<and> \<not> ma_replayed a"
proof -
  obtain ops where "mw_performed w' = mw_performed w @ ops" "ops = [Publish m, Cleanup]" using claimed_performs [OF assms] by auto
  moreover obtain t where "complete_claim E ctx inp t (perform (Publish m) w) = (Inr a, w')"
    using assms by (auto simp add: materialize_claimed_def Let_def split: sum.splits publish_outcome.splits option.splits)
  then obtain result db' where "complete_materialization E ctx t (mw_db w) = Ok (result, db')" "mw_db w' = db'" "\<not> ma_replayed a"
    by (auto simp add: complete_claim_def through_def abandon_claim_def split: sum.splits option.splits prod.splits)
  ultimately show ?thesis using complete_materialization_result(2) by auto
qed

lemma materialize_reported:
  assumes "ledger_wf E (mw_db w)" "materialize_ok E ctx inp q" "materialize_execute E ctx backend inp q w = (r, w')"
  shows "ledger_wf E (mw_db w')
    \<and> (case r of
         Inr a \<Rightarrow> materialized E ctx (materialize_command E q) (if ma_replayed a then mw_db w else mw_db w') (ma_result a)
       | Inl code \<Rightarrow> mw_failed w' \<or> rejected_with (mw_db w') (mq_command_id q) code
           \<or> phase (mw_db w') (mq_command_id q) \<in> {Recovery, phase (mw_db w) (mq_command_id q)})
    \<and> (\<exists>ops. mw_performed w' = mw_performed w @ ops \<and> operations_allowed (phase (mw_db w) (mq_command_id q) \<noteq> Absent) ops r
         \<and> ((\<exists>m. Publish m \<in> set ops) \<longrightarrow> open_phase (context_runtime_id ctx) (phase (mw_db w) (mq_command_id q))))"
proof -
  let ?c = "materialize_command E q" and ?w = "w\<lparr>mw_db := run_others E (mi_before_resolve inp) (mw_db w)\<rparr>"
  let ?pre = "and_then (control_point (mi_directive inp 0)) (\<lambda>_.
       and_then (map_err store_error_code (materialization_command_new ?c)) (\<lambda>command.
       and_then (control_point (mi_directive inp 1)) (\<lambda>_.
       and_then (map_err store_error_code (through (mi_observe_fault inp) (observe_materialization E ctx command (mw_db w)))) (\<lambda>seen.
         Ok (command, seen)))))"
  have id: "binding_command_id (mc_binding ?c) = mq_command_id q" by (simp add: materialize_command_def)
  have ok: "binding_wf E ctx (mc_binding ?c)" "\<forall>k at. mi_clock inp k = Some at \<longrightarrow> clock_ok E at" using assms(2) by (simp_all add: materialize_ok_def)
  have others: "apart E (binding_command_id (mc_binding ?c)) (mi_before_claim inp @ mi_after_claim inp)"
    using assms(2) unfolding id by (simp add: materialize_ok_def)
  have before: "ledger_wf E (mw_db ?w)" "phase (mw_db ?w) (mq_command_id q) = phase (mw_db w) (mq_command_id q)"
    using run_others_phase [of E "mq_command_id q" "mi_before_resolve inp" "mw_db w"] assms(1,2) by (simp_all add: materialize_ok_def)
  show ?thesis
  proof (cases ?pre)
    case (Inl code)
    then have "r = Err code" "w' = w" using assms(3) by (auto simp add: materialize_execute_def)
    then show ?thesis using assms(1) by (simp add: operations_allowed_def)
  next
    case (Inr x)
    then obtain seen where x: "x = (?c, seen)" and new: "materialization_command_new ?c = Ok ?c"
      and seen: "observe_materialization E ctx ?c (mw_db w) = Ok seen"
      by (auto simp add: and_then_ok_iff map_err_ok_iff through_def materialization_command_new_def split: option.splits if_splits)
    note was = observed_phase [OF seen, unfolded id Let_def]
    have rest: "(r, w') = (case seen of
          MaterializationReplay result \<Rightarrow> replay_completed E backend inp q ?c result ?w
        | MaterializationRejected code \<Rightarrow> (Err code, ?w)
        | MaterializationInProgress \<Rightarrow> (Err CommandInProgress, ?w)
        | RecoveryCandidate code \<Rightarrow> materialize_open E ctx backend inp q ?c (Some code) ?w
        | MaterializationAbsent \<Rightarrow> materialize_open E ctx backend inp q ?c None ?w)"
      using assms(3) Inr x by (simp add: materialize_execute_def Let_def)
    have opened: ?thesis if "materialize_open E ctx backend inp q ?c recovery ?w = (r, w')"
        "(recovery \<noteq> None) = (phase (mw_db w) (mq_command_id q) \<noteq> Absent)" "open_phase (context_runtime_id ctx) (phase (mw_db w) (mq_command_id q))"
      for recovery
      using open_reported [OF before(1) ok(1) new ok(2) others that(1), unfolded id] before(2) that(2,3) by (cases r) simp_all
    show ?thesis
    proof (cases seen)
      case (MaterializationReplay result)
      then show ?thesis
        using rest before was replay_performs [of E backend inp q ?c result ?w r w'] by (cases r) (auto simp add: operations_allowed_def)
    next
      case MaterializationAbsent
      then show ?thesis using opened [of None] rest was by (simp add: open_phase_def)
    next
      case (RecoveryCandidate code)
      then show ?thesis using opened [of "Some code"] rest was by simp
    qed (use rest before was in \<open>simp_all add: operations_allowed_def\<close>)
  qed
qed

lemma execute_observed:
  assumes "materialize_execute E ctx backend inp q w = (Inr a, w')"
  shows "\<exists>seen. materialization_command_new (materialize_command E q) = Ok (materialize_command E q)
    \<and> (let w = w\<lparr>mw_db := run_others E (mi_before_resolve inp) (mw_db w)\<rparr>; command = materialize_command E q in
      (case seen of
          MaterializationReplay result \<Rightarrow> replay_completed E backend inp q command result w
        | MaterializationRejected code \<Rightarrow> (Err code, w)
        | MaterializationInProgress \<Rightarrow> (Err CommandInProgress, w)
        | RecoveryCandidate code \<Rightarrow> materialize_open E ctx backend inp q command (Some code) w
        | MaterializationAbsent \<Rightarrow> materialize_open E ctx backend inp q command None w) = (Inr a, w'))"
proof -
  obtain command seen where new: "materialization_command_new (materialize_command E q) = Ok command"
    and run: "and_then (control_point (mi_directive inp 0)) (\<lambda>_.
       and_then (map_err store_error_code (materialization_command_new (materialize_command E q))) (\<lambda>command.
       and_then (control_point (mi_directive inp 1)) (\<lambda>_.
       and_then (map_err store_error_code (through (mi_observe_fault inp) (observe_materialization E ctx command (mw_db w)))) (\<lambda>seen.
         Ok (command, seen))))) = Ok (command, seen)"
    using assms by (auto simp add: materialize_execute_def and_then_ok_iff map_err_ok_iff split: sum.splits)
  have "command = materialize_command E q"
    using new by (auto simp add: materialization_command_new_def and_then_ok_iff split: if_splits)
  then show ?thesis using assms new run by (intro exI [of _ seen]) (simp add: materialize_execute_def Let_def)
qed

lemma opened_ok:
  assumes "materialize_open E ctx backend inp q command recovery w = (Inr a, w')" "mi_before_claim inp = []" "mi_after_claim inp = []"
  shows "\<exists>m p rows. resolve_effect E backend inp q command (mw_db w) = Ok m \<and> is_ok (effect_request q command m)
    \<and> mw_db w' = (mw_db w)\<lparr>commands := rows\<rparr> \<and> mw_performed w' = mw_performed w @ [p, Publish m, Cleanup] \<and> \<not> ma_replayed a"
proof -
  obtain m at w1 where prep: "prepare_and_claim E ctx backend inp q command recovery w = (Inr (m, at), w1)"
    and claimed: "materialize_claimed E ctx inp command m at w1 = (Inr a, w')"
    using assms(1,3) by (auto simp add: materialize_open_def split: prod.splits sum.splits)
  from prepared_member [OF prep assms(2)] claimed_ok [OF claimed] show ?thesis by auto
qed

lemma replayed_ok:
  assumes "replay_completed E backend inp q command result w = (Inr a, w')"
  shows "\<exists>m. resolve_effect E backend inp q command (mw_db w) = Ok m \<and> is_ok (effect_request q command m) \<and> mw_db w' = mw_db w
    \<and> ma_replayed a \<and> rv_blob_digest m = mr_blob_digest (ma_result a) \<and> rv_byte_length m = mr_byte_length (ma_result a)"
  using assms by (auto simp add: replay_completed_def is_ok_iff split: sum.splits if_splits)

lemma executed_member:
  assumes "materialize_execute E ctx backend inp q w = (Ok a, w')"
    and alone: "mi_before_resolve inp = []" "mi_before_claim inp = []" "mi_after_claim inp = []"
  defines "c \<equiv> materialize_command E q"
  shows "materialization_command_new c = Ok c \<and> (\<exists>m rows. resolve_effect E backend inp q c (mw_db w) = Ok m \<and> is_ok (effect_request q c m)
    \<and> mw_db w' = (mw_db w)\<lparr>commands := rows\<rparr> \<and> (ma_replayed a \<longrightarrow> mw_db w' = mw_db w)
    \<and> (\<not> ma_replayed a \<longrightarrow> (\<exists>p. mw_performed w' = mw_performed w @ [p, Publish m, Cleanup])))"
proof -
  obtain seen where new: "materialization_command_new c = Ok c"
    and rest: "(case seen of
          MaterializationReplay result \<Rightarrow> replay_completed E backend inp q c result w
        | MaterializationRejected code \<Rightarrow> (Err code, w)
        | MaterializationInProgress \<Rightarrow> (Err CommandInProgress, w)
        | RecoveryCandidate code \<Rightarrow> materialize_open E ctx backend inp q c (Some code) w
        | MaterializationAbsent \<Rightarrow> materialize_open E ctx backend inp q c None w) = (Ok a, w')"
    using execute_observed [OF assms(1), folded c_def] alone(1) by (auto simp add: Let_def)
  show ?thesis
  proof (cases "\<exists>result. seen = MaterializationReplay result")
    case True
    then obtain result where "replay_completed E backend inp q c result w = (Ok a, w')" using rest by auto
    moreover have "mw_db w = (mw_db w)\<lparr>commands := commands (mw_db w)\<rparr>" by simp
    ultimately show ?thesis using replayed_ok [of E backend inp q c result w a w'] new by metis
  next
    case False
    then obtain recovery where "materialize_open E ctx backend inp q c recovery w = (Ok a, w')" using rest by (cases seen) auto
    then show ?thesis using opened_ok [of E ctx backend inp q c recovery w a w'] alone(2,3) new by blast
  qed
qed

section \<open>Properties\<close>

text \<open>C4. Whatever the storage, the clock, the control and other commands do, the answer of a materialization is true
  of the journal: a result is the one recorded for the command; after a failure the command is as it was, in
  recovery, rejected for good with the code answered, or its runtime has failed.  The bytes of a member are published only for
  a command that nobody has settled and that is not under way in this runtime, after they have been prepared; what was staged is cleaned
  up only once the completion is recorded; a replay publishes nothing.\<close>

theorem materialize_answers_truthfully:
  assumes "ledger_wf E (mw_db w)" "materialize_ok E ctx inp q" "materialize_execute E ctx backend inp q w = (r, w')"
  shows "ledger_wf E (mw_db w')
    \<and> (case r of
         Inr a \<Rightarrow> materialized E ctx (materialize_command E q) (if ma_replayed a then mw_db w else mw_db w') (ma_result a)
       | Inl code \<Rightarrow> mw_failed w' \<or> rejected_with (mw_db w') (mq_command_id q) code
           \<or> phase (mw_db w') (mq_command_id q) \<in> {Recovery, phase (mw_db w) (mq_command_id q)})
    \<and> (\<exists>ops. mw_performed w' = mw_performed w @ ops \<and> operations_allowed (phase (mw_db w) (mq_command_id q) \<noteq> Absent) ops r
         \<and> ((\<exists>m. Publish m \<in> set ops) \<longrightarrow> open_phase (context_runtime_id ctx) (phase (mw_db w) (mq_command_id q))))"
  using assms by (rule materialize_reported)


section \<open>A concrete library with one member\<close>

definition sample_backend :: utext where "sample_backend = LOCAL_CAS_PREFIX @ replicate 64 97"

definition sample_library :: database where
  "sample_library = empty_database\<lparr>
     assets := assets sample_registered, asset_revisions := asset_revisions sample_registered,
     representations := representations sample_registered, resources := resources sample_registered,
     resource_members := resource_members sample_registered, blobs := blobs sample_registered,
     locations := [\<lparr>lo_id = sample_id 64, lo_blob_digest = replicate 32 3, lo_backend_id = sample_backend,
       lo_locator = canonical_local_locator (replicate 32 3), lo_custody = ''MANAGED'', lo_durability = ''DURABLE'',
       lo_lifecycle = ''AVAILABLE'', lo_revision = revision_bytes 1, lo_verified_at = stamp sample_at\<rparr>]\<rparr>"

definition sample_materialize :: materialize_request where
  "sample_materialize = \<lparr>mq_command_id = sample_id 6, mq_asset_id = sample_id 60, mq_asset_revision_id = sample_id 61,
     mq_representation_id = sample_id 62, mq_resource_id = sample_id 63, mq_member_ordinal = 0, mq_destination = [47, 98]\<rparr>"

definition sample_conditions :: materialize_inputs where
  "sample_conditions = \<lparr>mi_directive = (\<lambda>_. Continue), mi_clock = (\<lambda>_. Some sample_at), mi_prepare = Ok (), mi_publish = Ok Published,
     mi_cleanup = Ok (), mi_before_resolve = [], mi_before_claim = [], mi_after_claim = [], mi_observe_fault = None,
     mi_resolve_fault = None, mi_claim_fault = None, mi_settle_fault = None\<rparr>"

definition sample_before :: materialize_world where
  "sample_before = \<lparr>mw_db = sample_library, mw_failed = False, mw_performed = []\<rparr>"

definition sample_member :: resolved_member where
  "sample_member = \<lparr>rv_asset_id = sample_id 60, rv_asset_revision_id = sample_id 61, rv_representation_id = sample_id 62,
     rv_resource_id = sample_id 63, rv_member_ordinal = 0, rv_blob_digest = replicate 32 3, rv_byte_length = 10,
     rv_location_id = sample_id 64, rv_backend_id = sample_backend, rv_locator = canonical_local_locator (replicate 32 3)\<rparr>"

lemma sample_texts:
  "valid_backend_id sample_backend" "sample_backend \<noteq> []" "text_len sample_backend \<le> 255" "0 \<notin> set sample_backend"
  "canonical_local_locator (replicate 32 3) \<noteq> []" "text_len (canonical_local_locator (replicate 32 3)) \<le> 1024"
  "0 \<notin> set (canonical_local_locator (replicate 32 3))"
  by code_simp+

lemma sample_ids [simp]: "stored_id sample_env (Some (sample_id n)) = Ok (sample_id n)" "length (sample_id n) = 16"
  by (simp_all add: stored_id_wf sample_id_wf) (simp add: sample_id_def)

lemma sample_resolves: "resolve_effect sample_env sample_backend sample_conditions sample_materialize c
    (sample_library\<lparr>commands := rows\<rparr>) = Ok sample_member"
proof -
  define s where "s = \<lparr>sl_asset_id = sample_id 60, sl_asset_revision_id = sample_id 61, sl_representation_id = sample_id 62,
    sl_resource_id = sample_id 63, sl_member_ordinal = 0 :: u32, sl_current_backend_id = sample_backend\<rparr>"
  have "selected_members s sample_library = [(replicate 32 3, 10, ''AVAILABLE'')]"
    by (simp add: selected_members_def s_def sample_library_def sample_registered_def)
  moreover have "filter (\<lambda>l. lo_blob_digest l = replicate 32 3 \<and> lo_backend_id l = sl_current_backend_id s) (locations sample_library) = locations sample_library"
    by (simp add: s_def sample_library_def)
  moreover have "u64_try_from 10 = Some 10" by (simp add: u64_try_from_def)
  moreover have "digest_of (replicate 32 3) = Ok (replicate 32 3)" by (simp add: digest_of_def)
  ultimately have "resolve_materialization sample_env s sample_library = Ok sample_member"
    using sample_texts by (simp add: resolve_materialization_def first_row_def)
      (simp add: sample_library_def s_def resolved_member_from_store_def sample_member_def)
  then show ?thesis
    using sample_texts(1) by (simp add: resolve_effect_def materialization_selection_new_def sample_materialize_def sample_conditions_def
        through_def s_def)
qed

definition sample_materialization :: materialization_command where
  "sample_materialization = materialize_command sample_env sample_materialize"

lemma sample_materialization_simps [simp]:
  "binding_command_id (mc_binding sample_materialization) = sample_id 6"
  "binding_operation_id (mc_binding sample_materialization) = ASSET_MATERIALIZE_V1"
  "mc_asset_revision_id sample_materialization = sample_id 61"
  by (simp_all add: sample_materialization_def materialize_command_def sample_materialize_def)

lemma sample_materialization_wf: "binding_wf sample_env sample_ctx (mc_binding sample_materialization)"
  using sample_id_wf
  by (simp add: binding_wf_def sample_materialization_def materialize_command_def materialize_digest_def sample_materialize_def sample_env_def
      sample_ctx_def Let_def)

lemma sample_materialization_new: "materialization_command_new sample_materialization = Ok sample_materialization"
  by (simp add: materialization_command_new_def require_operation_def)
    (simp add: sample_materialization_def materialize_command_def sample_materialize_def)

lemma sample_materialize_ok: "materialize_ok sample_env sample_ctx sample_conditions sample_materialize"
  using sample_materialization_wf sample_clock_ok
  by (simp add: materialize_ok_def sample_conditions_def flip: sample_materialization_def)

lemma sample_library_wf: "ledger_wf sample_env sample_library"
  using empty_wf by (simp add: sample_library_def ledger_wf_def journal_wf_def gap_free_def events_journalled_def event_log_def)

abbreviation sample_row :: command_row where
  "sample_row \<equiv> claimed_row sample_ctx (mc_binding sample_materialization) sample_at"

lemma sample_member_claims: "claim_new_materialization sample_ctx \<lparr>mt_command = sample_materialization, mt_at = sample_at\<rparr> sample_library
    = Ok (sample_library\<lparr>commands := [sample_row]\<rparr>)"
proof -
  have "commands sample_library = []" by (simp add: sample_library_def empty_database_def)
  moreover from this have "read_command sample_library (mc_binding sample_materialization) = None" by (simp add: read_command_def)
  ultimately show ?thesis using insert_claim_fresh by (simp add: claim_new_materialization_def)
qed

lemma sample_materialized_row:
  "validate_command_row sample_env (materialized_row (sample_id 61) sample_at sample_row) = Ok (materialized_row (sample_id 61) sample_at sample_row)"
  (is "_ = Ok ?row")
proof -
  have "row_header_ok ?row"
    by (intro external_header) (simp_all add: materialized_row_def claimed_row_def u32_try_from_uint)
  moreover obtain t where "persisted_timestamp sample_env (stamp sample_at) = Ok t"
    using sample_clock_ok by (cases "persisted_timestamp sample_env (stamp sample_at)") (auto simp add: clock_ok_def)
  moreover have "length (binding_digest (mc_binding sample_materialization)) = 32"
    using sample_materialization_wf by (simp add: binding_wf_def)
  ultimately show ?thesis
    by (simp add: validate_command_row_def stored_code_def payload_present_def validate_state_def no_result_def
        validate_completed_def validate_known_command_matrix_def external_matrix_def materialized_row_def claimed_row_def sample_ctx_def
        operation_ids)
qed

abbreviation sample_result :: materialization_result where
  "sample_result \<equiv> \<lparr>mr_command_id = sample_id 6, mr_asset_revision_id = sample_id 61, mr_representation_id = sample_id 62,
     mr_resource_id = sample_id 63, mr_member_ordinal = 0, mr_blob_digest = replicate 32 3, mr_byte_length = 10\<rparr>"

lemma sample_completes:
  "\<exists>db'. complete_materialization sample_env sample_ctx \<lparr>mt_command = sample_materialization, mt_at = sample_at\<rparr>
      (sample_library\<lparr>commands := [sample_row]\<rparr>) = Ok (sample_result, db')"
proof -
  have "bound_row sample_env sample_ctx (mc_binding sample_materialization) (sample_library\<lparr>commands := [sample_row]\<rparr>) = Ok sample_row"
    using claimed_row_valid [OF sample_materialization_wf sample_clock_ok]
    by (simp add: bound_row_def read_command_def binding_matches_def claimed_row_def)
  moreover have "owns_claim sample_ctx sample_row" "cmd_id sample_row = sample_id 6" by (simp_all add: owns_claim_def claimed_row_def)
  moreover have "cmd_id (materialized_row i at row) = cmd_id row" for i at row by (simp add: materialized_row_def)
  moreover have "replay_materialization (sample_library\<lparr>commands := rows\<rparr>) (materialized_row (sample_id 61) sample_at sample_row)
      sample_materialization = Ok sample_result" for rows
    by (simp add: replay_materialization_def materialized_row_def claimed_row_def sample_materialization_def materialize_command_def
        sample_materialize_def sample_library_def sample_registered_def first_row_def digest_of_def u64_try_from_def
        materialization_result_from_store_def)
  ultimately show ?thesis
    using sample_materialized_row by (simp add: complete_materialization_def update_command_def read_command_def count_rows_def Let_def)
qed

lemma sample_materializes:
  "\<exists>db'. materialize_execute sample_env sample_ctx sample_backend sample_conditions sample_materialize sample_before =
    (Ok \<lparr>ma_result = sample_result, ma_replayed = False, ma_cleanup_pending = False\<rparr>,
     \<lparr>mw_db = db', mw_failed = False, mw_performed = [Prepare sample_member, Publish sample_member, Cleanup]\<rparr>)"
proof -
  obtain db' where completes: "complete_materialization sample_env sample_ctx \<lparr>mt_command = sample_materialization, mt_at = sample_at\<rparr>
      (sample_library\<lparr>commands := [sample_row]\<rparr>) = Ok (sample_result, db')" using sample_completes by blast
  have empty: "commands sample_library = []" by (simp add: sample_library_def empty_database_def)
  have inputs: "mi_directive sample_conditions k = Continue" "mi_clock sample_conditions k = Some sample_at" "mi_prepare sample_conditions = Ok ()"
      "mi_publish sample_conditions = Ok Published" "mi_cleanup sample_conditions = Ok ()" "mi_before_resolve sample_conditions = []"
      "mi_before_claim sample_conditions = []" "mi_after_claim sample_conditions = []" "mi_observe_fault sample_conditions = None"
      "mi_claim_fault sample_conditions = None" "mi_settle_fault sample_conditions = None" for k
    by (simp_all add: sample_conditions_def)
  have "resolve_effect sample_env sample_backend sample_conditions sample_materialize sample_materialization sample_library = Ok sample_member"
    using sample_resolves [of sample_materialization "commands sample_library"] by simp
  moreover have "effect_request sample_materialize sample_materialization sample_member =
      Ok \<lparr>me_command = sample_materialization, me_member = sample_member, me_destination = [47, 98]\<rparr>"
    by (simp add: effect_request_def materialization_effect_new_def sample_materialization_def materialize_command_def sample_materialize_def
        sample_member_def)
  ultimately have "prepare_and_claim sample_env sample_ctx sample_backend sample_conditions sample_materialize sample_materialization None sample_before
    = (Inr (sample_member, sample_at), \<lparr>mw_db = sample_library\<lparr>commands := [sample_row]\<rparr>, mw_failed = False, mw_performed = [Prepare sample_member]\<rparr>)"
    using sample_member_claims by (simp add: prepare_and_claim_def inputs sample_before_def perform_def through_def)
  moreover have "observe_materialization sample_env sample_ctx sample_materialization sample_library = Ok MaterializationAbsent"
    by (simp add: observe_materialization_def read_command_def empty)
  ultimately show ?thesis
    using completes sample_materialization_new
    by (simp add: materialize_execute_def materialize_open_def materialize_claimed_def complete_claim_def inputs through_def perform_def
        sample_before_def flip: sample_materialization_def)
qed

theorem materialize_answers_truthfully_witness:
  "\<exists>w'. materialize_execute sample_env sample_ctx sample_backend sample_conditions sample_materialize sample_before =
      (Ok \<lparr>ma_result = sample_result, ma_replayed = False, ma_cleanup_pending = False\<rparr>, w')
    \<and> materialized sample_env sample_ctx (materialize_command sample_env sample_materialize) (mw_db w') sample_result"
proof -
  obtain w' where run: "materialize_execute sample_env sample_ctx sample_backend sample_conditions sample_materialize sample_before =
      (Ok \<lparr>ma_result = sample_result, ma_replayed = False, ma_cleanup_pending = False\<rparr>, w')" using sample_materializes by blast
  have "ledger_wf sample_env (mw_db sample_before)" using sample_library_wf by (simp add: sample_before_def)
  from materialize_answers_truthfully [OF this sample_materialize_ok run] show ?thesis using run by simp
qed


end
