(* ===== verification/Spec2Isabelle.thy ===== *)
theory Spec2Isabelle
  imports Framing Permission_Diff Broker_Foundation Take_Selection Store_History Plugin_Session Materialize
begin

text \<open>
  A verification library for MengXia, a local asset library with a creative ledger and sandboxed plugins.  All
  paths below are relative to \<open>src/\<close>.

  \<^bold>\<open>The program.\<close>  A daemon owns one library: a SQLite database and a directory of blobs.  A client sends
  commands; each has an identifier, an operation and a digest of its request, and is executed at most once.
  Commands of one transaction (the creative ledger, asset revisions, lifecycle changes, recorded locations) write
  their rows, their events and their journal row together.  Commands with an effect outside the database (copying
  a file in, materializing one) claim a journal row first, act, and settle the row afterwards; rows that a runtime
  left claimed are classified when the next one starts.  Plugins are separate processes that speak a private
  framed protocol; what they may read is decided from reviewed packages, leases and policies.

  \<^bold>\<open>Conventions.\<close>  A function that can fail returns \<open>error + value\<close>, with \<open>Ok\<close> and \<open>Err\<close> of \<open>Prelude\<close>, so
  that every early return of the source is a branch.  A panic is \<open>None\<close> of an option.  Bytes and fixed-width
  integers are words, and the checked arithmetic of the source is checked arithmetic of the model.  A transaction
  is a function from the database to an error or an outcome with the new database: an error leaves the database
  as it was.  Third-party code is an argument: the UUID crate, the calendar and the hash (record \<open>store_env\<close>),
  the allocator of a frame buffer (\<open>reserve\<close>), the protobuf decoder and encoder (\<open>prost_decode\<close>, \<open>host_encode\<close>),
  the descriptor table.  What a theorem needs of them is a hypothesis of it, and its witness instantiates them.

  \<^bold>\<open>Values and encodings.\<close>
  \<^item> \<open>Prelude\<close>: words, results, texts, big-endian numbers, and the locale \<open>canonical_codec\<close> of encodings that
    have one spelling per value.
  \<^item> \<open>Value_Types\<close> (\<open>crates/mengxia-types\<close>): error codes, identifiers, digests, revisions, timestamps; their
    spellings are bijections.
  \<^item> \<open>Framing\<close> (\<open>crates/mengxia-framing\<close>): length-prefixed frames; what is written is read back, within the limit.
  \<^item> \<open>Event_Payload\<close> (\<open>crates/mengxia-events\<close>) and \<open>Result_Payload\<close> (\<open>crates/mengxia-ports\<close>): the stored
    payloads; the decoders accept exactly the encodings.
  \<^item> \<open>Varint\<close>, \<open>Core_Wire\<close> (\<open>crates/mengxia-core-proto/src/lib.rs\<close>), \<open>Plugin_Wire\<close> and \<open>Plugin_Codec\<close>
    (\<open>crates/mengxia-plugin-proto\<close>): the checks made before a protobuf message is decoded.  The array walk of
    the core protocol is the recursive walk; the plugin walk accepts exactly the canonical encodings of its
    descriptor; envelopes survive the wire (locale \<open>envelope_contract\<close>, one interpretation per direction).

  \<^bold>\<open>Domain rules.\<close>  \<open>Asset_Domain\<close> and \<open>Creative_Domain\<close> (\<open>crates/mengxia-domain\<close>): the rules of a new
  revision, ratios in lowest terms, canonical work specifications, the state machine of a take.

  \<^bold>\<open>Plugins.\<close>  \<open>Package_Manifest\<close> and \<open>Permission_Diff\<close> (\<open>crates/mengxia-plugin-package\<close>,
  \<open>crates/mengxia-plugin-security\<close>): validated manifests and the exact difference of two.
  \<open>Review_Admission\<close> and \<open>Broker_Foundation\<close>: decisions that hold exactly when a declarative predicate does, and
  for how long.  \<open>Plugin_Host\<close> and \<open>Plugin_Session\<close> (\<open>crates/mengxia-plugin-host\<close>): the driver of a session as a
  step function on what it finds ready when it is woken; it refines an inductive relation of protocol moves, from
  which the properties of the transcript follow for every sequence of wakes.

  \<^bold>\<open>The store.\<close>  \<open>Store_Schema\<close>, \<open>Command_Journal\<close>, \<open>Command_Replay\<close>, \<open>Creative_Store\<close>, \<open>Asset_Store\<close>,
  \<open>External_Store\<close> and \<open>Startup\<close> (\<open>crates/mengxia-store-sqlite\<close>, \<open>crates/mengxia-app/src/asset_persistence.rs\<close>)
  model the writer over lists of rows with the keys of the schema.  The locale \<open>pure_command\<close> is the contract of a
  command of one transaction, \<open>logged_command\<close> adds its events; the creative commands and the asset commands are
  its interpretations, and \<open>Creative_Ledger\<close> and \<open>Asset_Ledger\<close> draw the consequences.  \<open>Take_Selection\<close> relates
  the take transitions to the partial indexes.  \<open>Store_History\<close> puts every operation of the store into one step
  function and shows that it refines the life cycle of a command (absent, claimed, in recovery, settled) and keeps
  the ledger intact, whatever runtimes interleave.

  \<^bold>\<open>Services.\<close>  \<open>Ingest\<close> (\<open>crates/mengxia-app/src/ingest.rs\<close>): one execution, from the control checkpoints and
  the admission of the command over its claim to its settlement, with other operations of the store in between.
  Its answers are true of the journal.  \<open>Materialize\<close> (\<open>crates/mengxia-app/src/materialize.rs\<close>): writing a member to a
  destination, with the order of the physical operations recorded; nothing is published for a settled command, and
  what is published is what the journal records.

  \<^bold>\<open>Bounds and termination.\<close>  Loops are structural or have a termination proof; none needs fuel.  The preflight of
  the core protocol is a partial function whose result \<open>None\<close> is an index out of the array of frames; it is proved
  to be \<open>Some\<close>.  The paging loops of the startup classification return for every control and clock.

  \<^bold>\<open>Not modelled.\<close>  The platform layer (\<open>crates/mengxia-platform-fs\<close>, \<open>crates/mengxia-platform-sandbox\<close>) is
  system calls; the local blob storage (\<open>crates/mengxia-storage-local\<close>) is a protocol over them, and its outcomes
  are inputs of \<open>Ingest\<close> and \<open>Materialize\<close>.  Migration, bootstrap and the connection lifecycle of SQLite are sequences of statements
  and file operations.  The binaries (\<open>bins\<close>) wire the parts together.  The caller side of a plugin session and
  the paged queries that read the ledger without changing it are not modelled.
\<close>

end
